(* ===== verification/Dibs_Prelude.thy ===== *)
theory Dibs_Prelude
  imports Main "HOL-Library.Word" "HOL-Library.DAList"
begin

text \<open>
  Shared vocabulary of the development: the machine integers of the Rust sources, the
  concurrent hash map \<open>DashMap\<close> as a finite association list with unique keys, the
  collections of rewrite rules the component theories feed, and the generic contract of a
  component whose operations all keep an invariant.
\<close>

section \<open>Machine integers and results\<close>

type_synonym u8 = "8 word"
type_synonym u16 = "16 word"
type_synonym u32 = "32 word"
type_synonym u64 = "64 word"
type_synonym i32 = "32 word"
type_synonym i64 = "64 word"

text \<open>Signed Rust integers share the words of the unsigned ones of the same width; \<open>as\<close>
  casts between equal widths are the identity and \<open>sint\<close> reads the signed value.\<close>

type_synonym bytes = "u8 list"
type_synonym fh = u64
type_synonym sid = u32
type_synonym hash = bytes
type_synonym ('e, 'a) result = "'e + 'a"

named_theorems dibs_frame \<open>what a handler leaves unchanged\<close>
named_theorems dibs_inv \<open>preservation of component invariants\<close>

fun ok :: "('e, 'a) result \<Rightarrow> 'a option" where
  "ok (Inl e) = None"
| "ok (Inr x) = Some x"

fun unwrap_or :: "'a \<Rightarrow> ('e, 'a) result \<Rightarrow> 'a" where
  "unwrap_or d (Inl e) = d"
| "unwrap_or d (Inr x) = x"

fun option_or :: "'a \<Rightarrow> 'a option \<Rightarrow> 'a" where
  "option_or d None = d"
| "option_or d (Some x) = x"

lemma ok_eq_Some [simp]: "ok r = Some x \<longleftrightarrow> r = Inr x"
  by (cases r) auto

lemma ok_eq_None: "ok r = None \<longleftrightarrow> (\<exists>e. r = Inl e)"
  by (cases r) auto

section \<open>Decimal numbers\<close>

text \<open>What \<open>format!\<close> prints for an unsigned number.\<close>

fun show_nat :: "nat \<Rightarrow> string" where
  "show_nat n = (if n < 10 then [char_of (48 + n)] else show_nat (n div 10) @ [char_of (48 + n mod 10)])"

declare show_nat.simps [simp del]

fun read_nat :: "nat \<Rightarrow> string \<Rightarrow> nat" where
  "read_nat acc [] = acc"
| "read_nat acc (c # cs) = read_nat (10 * acc + (of_char c - 48)) cs"

lemma read_nat_append: "read_nat acc (xs @ ys) = read_nat (read_nat acc xs) ys"
  by (induction xs arbitrary: acc) auto

lemma read_show_nat: "read_nat 0 (show_nat n) = n"
proof (induction n rule: show_nat.induct)
  case (1 n)
  have digit: "of_char (char_of (48 + d) :: char) = 48 + d" if "d < 10" for d :: nat
    using that by (simp add: take_bit_eq_mod)
  show ?case
  proof (cases "n < 10")
    case True
    then show ?thesis by (simp add: show_nat.simps [of n] digit)
  next
    case False
    then show ?thesis
      using 1 by (simp add: show_nat.simps [of n] read_nat_append digit)
  qed
qed

lemma show_nat_inject [simp]: "show_nat m = show_nat n \<longleftrightarrow> m = n"
  using read_show_nat by metis

section \<open>DashMap\<close>

text \<open>
  A \<open>DashMap<K, V>\<close> is a finite map. Its iteration order is unspecified; the model iterates
  in the order of the underlying list, and no statement of the development depends on which
  order that is.
\<close>

type_synonym ('k, 'v) DashMap = "('k, 'v) alist"

abbreviation dm_new :: "('k, 'v) DashMap" where
  "dm_new \<equiv> DAList.empty"

abbreviation dm_get :: "('k, 'v) DashMap \<Rightarrow> 'k \<Rightarrow> 'v option" where
  "dm_get \<equiv> DAList.lookup"

abbreviation dm_insert :: "'k \<Rightarrow> 'v \<Rightarrow> ('k, 'v) DashMap \<Rightarrow> ('k, 'v) DashMap" where
  "dm_insert \<equiv> DAList.update"

abbreviation dm_remove :: "'k \<Rightarrow> ('k, 'v) DashMap \<Rightarrow> ('k, 'v) DashMap" where
  "dm_remove \<equiv> DAList.delete"

abbreviation dm_retain :: "('k \<times> 'v \<Rightarrow> bool) \<Rightarrow> ('k, 'v) DashMap \<Rightarrow> ('k, 'v) DashMap" where
  "dm_retain \<equiv> DAList.filter"

abbreviation dm_iter :: "('k, 'v) DashMap \<Rightarrow> ('k \<times> 'v) list" where
  "dm_iter \<equiv> DAList.impl_of"

abbreviation dm_len :: "('k, 'v) DashMap \<Rightarrow> nat" where
  "dm_len m \<equiv> length (dm_iter m)"

lemma dm_new_empty: "dm_iter dm_new = []" "dm_retain P dm_new = dm_new"
  by (simp_all add: DAList.empty.rep_eq impl_of_inject [symmetric] DAList.filter.rep_eq)

lemma dm_iter_iff: "(k, v) \<in> set (dm_iter m) \<longleftrightarrow> dm_get m k = Some v"
  by (simp add: DAList.lookup.rep_eq)

lemma dm_get_insert: "dm_get (dm_insert k v m) = (dm_get m)(k \<mapsto> v)"
  by (rule ext) (simp add: DAList.lookup_update)

lemma dm_get_retain_Some [simp]:
  "dm_get (dm_retain P m) k = Some v \<longleftrightarrow> dm_get m k = Some v \<and> P (k, v)"
  by transfer (auto simp: distinct_map_filter)

lemma dm_get_retain:
  "dm_get (dm_retain P m) k = Option.bind (dm_get m k) (\<lambda>v. if P (k, v) then Some v else None)"
proof (cases "dm_get (dm_retain P m) k")
  case None
  then have "\<not> (dm_get m k = Some v \<and> P (k, v))" for v
    using dm_get_retain_Some [of P m k v] by simp
  with None show ?thesis by (cases "dm_get m k") auto
next
  case (Some v)
  then have "dm_get m k = Some v \<and> P (k, v)" by (rule dm_get_retain_Some [THEN iffD1])
  with Some show ?thesis by simp
qed

lemma finite_dom_dm [simp]: "finite (dom (dm_get m))"
  by transfer (simp add: finite_dom_map_of)

lemma dm_len_card: "dm_len m = card (dom (dm_get m))"
proof -
  have "dom (dm_get m) = fst ` set (dm_iter m)"
    by transfer (simp add: dom_map_of_conv_image_fst)
  moreover have "card (fst ` set (dm_iter m)) = length (map fst (dm_iter m))"
    using distinct_card [OF DAList.impl_of_distinct, of m] by simp
  ultimately show ?thesis by simp
qed

lemma distinct_dm_iter: "distinct (dm_iter m)"
  using DAList.impl_of_distinct [of m] by (simp add: distinct_map)

text \<open>How many entries of a map satisfy a predicate, read off the iterator.\<close>

lemma dm_count_filter:
  "length (filter P (dm_iter m)) = card {k. \<exists>v. dm_get m k = Some v \<and> P (k, v)}"
proof -
  have "length (filter P (dm_iter m)) = dm_len (dm_retain P m)"
    by transfer simp
  also have "\<dots> = card (dom (dm_get (dm_retain P m)))"
    by (rule dm_len_card)
  also have "dom (dm_get (dm_retain P m)) = {k. \<exists>v. dm_get m k = Some v \<and> P (k, v)}"
    by (auto simp: dom_def)
  finally show ?thesis .
qed

text \<open>A loop that removes a list of keys.\<close>

lemma dm_get_fold_remove:
  "dm_get (fold dm_remove ks m) k = (if k \<in> set ks then None else dm_get m k)"
  by (induction ks arbitrary: m) auto

section \<open>Components that keep an invariant\<close>

text \<open>
  Several components share one contract: a state, a set of operations, and an invariant
  every admissible operation keeps. Whatever sequence of operations the kernel or the
  background threads issue, the invariant then holds after it.
\<close>

fun admissible_run :: "('op \<Rightarrow> 's \<Rightarrow> 's) \<Rightarrow> ('s \<Rightarrow> 'op \<Rightarrow> bool) \<Rightarrow> 's \<Rightarrow> 'op list \<Rightarrow> bool" where
  "admissible_run step adm s [] \<longleftrightarrow> True"
| "admissible_run step adm s (x # xs) \<longleftrightarrow> adm s x \<and> admissible_run step adm (step x s) xs"

lemma admissible_run_append:
  "admissible_run step adm s (xs @ ys) \<longleftrightarrow>
   admissible_run step adm s xs \<and> admissible_run step adm (fold step xs s) ys"
  by (induction xs arbitrary: s) auto

text \<open>When admissibility does not depend on the state it is asked of each operation alone.\<close>

lemma admissible_run_const:
  "admissible_run step (\<lambda>_. P) s xs \<longleftrightarrow> (\<forall>x \<in> set xs. P x)"
  by (induction xs arbitrary: s) auto

locale invariant_component =
  fixes step :: "'op \<Rightarrow> 's \<Rightarrow> 's"
    and admissible :: "'s \<Rightarrow> 'op \<Rightarrow> bool"
    and invar :: "'s \<Rightarrow> bool"
  assumes step_invar: "invar s \<Longrightarrow> admissible s op \<Longrightarrow> invar (step op s)"
begin

lemma run_invar: "invar s \<Longrightarrow> admissible_run step admissible s ops \<Longrightarrow> invar (fold step ops s)"
  by (induction ops arbitrary: s) (auto intro: step_invar)

lemma run_prefix_invar:
  assumes "invar s" and "admissible_run step admissible s (ops @ rest)"
  shows "invar (fold step ops s)"
  using assms by (auto simp: admissible_run_append intro: run_invar)

end

section \<open>Tables that hand out numbered handles\<close>

text \<open>
  \<open>HandleTable\<close> and \<open>DirHandleTable\<close> promise their clients the same things: \<open>alloc\<close> issues the
  next number of an atomic 64-bit counter, \<open>get\<close> and \<open>remove\<close> are map operations, and as long as
  the counter has not wrapped every live handle was issued before.
\<close>

fun alloc_seq :: "('a \<Rightarrow> 't \<Rightarrow> fh \<times> 't) \<Rightarrow> 'a list \<Rightarrow> 't \<Rightarrow> fh list \<times> 't" where
  "alloc_seq alloc [] t = ([], t)"
| "alloc_seq alloc (a # as) t =
     (let (n, t') = alloc a t; (ns, t'') = alloc_seq alloc as t' in (n # ns, t''))"

lemma unat_succ: "(n :: u64) \<noteq> - 1 \<Longrightarrow> unat (n + 1) = Suc (unat n)"
  using unatSuc [of n] by (simp add: add.commute eq_neg_iff_add_eq_0)

lemma succ_less: "(n :: u64) \<noteq> - 1 \<Longrightarrow> k < n \<Longrightarrow> k < n + 1"
  by (simp add: word_less_nat_alt unat_succ)

locale fh_table =
  fixes alloc :: "'a \<Rightarrow> 't \<Rightarrow> fh \<times> 't"
    and get :: "'t \<Rightarrow> fh \<Rightarrow> 'h option"
    and remove :: "fh \<Rightarrow> 't \<Rightarrow> 'h option \<times> 't"
    and next_id :: "'t \<Rightarrow> fh"
    and invar :: "'t \<Rightarrow> bool"
  assumes alloc_id: "fst (alloc a t) = next_id t"
    and alloc_next: "next_id (snd (alloc a t)) = next_id t + 1"
    and get_alloc_same: "get (snd (alloc a t)) (next_id t) \<noteq> None"
    and get_alloc_other: "k \<noteq> next_id t \<Longrightarrow> get (snd (alloc a t)) k = get t k"
    and remove_result: "fst (remove k t) = get t k"
    and get_remove: "get (snd (remove k t)) j = (if j = k then None else get t j)"
    and next_remove: "next_id (snd (remove k t)) = next_id t"
    and issued: "invar t \<Longrightarrow> get t k \<noteq> None \<Longrightarrow> k < next_id t"
    and invar_alloc: "invar t \<Longrightarrow> next_id t \<noteq> - 1 \<Longrightarrow> invar (snd (alloc a t))"
    and invar_remove: "invar t \<Longrightarrow> invar (snd (remove k t))"
begin

lemma alloc_fresh: "invar t \<Longrightarrow> get t (fst (alloc a t)) = None"
  using issued by (force simp: alloc_id)

lemma alloc_then_get: "get (snd (alloc a t)) (fst (alloc a t)) \<noteq> None"
  by (simp add: alloc_id get_alloc_same)

lemma alloc_seq_ids:
  "unat (next_id t) + length as < 2 ^ 64 \<Longrightarrow>
   map unat (fst (alloc_seq alloc as t)) = [unat (next_id t) ..< unat (next_id t) + length as]"
proof (induction as arbitrary: t)
  case Nil
  then show ?case by simp
next
  case (Cons a as)
  let ?t = "snd (alloc a t)"
  have ne: "next_id t \<noteq> - 1"
  proof
    assume "next_id t = - 1"
    then have "unat (next_id t) = 2 ^ 64 - 1"
      by (simp add: unsigned_minus_1_eq_mask mask_eq_exp_minus_1)
    with Cons.prems show False by simp
  qed
  then have n: "unat (next_id ?t) = Suc (unat (next_id t))"
    by (simp add: alloc_next unat_succ)
  with Cons.prems have "unat (next_id ?t) + length as < 2 ^ 64" by simp
  from Cons.IH [OF this] n show ?case
    by (simp add: split_beta Let_def alloc_id upt_conv_Cons del: upt_Suc)
qed

lemma alloc_seq_distinct:
  assumes "unat (next_id t) + length as < 2 ^ 64"
  shows "distinct (fst (alloc_seq alloc as t))"
  using alloc_seq_ids [OF assms] by (metis distinct_map distinct_upt)

text \<open>A closed handle number is not issued again while the counter has not wrapped.\<close>

lemma closed_not_reissued:
  assumes "invar t" and "get t k \<noteq> None"
    and "unat (next_id t) + length as < 2 ^ 64"
  shows "k \<notin> set (fst (alloc_seq alloc as (snd (remove k t))))"
proof
  let ?t = "snd (remove k t)"
  assume k: "k \<in> set (fst (alloc_seq alloc as ?t))"
  have "unat k < unat (next_id t)"
    using issued [OF assms(1,2)] by (simp add: word_less_nat_alt)
  moreover have "unat k \<in> set (map unat (fst (alloc_seq alloc as ?t)))"
    using k by simp
  then have "unat k \<in> set [unat (next_id t) ..< unat (next_id t) + length as]"
    using alloc_seq_ids [of ?t as] assms(3) by (simp add: next_remove del: set_map set_upt)
  then have "unat (next_id t) \<le> unat k" by simp
  ultimately show False by simp
qed

end

end
