(* ===== verification/Paths.thy ===== *)
theory Paths
  imports Dibs_Prelude
begin

text \<open>
  The parts of \<open>std::path\<close> and \<open>std::ffi\<close> the sources use, on Unix: a path is the byte string
  of an \<open>OsStr\<close>.
\<close>

section \<open>PathBuf\<close>

type_synonym path = string

abbreviation sep :: char where
  "sep \<equiv> CHR ''/''"

definition is_absolute :: "path \<Rightarrow> bool" where
  "is_absolute p \<longleftrightarrow> p \<noteq> [] \<and> hd p = sep"

text \<open>\<open>PathBuf::push\<close> and hence \<open>Path::join\<close>: an absolute argument replaces the path; otherwise
  a separator is added unless the path is empty or ends in one.\<close>

definition join :: "path \<Rightarrow> path \<Rightarrow> path" where
  "join p q = (if is_absolute q then q
     else if p \<noteq> [] \<and> last p \<noteq> sep then p @ sep # q else p @ q)"

fun split_sep :: "path \<Rightarrow> string list" where
  "split_sep [] = [[]]"
| "split_sep (c # cs) = (if c = sep then [] # split_sep cs
     else (case split_sep cs of [] \<Rightarrow> [[c]] | x # xs \<Rightarrow> (c # x) # xs))"

datatype component = RootDir | CurDir | ParentDir | Normal string

definition to_component :: "string \<Rightarrow> component" where
  "to_component s = (if s = ''..'' then ParentDir else Normal s)"

definition components :: "path \<Rightarrow> component list" where
  "components p =
     (if is_absolute p then [RootDir] else if hd (split_sep p) = ''.'' then [CurDir] else [])
     @ map to_component (filter (\<lambda>s. s \<noteq> [] \<and> s \<noteq> ''.'') (split_sep p))"

fun component_str :: "component \<Rightarrow> string" where
  "component_str RootDir = [sep]"
| "component_str CurDir = ''.''"
| "component_str ParentDir = ''..''"
| "component_str (Normal s) = s"

definition from_components :: "component list \<Rightarrow> path" where
  "from_components cs = fold (\<lambda>c p. join p (component_str c)) cs []"

definition file_name :: "path \<Rightarrow> string option" where
  "file_name p = (if components p = [] then None
     else case last (components p) of Normal s \<Rightarrow> Some s | _ \<Rightarrow> None)"

definition parent :: "path \<Rightarrow> path option" where
  "parent p = (if components p = [] \<or> last (components p) = RootDir then None
     else Some (from_components (butlast (components p))))"

definition starts_with :: "path \<Rightarrow> path \<Rightarrow> bool" where
  "starts_with p base \<longleftrightarrow>
     take (length (components base)) (components p) = components base"

text \<open>The names the kernel passes in a FUSE request: one path component, no NUL byte.\<close>

definition valid_name :: "string \<Rightarrow> bool" where
  "valid_name n \<longleftrightarrow> n \<noteq> [] \<and> n \<noteq> ''.'' \<and> n \<noteq> ''..'' \<and> sep \<notin> set n \<and> CHR 0x00 \<notin> set n"

text \<open>The relative paths the inode table ever holds: names joined below the root.\<close>

fun rel_of_names :: "string list \<Rightarrow> path" where
  "rel_of_names [] = []"
| "rel_of_names [n] = n"
| "rel_of_names (n # ns) = n @ sep # rel_of_names ns"

section \<open>to_string_lossy\<close>

text \<open>
  \<open>OsStr::to_string_lossy\<close>: valid UTF-8 is kept, every maximal invalid sequence becomes one
  U+FFFD (the bytes EF BF BD). \<open>utf8_width\<close> is the number of bytes the decoder accepts at the
  front (\<open>Inr\<close>) or drops (\<open>Inl\<close>).
\<close>

definition cont :: "nat \<Rightarrow> bool" where
  "cont b \<longleftrightarrow> 0x80 \<le> b \<and> b \<le> 0xBF"

definition byte_at :: "string \<Rightarrow> nat \<Rightarrow> nat" where
  "byte_at s i = (if i < length s then of_char (s ! i) else 0)"

definition second3_ok :: "nat \<Rightarrow> nat \<Rightarrow> bool" where
  "second3_ok b c \<longleftrightarrow> b = 0xE0 \<and> 0xA0 \<le> c \<and> c \<le> 0xBF
     \<or> 0xE1 \<le> b \<and> b \<le> 0xEC \<and> cont c
     \<or> b = 0xED \<and> 0x80 \<le> c \<and> c \<le> 0x9F
     \<or> 0xEE \<le> b \<and> b \<le> 0xEF \<and> cont c"

definition second4_ok :: "nat \<Rightarrow> nat \<Rightarrow> bool" where
  "second4_ok b c \<longleftrightarrow> b = 0xF0 \<and> 0x90 \<le> c \<and> c \<le> 0xBF
     \<or> 0xF1 \<le> b \<and> b \<le> 0xF3 \<and> cont c
     \<or> b = 0xF4 \<and> 0x80 \<le> c \<and> c \<le> 0x8F"

definition utf8_width :: "string \<Rightarrow> nat + nat" where
  "utf8_width s = (let b = byte_at s 0 in
     if b < 0x80 then Inr 1
     else if 0xC2 \<le> b \<and> b \<le> 0xDF then (if cont (byte_at s 1) then Inr 2 else Inl 1)
     else if 0xE0 \<le> b \<and> b \<le> 0xEF then
       (if \<not> second3_ok b (byte_at s 1) then Inl 1
        else if cont (byte_at s 2) then Inr 3 else Inl 2)
     else if 0xF0 \<le> b \<and> b \<le> 0xF4 then
       (if \<not> second4_ok b (byte_at s 1) then Inl 1
        else if \<not> cont (byte_at s 2) then Inl 2
        else if cont (byte_at s 3) then Inr 4 else Inl 3)
     else Inl 1)"

lemma utf8_width_pos: "utf8_width s = Inl n \<Longrightarrow> 0 < n" "utf8_width s = Inr n \<Longrightarrow> 0 < n"
  by (auto simp: utf8_width_def Let_def split: if_splits)

definition replacement :: string where
  "replacement = [CHR 0xEF, CHR 0xBF, CHR 0xBD]"

function to_string_lossy :: "string \<Rightarrow> string" where
  "to_string_lossy s = (if s = [] then []
     else case utf8_width s of
       Inr n \<Rightarrow> take n s @ to_string_lossy (drop n s)
     | Inl n \<Rightarrow> replacement @ to_string_lossy (drop n s))"
  by pat_completeness auto
termination
  by (relation "measure length") (auto dest: utf8_width_pos)

declare to_string_lossy.simps [simp del]

section \<open>Facts about paths\<close>

lemma split_sep_ne [simp]: "split_sep p \<noteq> []"
  by (induction p) (auto split: list.splits)

lemma split_sep_name: "sep \<notin> set n \<Longrightarrow> split_sep n = [n]"
  by (induction n) auto

lemma split_sep_append: "sep \<notin> set n \<Longrightarrow> split_sep (n @ sep # p) = n # split_sep p"
  by (induction n) auto

lemma split_sep_rel:
  "ns \<noteq> [] \<Longrightarrow> (\<And>n. n \<in> set ns \<Longrightarrow> valid_name n) \<Longrightarrow> split_sep (rel_of_names ns) = ns"
  by (induction ns rule: rel_of_names.induct)
     (auto simp: valid_name_def split_sep_name split_sep_append)

lemma valid_name_not_absolute [simp]: "valid_name n \<Longrightarrow> \<not> is_absolute n"
  by (cases n) (auto simp: valid_name_def is_absolute_def)

lemma rel_not_absolute:
  "(\<And>n. n \<in> set ns \<Longrightarrow> valid_name n) \<Longrightarrow> \<not> is_absolute (rel_of_names ns)"
proof (induction ns rule: rel_of_names.induct)
  case (3 n m ns)
  then have "valid_name n" by simp
  then show ?case by (cases n) (auto simp: valid_name_def is_absolute_def)
qed (auto simp: is_absolute_def valid_name_def dest: hd_in_set)

lemma rel_of_names_snoc_last:
  "ns \<noteq> [] \<Longrightarrow> (\<And>n. n \<in> set ns \<Longrightarrow> valid_name n) \<Longrightarrow>
   rel_of_names ns \<noteq> [] \<and> last (rel_of_names ns) \<noteq> sep"
proof (induction ns rule: rel_of_names.induct)
  case (2 n)
  then have "valid_name n" by simp
  then have "n \<noteq> []" and "sep \<notin> set n" by (auto simp: valid_name_def)
  then have "last n \<noteq> sep" using last_in_set by metis
  with \<open>n \<noteq> []\<close> show ?case by simp
qed auto

lemma rel_of_names_append_name:
  "ns \<noteq> [] \<Longrightarrow> rel_of_names (ns @ [n]) = rel_of_names ns @ sep # n"
  by (induction ns rule: rel_of_names.induct) auto

lemma join_rel:
  assumes "\<And>m. m \<in> set ns \<Longrightarrow> valid_name m" and "valid_name n"
  shows "join (rel_of_names ns) n = rel_of_names (ns @ [n])"
proof (cases "ns = []")
  case True
  then show ?thesis using assms(2) by (simp add: join_def)
next
  case False
  then show ?thesis
    using assms rel_of_names_snoc_last [OF False assms(1)]
    by (simp add: join_def rel_of_names_append_name)
qed

lemma components_rel:
  assumes "\<And>n. n \<in> set ns \<Longrightarrow> valid_name n"
  shows "components (rel_of_names ns) = map Normal ns"
proof (cases "ns = []")
  case True
  then show ?thesis by (simp add: components_def is_absolute_def)
next
  case False
  have f: "filter (\<lambda>s. s \<noteq> [] \<and> s \<noteq> ''.'') ns = ns"
    using assms by (induction ns) (auto simp: valid_name_def)
  have m: "map to_component ns = map Normal ns"
    using assms by (auto simp: to_component_def valid_name_def)
  have "hd ns \<noteq> ''.''"
    using False assms [of "hd ns"] by (auto simp: valid_name_def)
  with f m show ?thesis
    using split_sep_rel [OF False assms] rel_not_absolute [OF assms]
    by (simp add: components_def)
qed

lemma from_components_rel:
  assumes "\<And>n. n \<in> set ns \<Longrightarrow> valid_name n"
  shows "from_components (map Normal ns) = rel_of_names ns"
  using assms
proof (induction ns rule: rev_induct)
  case Nil
  then show ?case by (simp add: from_components_def)
next
  case (snoc n ns)
  then show ?case by (simp add: from_components_def join_rel)
qed

lemma parent_rel:
  assumes "\<And>n. n \<in> set ns \<Longrightarrow> valid_name n" and "ns \<noteq> []"
  shows "parent (rel_of_names ns) = Some (rel_of_names (butlast ns))"
proof -
  have "components (rel_of_names ns) = map Normal ns"
    by (rule components_rel) (rule assms(1))
  moreover have "from_components (map Normal (butlast ns)) = rel_of_names (butlast ns)"
    by (rule from_components_rel) (meson assms(1) in_set_butlastD)
  ultimately show ?thesis
    using assms(2) by (simp add: parent_def last_map map_butlast)
qed

text \<open>
  \<open>PathBuf\<close> keys of the tables are compared component by component in Rust and byte by byte
  in the model. On the paths the tables hold the two agree.
\<close>

lemma rel_key_inj:
  assumes "\<And>n. n \<in> set ns \<Longrightarrow> valid_name n" and "\<And>n. n \<in> set ms \<Longrightarrow> valid_name n"
  shows "components (rel_of_names ns) = components (rel_of_names ms) \<longleftrightarrow>
         rel_of_names ns = rel_of_names ms"
proof
  assume "components (rel_of_names ns) = components (rel_of_names ms)"
  then have "map Normal ns = map Normal ms"
    by (simp add: components_rel assms)
  then have "ns = ms" by (simp add: inj_on_def)
  then show "rel_of_names ns = rel_of_names ms" by simp
qed simp

section \<open>Facts about lossy decoding\<close>

lemma byte_at_0 [simp]: "byte_at (c # cs) 0 = of_char c"
  by (simp add: byte_at_def)

lemma to_string_lossy_Nil [simp]: "to_string_lossy [] = []"
  by (simp add: to_string_lossy.simps)

lemma to_string_lossy_ascii_Cons:
  "(of_char c :: nat) < 0x80 \<Longrightarrow> to_string_lossy (c # cs) = c # to_string_lossy cs"
  by (subst to_string_lossy.simps) (simp add: utf8_width_def)

lemma to_string_lossy_ascii:
  "(\<And>c. c \<in> set s \<Longrightarrow> (of_char c :: nat) < 0x80) \<Longrightarrow> to_string_lossy s = s"
  by (induction s) (auto simp: to_string_lossy_ascii_Cons)

end
