(* ===== verification/Inodes.thy ===== *)
theory Inodes
  imports Paths
begin

text \<open>
  \<open>src/fs/inodes.rs\<close> and \<open>src/fs/virtual_dir.rs\<close>: the two-way map between inode numbers and
  relative paths, the reserved inode range of the virtual \<open>.dibs\<close> directory and its names.
\<close>

section \<open>The table\<close>

definition SYNTHETIC_INODE_BASE :: u64 where
  "SYNTHETIC_INODE_BASE = - 1 - 1000"

definition DIBS_DIR_INO :: u64 where
  "DIBS_DIR_INO = SYNTHETIC_INODE_BASE"

definition DIBS_STATUS_INO :: u64 where
  "DIBS_STATUS_INO = SYNTHETIC_INODE_BASE + 1"

definition DIBS_LOCKS_INO :: u64 where
  "DIBS_LOCKS_INO = SYNTHETIC_INODE_BASE + 2"

definition DIBS_CONFLICTS_DIR_INO :: u64 where
  "DIBS_CONFLICTS_DIR_INO = SYNTHETIC_INODE_BASE + 3"

lemmas synthetic_inos = SYNTHETIC_INODE_BASE_def DIBS_DIR_INO_def DIBS_STATUS_INO_def
  DIBS_LOCKS_INO_def DIBS_CONFLICTS_DIR_INO_def

definition DIBS_DIR_NAME :: string where
  "DIBS_DIR_NAME = ''.dibs''"

definition DIBS_STATUS_NAME :: string where
  "DIBS_STATUS_NAME = ''status''"

definition DIBS_LOCKS_NAME :: string where
  "DIBS_LOCKS_NAME = ''locks''"

definition DIBS_CONFLICTS_NAME :: string where
  "DIBS_CONFLICTS_NAME = ''conflicts''"

record InodeTable =
  ino_to_path :: "(u64, path) DashMap"
  path_to_ino :: "(path, u64) DashMap"
  next_synthetic :: u64

definition InodeTable_new :: InodeTable where
  "InodeTable_new = \<lparr>ino_to_path = dm_new, path_to_ino = dm_new,
     next_synthetic = DIBS_CONFLICTS_DIR_INO + 1\<rparr>"

definition inode_insert :: "u64 \<Rightarrow> path \<Rightarrow> InodeTable \<Rightarrow> InodeTable" where
  "inode_insert ino path t =
     (let t1 = (case dm_get (ino_to_path t) ino of
            Some old_path \<Rightarrow> t\<lparr>ino_to_path := dm_remove ino (ino_to_path t),
                              path_to_ino := dm_remove old_path (path_to_ino t)\<rparr>
          | None \<Rightarrow> t);
          t2 = (case dm_get (path_to_ino t1) path of
            Some old_ino \<Rightarrow>
              let t' = t1\<lparr>path_to_ino := dm_remove path (path_to_ino t1)\<rparr> in
              if old_ino \<noteq> ino then t'\<lparr>ino_to_path := dm_remove old_ino (ino_to_path t')\<rparr> else t'
          | None \<Rightarrow> t1)
      in t2\<lparr>ino_to_path := dm_insert ino path (ino_to_path t2),
            path_to_ino := dm_insert path ino (path_to_ino t2)\<rparr>)"

definition get_path :: "InodeTable \<Rightarrow> u64 \<Rightarrow> path option" where
  "get_path t ino = dm_get (ino_to_path t) ino"

definition get_ino :: "InodeTable \<Rightarrow> path \<Rightarrow> u64 option" where
  "get_ino t path = dm_get (path_to_ino t) path"

definition remove_by_ino :: "u64 \<Rightarrow> InodeTable \<Rightarrow> InodeTable" where
  "remove_by_ino ino t = (case dm_get (ino_to_path t) ino of
       Some path \<Rightarrow> t\<lparr>ino_to_path := dm_remove ino (ino_to_path t),
                     path_to_ino := dm_remove path (path_to_ino t)\<rparr>
     | None \<Rightarrow> t)"

definition remove_by_path :: "path \<Rightarrow> InodeTable \<Rightarrow> InodeTable" where
  "remove_by_path path t = (case dm_get (path_to_ino t) path of
       Some ino \<Rightarrow> t\<lparr>path_to_ino := dm_remove path (path_to_ino t),
                    ino_to_path := dm_remove ino (ino_to_path t)\<rparr>
     | None \<Rightarrow> t)"

definition inode_rename :: "path \<Rightarrow> path \<Rightarrow> InodeTable \<Rightarrow> InodeTable" where
  "inode_rename old_path new_path t = (case dm_get (path_to_ino t) old_path of
       Some ino \<Rightarrow>
         t\<lparr>ino_to_path := dm_insert ino new_path (ino_to_path t),
           path_to_ino := dm_insert new_path ino (dm_remove old_path (path_to_ino t))\<rparr>
     | None \<Rightarrow> t)"

definition alloc_synthetic :: "InodeTable \<Rightarrow> u64 \<times> InodeTable" where
  "alloc_synthetic t = (next_synthetic t, t\<lparr>next_synthetic := next_synthetic t + 1\<rparr>)"

definition is_synthetic :: "u64 \<Rightarrow> bool" where
  "is_synthetic ino \<longleftrightarrow> SYNTHETIC_INODE_BASE \<le> ino"

text \<open>The operations as data, to speak about sequences of them.\<close>

datatype inode_op = Insert u64 path | RemoveByIno u64 | RemoveByPath path | Rename path path

fun inode_step :: "inode_op \<Rightarrow> InodeTable \<Rightarrow> InodeTable" where
  "inode_step (Insert i p) t = inode_insert i p t"
| "inode_step (RemoveByIno i) t = remove_by_ino i t"
| "inode_step (RemoveByPath p) t = remove_by_path p t"
| "inode_step (Rename p q) t = inode_rename p q t"

section \<open>Invariants\<close>

text \<open>Every path the table resolves leads to an inode that leads back to it.\<close>

definition inodes_consistent :: "InodeTable \<Rightarrow> bool" where
  "inodes_consistent t \<longleftrightarrow> (\<forall>p i. get_ino t p = Some i \<longrightarrow> get_path t i = Some p)"

text \<open>The two maps are inverse to each other.\<close>

definition inodes_bij :: "InodeTable \<Rightarrow> bool" where
  "inodes_bij t \<longleftrightarrow> (\<forall>p i. get_ino t p = Some i \<longleftrightarrow> get_path t i = Some p)"

lemma bij_consistent: "inodes_bij t \<Longrightarrow> inodes_consistent t"
  by (simp add: inodes_bij_def inodes_consistent_def)

lemma consistentD: "inodes_consistent t \<Longrightarrow> get_ino t p = Some i \<Longrightarrow> get_path t i = Some p"
  by (simp add: inodes_consistent_def)

lemma consistentI:
  "(\<And>p i. get_ino t p = Some i \<Longrightarrow> get_path t i = Some p) \<Longrightarrow> inodes_consistent t"
  by (simp add: inodes_consistent_def)

text \<open>Two paths of the index never share an inode.\<close>

lemma consistent_inj:
  "inodes_consistent t \<Longrightarrow> get_ino t p = Some i \<Longrightarrow> get_ino t q = Some i \<Longrightarrow> p = q"
  by (metis consistentD option.inject)

lemma bijD: "inodes_bij t \<Longrightarrow> get_ino t p = Some i \<longleftrightarrow> get_path t i = Some p"
  by (simp add: inodes_bij_def)

lemma bijI: "(\<And>p i. get_ino t p = Some i \<longleftrightarrow> get_path t i = Some p) \<Longrightarrow> inodes_bij t"
  by (simp add: inodes_bij_def)

lemma bij_inj: "inodes_bij t \<Longrightarrow> get_path t i = Some p \<Longrightarrow> get_path t j = Some p \<Longrightarrow> i = j"
  by (metis bijD option.inject)

lemma bij_untracked: "inodes_bij t \<Longrightarrow> get_ino t p = None \<Longrightarrow> get_path t i \<noteq> Some p"
  by (metis bijD option.distinct(1))

lemma new_bij: "inodes_bij InodeTable_new"
  by (simp add: inodes_bij_def InodeTable_new_def get_path_def get_ino_def)

lemmas inode_ops_defs = inode_insert_def get_path_def get_ino_def remove_by_ino_def
  remove_by_path_def inode_rename_def Let_def

section \<open>What lookups return after each operation\<close>

lemma get_path_insert:
  "get_path (inode_insert i p t) j =
     (if j = i then Some p
      else if get_ino t p = Some j \<and> get_path t i \<noteq> Some p then None else get_path t j)"
  by (auto simp: inode_ops_defs dm_get_insert split: option.splits)

lemma get_ino_insert:
  "get_ino (inode_insert i p t) q =
     (if q = p then Some i else if get_path t i = Some q then None else get_ino t q)"
  by (auto simp: inode_ops_defs dm_get_insert split: option.splits)

lemma get_path_remove_by_ino:
  "get_path (remove_by_ino i t) j = (if j = i then None else get_path t j)"
  by (auto simp: inode_ops_defs split: option.splits)

lemma get_ino_remove_by_ino:
  "get_ino (remove_by_ino i t) q = (if get_path t i = Some q then None else get_ino t q)"
  by (auto simp: inode_ops_defs split: option.splits)

lemma get_path_remove_by_path:
  "get_path (remove_by_path p t) j = (if get_ino t p = Some j then None else get_path t j)"
  by (auto simp: inode_ops_defs split: option.splits)

lemma get_ino_remove_by_path:
  "get_ino (remove_by_path p t) q = (if q = p then None else get_ino t q)"
  by (auto simp: inode_ops_defs split: option.splits)

lemma get_path_rename:
  "get_path (inode_rename p q t) j = (if get_ino t p = Some j then Some q else get_path t j)"
  by (auto simp: inode_ops_defs dm_get_insert split: option.splits)

lemma get_ino_rename:
  "get_ino (inode_rename p q t) r =
     (if get_ino t p = None then get_ino t r
      else if r = q then get_ino t p else if r = p then None else get_ino t r)"
  by (auto simp: inode_ops_defs dm_get_insert split: option.splits)

lemmas inode_lookups = get_path_insert get_ino_insert get_path_remove_by_ino
  get_ino_remove_by_ino get_path_remove_by_path get_ino_remove_by_path
  get_path_rename get_ino_rename

section \<open>Preservation\<close>

lemma insert_consistent [dibs_inv]: "inodes_consistent t \<Longrightarrow> inodes_consistent (inode_insert i p t)"
  by (rule consistentI)
     (auto simp: inode_lookups dest: consistentD consistent_inj split: if_splits)

lemma remove_by_ino_consistent [dibs_inv]:
  "inodes_consistent t \<Longrightarrow> inodes_consistent (remove_by_ino i t)"
  by (rule consistentI)
     (auto simp: inode_lookups dest: consistentD consistent_inj split: if_splits)

lemma remove_by_path_consistent [dibs_inv]:
  "inodes_consistent t \<Longrightarrow> inodes_consistent (remove_by_path p t)"
  by (rule consistentI)
     (auto simp: inode_lookups dest: consistentD consistent_inj split: if_splits)

lemma rename_consistent [dibs_inv]:
  "inodes_consistent t \<Longrightarrow> inodes_consistent (inode_rename p q t)"
  by (rule consistentI)
     (auto simp: inode_lookups dest: consistentD consistent_inj split: if_splits)

interpretation inodes: invariant_component inode_step "\<lambda>_ _. True" inodes_consistent
proof
  fix t op
  assume "inodes_consistent t"
  then show "inodes_consistent (inode_step op t)"
    by (cases op) (simp_all add: dibs_inv)
qed

lemma insert_bij: "inodes_bij t \<Longrightarrow> inodes_bij (inode_insert i p t)"
  by (rule bijI) (auto simp: inode_lookups bijD dest: bij_inj bij_untracked)

lemma remove_by_ino_bij: "inodes_bij t \<Longrightarrow> inodes_bij (remove_by_ino i t)"
  by (rule bijI) (auto simp: inode_lookups bijD dest: bij_inj bij_untracked)

lemma remove_by_path_bij: "inodes_bij t \<Longrightarrow> inodes_bij (remove_by_path p t)"
  by (rule bijI) (auto simp: inode_lookups bijD dest: bij_inj bij_untracked)

text \<open>A rename keeps the two maps inverse exactly when it moves nothing, moves a path onto
  itself, or moves it to a path that is not tracked.\<close>

definition rename_target_free :: "InodeTable \<Rightarrow> inode_op \<Rightarrow> bool" where
  "rename_target_free t op = (case op of
       Rename p q \<Rightarrow> get_ino t p = None \<or> get_ino t q = None \<or> p = q
     | _ \<Rightarrow> True)"

lemma rename_bij:
  "inodes_bij t \<Longrightarrow> get_ino t p = None \<or> get_ino t q = None \<or> p = q \<Longrightarrow>
   inodes_bij (inode_rename p q t)"
  by (rule bijI) (auto simp: inode_lookups bijD dest: bij_inj bij_untracked)

interpretation inodes_inverse: invariant_component inode_step rename_target_free inodes_bij
proof
  fix t op
  assume "inodes_bij t" and "rename_target_free t op"
  then show "inodes_bij (inode_step op t)"
    by (cases op) (simp_all add: insert_bij remove_by_ino_bij remove_by_path_bij
        rename_bij rename_target_free_def)
qed

section \<open>The interface the handlers rely on\<close>

locale path_index =
  fixes insert :: "u64 \<Rightarrow> path \<Rightarrow> 't \<Rightarrow> 't"
    and path_of :: "'t \<Rightarrow> u64 \<Rightarrow> path option"
    and ino_of :: "'t \<Rightarrow> path \<Rightarrow> u64 option"
    and invar :: "'t \<Rightarrow> bool"
  assumes path_of_insert_same: "path_of (insert i p t) i = Some p"
    and ino_of_insert_same: "ino_of (insert i p t) p = Some i"
    and path_of_insert_other: "invar t \<Longrightarrow> j \<noteq> i \<Longrightarrow> path_of t j \<noteq> Some p \<Longrightarrow>
      path_of (insert i p t) j = path_of t j"
    and invar_insert: "invar t \<Longrightarrow> invar (insert i p t)"
begin

text \<open>Registering the entries of a directory listing: every inode of the listing then
  resolves to its path.\<close>

lemma path_of_fold_insert_other:
  "invar t \<Longrightarrow> j \<notin> fst ` set es \<Longrightarrow> path_of t j = Some q \<Longrightarrow> q \<notin> snd ` set es \<Longrightarrow>
   path_of (fold (\<lambda>(i, p). insert i p) es t) j = Some q"
proof (induction es arbitrary: t)
  case Nil
  then show ?case by simp
next
  case (Cons e es)
  obtain i p where e: "e = (i, p)" by (cases e)
  have "path_of (insert i p t) j = Some q"
    using Cons.prems e path_of_insert_other [of t j i p] by auto
  then show ?case
    using Cons.IH [of "insert i p t"] Cons.prems e invar_insert by auto
qed

lemma path_of_fold_insert:
  "invar t \<Longrightarrow> distinct (map fst es) \<Longrightarrow> distinct (map snd es) \<Longrightarrow> (i, p) \<in> set es \<Longrightarrow>
   path_of (fold (\<lambda>(i, p). insert i p) es t) i = Some p"
proof (induction es arbitrary: t)
  case Nil
  then show ?case by simp
next
  case (Cons e es)
  obtain j q where e: "e = (j, q)" by (cases e)
  show ?case
  proof (cases "(i, p) = e")
    case True
    then have "i \<notin> fst ` set es" and "p \<notin> snd ` set es"
      using Cons.prems e by auto
    then show ?thesis
      using True e Cons.prems path_of_fold_insert_other [of "insert i p t" i es p]
      by (simp add: invar_insert path_of_insert_same)
  next
    case False
    then show ?thesis
      using Cons e by (auto simp: invar_insert)
  qed
qed

lemma invar_fold_insert: "invar t \<Longrightarrow> invar (fold (\<lambda>(i, p). insert i p) es t)"
  by (induction es arbitrary: t) (auto simp: invar_insert)

end

interpretation ino_index: path_index inode_insert get_path get_ino inodes_consistent
  by unfold_locales (auto simp: inode_lookups dibs_inv dest: consistentD)


section \<open>Properties\<close>

lemma new_lookups [simp]: "get_path InodeTable_new i = None" "get_ino InodeTable_new p = None"
  by (simp_all add: InodeTable_new_def get_path_def get_ino_def)

lemma always_admissible: "admissible_run step (\<lambda>_ _. True) s ops"
  by (induction ops arbitrary: s) auto

text \<open>
  After any sequence of insertions, removals and renames, every path the table resolves to an
  inode is the path that inode resolves to; so no two paths share an inode.
\<close>

lemma inode_index_consistent:
  "inodes_consistent (fold inode_step ops InodeTable_new)"
  using inodes.run_invar [OF bij_consistent [OF new_bij] always_admissible] .

text \<open>
  C17: As long as nothing is renamed onto a tracked path, the two maps of the table are inverse to
  each other after any sequence of operations: \<open>get_ino\<close> and \<open>get_path\<close> never disagree.
\<close>

theorem inode_maps_inverse:
  assumes "admissible_run inode_step rename_target_free InodeTable_new ops"
  shows "get_ino (fold inode_step ops InodeTable_new) p = Some i \<longleftrightarrow>
         get_path (fold inode_step ops InodeTable_new) i = Some p"
  using inodes_inverse.run_invar [OF new_bij assms] by (rule bijD)

theorem inode_maps_inverse_witness:
  "get_ino (fold inode_step [Insert 5 ''a'', Rename ''a'' ''b'', Insert 6 ''b''] InodeTable_new) ''b'' = Some 6 \<longleftrightarrow>
   get_path (fold inode_step [Insert 5 ''a'', Rename ''a'' ''b'', Insert 6 ''b''] InodeTable_new) 6 = Some ''b''"
  by (rule inode_maps_inverse)
     (simp add: rename_target_free_def inode_lookups new_lookups)

text \<open>
  Inserting a pair makes both lookups find it, drops the pairs it displaces in both directions,
  and leaves every other inode and path alone.
\<close>

lemma insert_displaces_exactly:
  assumes "inodes_bij t"
  shows "get_path (inode_insert i p t) = (\<lambda>j. if j = i then Some p
      else if get_path t j = Some p then None else get_path t j)
    \<and> get_ino (inode_insert i p t) = (\<lambda>q. if q = p then Some i
      else if get_ino t q = Some i then None else get_ino t q)"
  using assms by (auto simp: inode_lookups fun_eq_iff bijD dest: bij_inj)

text \<open>
  A rename onto a tracked path breaks that: the inode of the replaced file still resolves to the
  path, which now belongs to the moved file's inode, so two inodes claim one path.
\<close>

lemma rename_onto_tracked_leaves_stale:
  assumes "inodes_bij t" and "get_ino t p = Some i" and "get_ino t q = Some j" and "p \<noteq> q"
  shows "i \<noteq> j \<and> get_path (inode_rename p q t) i = Some q \<and> get_path (inode_rename p q t) j = Some q
    \<and> get_ino (inode_rename p q t) q = Some i"
  using assms bij_inj bijD by (auto simp: inode_lookups dest: bij_inj)

text \<open>Allocating several synthetic inodes in a row.\<close>

fun alloc_synthetics :: "nat \<Rightarrow> InodeTable \<Rightarrow> u64 list \<times> InodeTable" where
  "alloc_synthetics 0 t = ([], t)"
| "alloc_synthetics (Suc n) t =
     (let (i, t') = alloc_synthetic t; (is, t'') = alloc_synthetics n t' in (i # is, t''))"

lemma alloc_synthetics_ids:
  "fst (alloc_synthetics n t) = map (\<lambda>k. next_synthetic t + of_nat k) [0 ..< n]"
proof (induction n arbitrary: t)
  case 0
  then show ?case by simp
next
  case (Suc n)
  have "map (\<lambda>k. next_synthetic t + of_nat k) [0 ..< Suc n] =
      next_synthetic t # map (\<lambda>k. next_synthetic t + 1 + of_nat k) [0 ..< n]"
    by (simp add: upt_conv_Cons map_Suc_upt [symmetric] o_def add.assoc del: upt_Suc)
  then show ?case
    using Suc by (simp add: alloc_synthetic_def split_beta Let_def)
qed

lemma alloc_synthetics_next:
  "next_synthetic (snd (alloc_synthetics n t)) = next_synthetic t + of_nat n"
  by (induction n arbitrary: t) (simp_all add: alloc_synthetic_def split_beta Let_def add.assoc)

lemma synthetic_offset: "k \<le> 1000 \<Longrightarrow> unat (SYNTHETIC_INODE_BASE + of_nat k) = 2 ^ 64 - 1001 + k"
proof -
  assume k: "k \<le> 1000"
  then have "unat (of_nat k :: u64) = k" by (simp add: unat_of_nat take_bit_nat_eq_self)
  moreover have "unat SYNTHETIC_INODE_BASE = 2 ^ 64 - 1001"
    by (simp add: SYNTHETIC_INODE_BASE_def)
  ultimately show ?thesis using k by (simp add: unat_word_ariths)
qed

text \<open>
  The reserved range holds 997 further synthetic inodes: that many can be allocated, all of them
  different, synthetic and none of the four fixed ones. The next one is inode 0, outside the range.
\<close>

lemma synthetic_inodes_last:
  "let is = fst (alloc_synthetics 997 InodeTable_new) in
     length is = 997 \<and> distinct is \<and> list_all is_synthetic is
     \<and> set is \<inter> {DIBS_DIR_INO, DIBS_STATUS_INO, DIBS_LOCKS_INO, DIBS_CONFLICTS_DIR_INO} = {}
     \<and> fst (alloc_synthetic (snd (alloc_synthetics 997 InodeTable_new))) = 0"
proof -
  let ?is = "fst (alloc_synthetics 997 InodeTable_new)"
  have ids: "?is = map (\<lambda>k. SYNTHETIC_INODE_BASE + of_nat (k + 4)) [0 ..< 997]"
    by (simp add: alloc_synthetics_ids InodeTable_new_def DIBS_CONFLICTS_DIR_INO_def algebra_simps
        del: upt_Suc)
  have un: "map unat ?is = map (\<lambda>k. 2 ^ 64 - 1001 + (k + 4)) [0 ..< 997]"
    unfolding ids by (simp add: synthetic_offset del: of_nat_add upt_Suc)
  then have d: "distinct ?is"
    by (metis (no_types, lifting) distinct_map distinct_upt inj_onI add_left_cancel add_right_cancel)
  have range: "2 ^ 64 - 1001 + 4 \<le> unat i" if "i \<in> set ?is" for i
  proof -
    have "unat i \<in> set (map unat ?is)" using that by simp
    then show ?thesis unfolding un by auto
  qed
  have fixed: "unat DIBS_DIR_INO = 2 ^ 64 - 1001" "unat DIBS_STATUS_INO = 2 ^ 64 - 1000"
    "unat DIBS_LOCKS_INO = 2 ^ 64 - 999" "unat DIBS_CONFLICTS_DIR_INO = 2 ^ 64 - 998"
    by (simp_all add: synthetic_inos)
  have "list_all is_synthetic ?is"
    using range fixed(1)
    by (force simp: list_all_iff is_synthetic_def word_le_nat_alt DIBS_DIR_INO_def)
  moreover have "set ?is \<inter> {DIBS_DIR_INO, DIBS_STATUS_INO, DIBS_LOCKS_INO, DIBS_CONFLICTS_DIR_INO} = {}"
    using range fixed by fastforce
  moreover have "fst (alloc_synthetic (snd (alloc_synthetics 997 InodeTable_new))) = 0"
    by (simp add: alloc_synthetic_def alloc_synthetics_next InodeTable_new_def synthetic_inos)
  moreover have "length ?is = 997" unfolding ids by simp
  ultimately show ?thesis using d by (simp add: Let_def)
qed

end
