(* ===== verification/Handles.thy ===== *)
theory Handles
  imports Paths
begin

text \<open>
  \<open>src/fs/handles.rs\<close>: the tables of open files and of open directories.
\<close>

section \<open>File handles\<close>

record HandleState =
  h_fh :: fh
  h_real_fd :: int
  h_path :: path
  hash_at_open :: "hash option"
  h_flags :: i32
  has_written :: bool
  h_sid :: sid

record OpenFileInfo =
  of_path :: path
  of_sid :: sid
  of_flags :: i32

record HandleTable =
  handles :: "(fh, HandleState) DashMap"
  next_fh :: u64

definition HandleTable_new :: HandleTable where
  "HandleTable_new = \<lparr>handles = dm_new, next_fh = 1\<rparr>"

definition h_alloc :: "int \<Rightarrow> path \<Rightarrow> i32 \<Rightarrow> hash option \<Rightarrow> sid \<Rightarrow> HandleTable \<Rightarrow> fh \<times> HandleTable" where
  "h_alloc real_fd path flags hash sid t =
     (let fh = next_fh t;
          state = \<lparr>h_fh = fh, h_real_fd = real_fd, h_path = path, hash_at_open = hash,
                   h_flags = flags, has_written = False, h_sid = sid\<rparr>
      in (fh, t\<lparr>handles := dm_insert fh state (handles t), next_fh := next_fh t + 1\<rparr>))"

definition h_get :: "HandleTable \<Rightarrow> fh \<Rightarrow> HandleState option" where
  "h_get t fh = dm_get (handles t) fh"

text \<open>\<open>get_mut\<close> followed by an update through the guard.\<close>

definition h_modify :: "fh \<Rightarrow> (HandleState \<Rightarrow> HandleState) \<Rightarrow> HandleTable \<Rightarrow> HandleTable" where
  "h_modify fh f t = (case dm_get (handles t) fh of
       Some h \<Rightarrow> t\<lparr>handles := dm_insert fh (f h) (handles t)\<rparr>
     | None \<Rightarrow> t)"

definition h_remove :: "fh \<Rightarrow> HandleTable \<Rightarrow> HandleState option \<times> HandleTable" where
  "h_remove fh t = (dm_get (handles t) fh, t\<lparr>handles := dm_remove fh (handles t)\<rparr>)"

definition h_count :: "HandleTable \<Rightarrow> nat" where
  "h_count t = dm_len (handles t)"

definition list_open :: "HandleTable \<Rightarrow> OpenFileInfo list" where
  "list_open t =
     map (\<lambda>(_, h). \<lparr>of_path = h_path h, of_sid = h_sid h, of_flags = h_flags h\<rparr>)
       (filter (\<lambda>(_, h). 0 \<le> h_real_fd h \<and> \<not> starts_with (h_path h) ''.dibs'')
         (dm_iter (handles t)))"

section \<open>Directory handles\<close>

record DirHandleState =
  dh_fh :: fh
  dh_real_fd :: int
  dh_path :: path

record DirHandleTable =
  dhandles :: "(fh, DirHandleState) DashMap"
  dnext_fh :: u64

definition DirHandleTable_new :: DirHandleTable where
  "DirHandleTable_new = \<lparr>dhandles = dm_new, dnext_fh = 1\<rparr>"

definition dh_alloc :: "int \<Rightarrow> path \<Rightarrow> DirHandleTable \<Rightarrow> fh \<times> DirHandleTable" where
  "dh_alloc real_fd path t =
     (let fh = dnext_fh t
      in (fh, t\<lparr>dhandles := dm_insert fh \<lparr>dh_fh = fh, dh_real_fd = real_fd, dh_path = path\<rparr>
                 (dhandles t), dnext_fh := dnext_fh t + 1\<rparr>))"

definition dh_get :: "DirHandleTable \<Rightarrow> fh \<Rightarrow> DirHandleState option" where
  "dh_get t fh = dm_get (dhandles t) fh"

definition dh_remove :: "fh \<Rightarrow> DirHandleTable \<Rightarrow> DirHandleState option \<times> DirHandleTable" where
  "dh_remove fh t = (dm_get (dhandles t) fh, t\<lparr>dhandles := dm_remove fh (dhandles t)\<rparr>)"

section \<open>Invariants\<close>

text \<open>Every live handle carries its own number, is not number 0 and was issued by the
  counter.\<close>

definition handles_ok :: "HandleTable \<Rightarrow> bool" where
  "handles_ok t \<longleftrightarrow> 0 < next_fh t \<and>
     (\<forall>k h. h_get t k = Some h \<longrightarrow> h_fh h = k \<and> 0 < k \<and> k < next_fh t)"

definition dir_handles_ok :: "DirHandleTable \<Rightarrow> bool" where
  "dir_handles_ok t \<longleftrightarrow> 0 < dnext_fh t \<and>
     (\<forall>k h. dh_get t k = Some h \<longrightarrow> dh_fh h = k \<and> 0 < k \<and> k < dnext_fh t)"

lemma less_succ_self: "(n :: u64) \<noteq> - 1 \<Longrightarrow> n < n + 1"
  by (simp add: word_less_nat_alt unat_succ)

lemma h_get_alloc:
  "h_get (snd (h_alloc fd p fl ha s t)) k =
     (if k = next_fh t then Some \<lparr>h_fh = k, h_real_fd = fd, h_path = p, hash_at_open = ha,
        h_flags = fl, has_written = False, h_sid = s\<rparr> else h_get t k)"
  by (simp add: h_alloc_def h_get_def Let_def DAList.lookup_update)

lemma h_alloc_id [simp]: "fst (h_alloc fd p fl ha s t) = next_fh t"
  by (simp add: h_alloc_def Let_def)

lemma h_alloc_next [simp]: "next_fh (snd (h_alloc fd p fl ha s t)) = next_fh t + 1"
  by (simp add: h_alloc_def Let_def)

lemma h_get_remove: "h_get (snd (h_remove k t)) j = (if j = k then None else h_get t j)"
  by (simp add: h_remove_def h_get_def)

lemma h_remove_next [simp]: "next_fh (snd (h_remove k t)) = next_fh t"
  by (simp add: h_remove_def)

lemma h_remove_result [simp]: "fst (h_remove k t) = h_get t k"
  by (simp add: h_remove_def h_get_def)

lemma h_get_modify: "h_get (h_modify k f t) j = (if j = k then map_option f (h_get t k) else h_get t j)"
  by (auto simp: h_modify_def h_get_def DAList.lookup_update split: option.splits)

lemma h_modify_next [simp]: "next_fh (h_modify k f t) = next_fh t"
  by (simp add: h_modify_def split: option.splits)

lemma h_new_get [simp]: "h_get HandleTable_new k = None"
  by (simp add: HandleTable_new_def h_get_def)

lemmas handle_lookups = h_get_alloc h_get_remove h_get_modify

lemma h_new_ok: "handles_ok HandleTable_new"
  by (simp add: handles_ok_def HandleTable_new_def h_get_def)

lemma h_alloc_ok [dibs_inv]:
  "handles_ok t \<Longrightarrow> next_fh t \<noteq> - 1 \<Longrightarrow> handles_ok (snd (h_alloc fd p fl ha s t))"
  unfolding handles_ok_def
  by (auto simp: handle_lookups less_succ_self succ_less)

lemma h_remove_ok [dibs_inv]: "handles_ok t \<Longrightarrow> handles_ok (snd (h_remove k t))"
  by (simp add: handles_ok_def handle_lookups)

lemma h_modify_ok [dibs_inv]:
  "handles_ok t \<Longrightarrow> (\<And>h. h_fh (f h) = h_fh h) \<Longrightarrow> handles_ok (h_modify k f t)"
  by (auto simp: handles_ok_def handle_lookups)

lemma dh_get_alloc:
  "dh_get (snd (dh_alloc fd p t)) k =
     (if k = dnext_fh t then Some \<lparr>dh_fh = k, dh_real_fd = fd, dh_path = p\<rparr> else dh_get t k)"
  by (simp add: dh_alloc_def dh_get_def Let_def DAList.lookup_update)

lemma dh_alloc_ids [simp]:
  "fst (dh_alloc fd p t) = dnext_fh t" "dnext_fh (snd (dh_alloc fd p t)) = dnext_fh t + 1"
  by (simp_all add: dh_alloc_def Let_def)

lemma dh_get_remove: "dh_get (snd (dh_remove k t)) j = (if j = k then None else dh_get t j)"
  by (simp add: dh_remove_def dh_get_def)

lemma dh_remove_ids [simp]:
  "dnext_fh (snd (dh_remove k t)) = dnext_fh t" "fst (dh_remove k t) = dh_get t k"
  by (simp_all add: dh_remove_def dh_get_def)

lemma dh_new_ok: "dir_handles_ok DirHandleTable_new"
  by (simp add: dir_handles_ok_def DirHandleTable_new_def dh_get_def)

lemma dh_alloc_ok [dibs_inv]:
  "dir_handles_ok t \<Longrightarrow> dnext_fh t \<noteq> - 1 \<Longrightarrow> dir_handles_ok (snd (dh_alloc fd p t))"
  unfolding dir_handles_ok_def
  by (auto simp: dh_get_alloc less_succ_self succ_less)

lemma dh_remove_ok [dibs_inv]: "dir_handles_ok t \<Longrightarrow> dir_handles_ok (snd (dh_remove k t))"
  by (simp add: dir_handles_ok_def dh_get_remove)

section \<open>Both tables implement the handle-table interface\<close>

interpretation file_table: fh_table
  "\<lambda>(fd, p, fl, ha, s). h_alloc fd p fl ha s" h_get h_remove next_fh handles_ok
  by unfold_locales
     (auto simp: handle_lookups handles_ok_def less_succ_self succ_less split: prod.splits)

interpretation dir_table: fh_table
  "\<lambda>(fd, p). dh_alloc fd p" dh_get dh_remove dnext_fh dir_handles_ok
  by unfold_locales
     (auto simp: dh_get_alloc dh_get_remove dir_handles_ok_def less_succ_self succ_less
       split: prod.splits)


section \<open>Properties\<close>

text \<open>
  C18: Handle numbers identify open files. Of a table that issued fewer than \<open>2 ^ 64\<close> numbers, the next
  allocations get consecutive numbers, all different and different from every open handle; and the
  number of a handle that was closed is not issued again.
\<close>

theorem handle_numbers_unique:
  assumes "handles_ok t" and "unat (next_fh t) + length as < 2 ^ 64"
  shows "map unat (fst (alloc_seq (\<lambda>(fd, p, fl, ha, s). h_alloc fd p fl ha s) as t)) =
      [unat (next_fh t) ..< unat (next_fh t) + length as]
    \<and> (\<forall>k. h_get t k = None \<or> k \<notin> set (fst (alloc_seq (\<lambda>(fd, p, fl, ha, s). h_alloc fd p fl ha s) as
        (snd (h_remove k t)))))"
  using file_table.alloc_seq_ids [OF assms(2)] file_table.closed_not_reissued [OF assms(1) _ assms(2)]
  by blast

theorem handle_numbers_unique_witness:
  "map unat (fst (alloc_seq (\<lambda>(fd, p, fl, ha, s). h_alloc fd p fl ha s)
     [(3, ''f'', 0, None, 10), (4, ''g'', 1, None, 11)] HandleTable_new)) = [1, 2]"
  using handle_numbers_unique [OF h_new_ok, of "[(3, ''f'', 0, None, 10), (4, ''g'', 1, None, 11)]"]
  by (simp add: HandleTable_new_def)

text \<open>
  The life of a handle: after \<open>alloc\<close> the number it returned leads to exactly the state that was
  passed in, not yet written; \<open>remove\<close> hands that state back once, after which the number leads
  nowhere; and all other handles are untouched throughout.
\<close>

lemma handle_life:
  assumes "handles_ok t"
  shows "let (k, t1) = h_alloc fd p fl ha s t; (r, t2) = h_remove k t1; (r', t3) = h_remove k t2 in
    h_get t1 = (h_get t)(k \<mapsto> \<lparr>h_fh = k, h_real_fd = fd, h_path = p, hash_at_open = ha,
        h_flags = fl, has_written = False, h_sid = s\<rparr>)
    \<and> r = h_get t1 k \<and> r' = None \<and> h_get t2 = h_get t \<and> h_get t3 = h_get t"
proof -
  have "h_get t (next_fh t) = None"
    using file_table.alloc_fresh [OF assms, of "(0, [], 0, None, 0)"] by simp
  then show ?thesis
    by (auto simp: split_beta Let_def handle_lookups fun_eq_iff)
qed

text \<open>
  The files named when a busy mount is left are the open ones: \<open>list_open\<close> has one line for each
  handle with a real descriptor outside the virtual directory, no other, and never more lines than
  \<open>count\<close> handles.
\<close>

lemma list_open_exact:
  "set (list_open t) = {\<lparr>of_path = h_path h, of_sid = h_sid h, of_flags = h_flags h\<rparr> | h k.
      h_get t k = Some h \<and> 0 \<le> h_real_fd h \<and> \<not> starts_with (h_path h) ''.dibs''}
    \<and> length (list_open t) = card {k. \<exists>h. h_get t k = Some h \<and> 0 \<le> h_real_fd h
      \<and> \<not> starts_with (h_path h) ''.dibs''}
    \<and> length (list_open t) \<le> h_count t"
proof (intro conjI)
  show "set (list_open t) = {\<lparr>of_path = h_path h, of_sid = h_sid h, of_flags = h_flags h\<rparr> | h k.
      h_get t k = Some h \<and> 0 \<le> h_real_fd h \<and> \<not> starts_with (h_path h) ''.dibs''}"
    by (force simp: list_open_def h_get_def dm_iter_iff image_iff)
  show "length (list_open t) = card {k. \<exists>h. h_get t k = Some h \<and> 0 \<le> h_real_fd h
      \<and> \<not> starts_with (h_path h) ''.dibs''}"
    by (simp add: list_open_def h_get_def dm_count_filter)
  show "length (list_open t) \<le> h_count t"
    by (simp add: list_open_def h_count_def)
qed

text \<open>
  Directory handles have the same guarantee as file handles: consecutive numbers, and none is
  reused.
\<close>

lemma dir_handle_numbers_unique:
  assumes "dir_handles_ok t" and "unat (dnext_fh t) + length as < 2 ^ 64"
  shows "map unat (fst (alloc_seq (\<lambda>(fd, p). dh_alloc fd p) as t)) =
      [unat (dnext_fh t) ..< unat (dnext_fh t) + length as]
    \<and> (\<forall>k. dh_get t k = None \<or>
        k \<notin> set (fst (alloc_seq (\<lambda>(fd, p). dh_alloc fd p) as (snd (dh_remove k t)))))"
  using dir_table.alloc_seq_ids [OF assms(2)] dir_table.closed_not_reissued [OF assms(1) _ assms(2)]
  by blast

end
