(* ===== verification/Os_Interface.thy ===== *)
theory Os_Interface
  imports Paths
begin

text \<open>
  What the program calls outside its own sources: the C library, the file-system functions of
  the Rust standard library, the clock and the hash crates. Each call is a field of the record
  \<open>os\<close>, a parameter of every definition that uses it. Calls that only observe are functions of
  the world \<open>'w\<close>; calls with an effect return the new world. A \<open>-1\<close> return together with
  \<open>last_os_error()\<close> is \<open>Inl\<close> (or \<open>Some\<close> for calls that return only a status).
\<close>

unbundle bit_operations_syntax

section \<open>Errors\<close>

datatype io_error = OsError int | InvalidInput string

text \<open>\<open>fuser::Errno\<close>: the codes the handlers name, and \<open>Errno n\<close> for a code that \<open>Errno::from\<close>
  passes on from an \<open>io::Error\<close>. The two are kept apart even where the numbers agree, so that a reply
  shows which branch sent it.\<close>

datatype errno = EACCES | EBADF | EINVAL | EIO | ENOENT | ENOTSUP | Errno int

section \<open>Constants of the platform\<close>

text \<open>The sources use \<open>chflags\<close>, \<open>st_flags\<close> and \<open>st_birthtime\<close>, so the values are those of macOS.\<close>

definition O_RDONLY :: i32 where "O_RDONLY = 0"
definition O_WRONLY :: i32 where "O_WRONLY = 1"
definition O_RDWR :: i32 where "O_RDWR = 2"
definition O_ACCMODE :: i32 where "O_ACCMODE = 3"
definition O_CREAT :: i32 where "O_CREAT = 0x200"
definition O_TRUNC :: i32 where "O_TRUNC = 0x400"

definition UTIME_NOW :: int where "UTIME_NOW = - 1"
definition UTIME_OMIT :: int where "UTIME_OMIT = - 2"

definition S_IFMT :: u32 where "S_IFMT = 0xF000"
definition S_IFIFO :: u32 where "S_IFIFO = 0x1000"
definition S_IFCHR :: u32 where "S_IFCHR = 0x2000"
definition S_IFDIR :: u32 where "S_IFDIR = 0x4000"
definition S_IFBLK :: u32 where "S_IFBLK = 0x6000"
definition S_IFREG :: u32 where "S_IFREG = 0x8000"
definition S_IFLNK :: u32 where "S_IFLNK = 0xA000"
definition S_IFSOCK :: u32 where "S_IFSOCK = 0xC000"

lemmas open_flag_defs = O_RDONLY_def O_WRONLY_def O_RDWR_def O_ACCMODE_def O_CREAT_def O_TRUNC_def

lemmas mode_defs = S_IFMT_def S_IFIFO_def S_IFCHR_def S_IFDIR_def S_IFBLK_def S_IFREG_def
  S_IFLNK_def S_IFSOCK_def

section \<open>Data exchanged with the system\<close>

record stat =
  st_ino :: u64
  st_size :: i64
  st_blocks :: i64
  st_atime :: i64
  st_atime_nsec :: i64
  st_mtime :: i64
  st_mtime_nsec :: i64
  st_ctime :: i64
  st_ctime_nsec :: i64
  st_birthtime :: i64
  st_birthtime_nsec :: i64
  st_mode :: u16
  st_nlink :: u16
  st_uid :: u32
  st_gid :: u32
  st_rdev :: i32
  st_blksize :: i32
  st_flags :: u32

record statfs_buf =
  f_blocks :: u64
  f_bfree :: u64
  f_bavail :: u64
  f_files :: u64
  f_ffree :: u64
  f_bsize :: u32

text \<open>A \<open>timespec\<close>; seconds and nanoseconds as signed values.\<close>

record timespec =
  tv_sec :: int
  tv_nsec :: int

text \<open>
  An open \<open>std::fs::File\<close>: for a buffer of the given size, the outcomes of the successive
  \<open>read\<close> calls. A call past the end of the list returns 0 bytes. Short reads and errors in the
  middle of the file are therefore possible outcomes; a file that never ends is not.
\<close>

type_synonym file_obj = "nat \<Rightarrow> (io_error + bytes) list"

record ('w, 's) os =
  sys_getsid :: "i32 \<Rightarrow> 'w \<Rightarrow> i32"
  sys_getuid :: "'w \<Rightarrow> u32"
  sys_getgid :: "'w \<Rightarrow> u32"
  sys_lstat :: "path \<Rightarrow> 'w \<Rightarrow> io_error + stat"
  sys_fstat :: "int \<Rightarrow> 'w \<Rightarrow> io_error + stat"
  sys_access :: "path \<Rightarrow> i32 \<Rightarrow> 'w \<Rightarrow> io_error option"
  sys_statfs :: "path \<Rightarrow> 'w \<Rightarrow> io_error + statfs_buf"
  sys_pread :: "int \<Rightarrow> nat \<Rightarrow> i64 \<Rightarrow> 'w \<Rightarrow> io_error + bytes"
  std_metadata_len :: "path \<Rightarrow> 'w \<Rightarrow> io_error + u64"
  std_file_open :: "path \<Rightarrow> 'w \<Rightarrow> io_error + file_obj"
  std_read_dir :: "path \<Rightarrow> 'w \<Rightarrow> io_error + (io_error + string) list"
  std_read_link :: "path \<Rightarrow> 'w \<Rightarrow> io_error + path"
  std_exists :: "path \<Rightarrow> 'w \<Rightarrow> bool"
  utc_now :: "'w \<Rightarrow> int"
  instant_now :: "'w \<Rightarrow> nat"
  system_time_now :: "'w \<Rightarrow> int"
  sys_open :: "path \<Rightarrow> i32 \<Rightarrow> u32 option \<Rightarrow> 'w \<Rightarrow> (io_error + nat) \<times> 'w"
  sys_close :: "int \<Rightarrow> 'w \<Rightarrow> 'w"
  sys_pwrite :: "int \<Rightarrow> bytes \<Rightarrow> i64 \<Rightarrow> 'w \<Rightarrow> (io_error + nat) \<times> 'w"
  sys_ftruncate :: "int \<Rightarrow> i64 \<Rightarrow> 'w \<Rightarrow> io_error option \<times> 'w"
  sys_truncate :: "path \<Rightarrow> i64 \<Rightarrow> 'w \<Rightarrow> io_error option \<times> 'w"
  sys_chmod :: "path \<Rightarrow> u16 \<Rightarrow> 'w \<Rightarrow> io_error option \<times> 'w"
  sys_chown :: "path \<Rightarrow> u32 \<Rightarrow> u32 \<Rightarrow> 'w \<Rightarrow> io_error option \<times> 'w"
  sys_utimensat :: "path \<Rightarrow> timespec \<Rightarrow> timespec \<Rightarrow> 'w \<Rightarrow> io_error option \<times> 'w"
  sys_chflags :: "path \<Rightarrow> u32 \<Rightarrow> 'w \<Rightarrow> io_error option \<times> 'w"
  sys_mkdir :: "path \<Rightarrow> u16 \<Rightarrow> 'w \<Rightarrow> io_error option \<times> 'w"
  sys_unlink :: "path \<Rightarrow> 'w \<Rightarrow> io_error option \<times> 'w"
  sys_rmdir :: "path \<Rightarrow> 'w \<Rightarrow> io_error option \<times> 'w"
  sys_rename :: "path \<Rightarrow> path \<Rightarrow> 'w \<Rightarrow> io_error option \<times> 'w"
  sys_symlink :: "path \<Rightarrow> path \<Rightarrow> 'w \<Rightarrow> io_error option \<times> 'w"
  sys_opendir :: "path \<Rightarrow> 'w \<Rightarrow> (io_error + nat) \<times> 'w"
  sys_dirfd :: "nat \<Rightarrow> 'w \<Rightarrow> int"
  sys_dup :: "int \<Rightarrow> 'w \<Rightarrow> int \<times> 'w"
  sys_closedir :: "nat \<Rightarrow> 'w \<Rightarrow> 'w"
  std_fs_write :: "path \<Rightarrow> bytes \<Rightarrow> 'w \<Rightarrow> io_error option \<times> 'w"
  std_create_dir_all :: "path \<Rightarrow> 'w \<Rightarrow> io_error option \<times> 'w"
  errno_from :: "io_error \<Rightarrow> errno"
  sha_new :: 's
  sha_update :: "bytes \<Rightarrow> 's \<Rightarrow> 's"
  sha_finalize :: "'s \<Rightarrow> bytes"
  xxh3_128 :: "bytes \<Rightarrow> 128 word"

end
