(* ===== verification/Passthrough.thy ===== *)
theory Passthrough
  imports Os_Interface
begin

text \<open>
  \<open>src/fs/passthrough.rs\<close>: the conversions between the system's \<open>stat\<close> and FUSE's \<open>FileAttr\<close>,
  and the \<open>lstat\<close>/\<open>fstat\<close> wrappers.
\<close>

section \<open>Definitions\<close>

datatype FileType = RegularFile | Directory | Symlink | BlockDevice | CharDevice | NamedPipe | Socket

instantiation FileType :: enum
begin

definition enum_FileType :: "FileType list" where
  "enum_FileType = [RegularFile, Directory, Symlink, BlockDevice, CharDevice, NamedPipe, Socket]"

definition enum_all_FileType :: "(FileType \<Rightarrow> bool) \<Rightarrow> bool" where
  "enum_all_FileType P \<longleftrightarrow> list_all P enum_class.enum"

definition enum_ex_FileType :: "(FileType \<Rightarrow> bool) \<Rightarrow> bool" where
  "enum_ex_FileType P \<longleftrightarrow> list_ex P enum_class.enum"

instance
proof
  have all: "k \<in> set enum_class.enum" for k :: FileType
    by (cases k) (simp_all add: enum_FileType_def)
  show "UNIV = set (enum_class.enum :: FileType list)" using all by blast
  show "distinct (enum_class.enum :: FileType list)" by (simp add: enum_FileType_def)
  show "enum_class.enum_all P \<longleftrightarrow> Ball UNIV P" for P :: "FileType \<Rightarrow> bool"
    using all by (auto simp: enum_all_FileType_def list_all_iff)
  show "enum_class.enum_ex P \<longleftrightarrow> Bex UNIV P" for P :: "FileType \<Rightarrow> bool"
    using all by (auto simp: enum_ex_FileType_def list_ex_iff)
qed

end

text \<open>A \<open>SystemTime\<close> is its distance from \<open>UNIX_EPOCH\<close> in nanoseconds.\<close>

type_synonym SystemTime = int

definition UNIX_EPOCH :: SystemTime where
  "UNIX_EPOCH = 0"

record FileAttr =
  fa_ino :: u64
  fa_size :: u64
  fa_blocks :: u64
  fa_atime :: SystemTime
  fa_mtime :: SystemTime
  fa_ctime :: SystemTime
  fa_crtime :: SystemTime
  fa_kind :: FileType
  fa_perm :: u16
  fa_nlink :: u32
  fa_uid :: u32
  fa_gid :: u32
  fa_rdev :: u32
  fa_blksize :: u32
  fa_flags :: u32

text \<open>\<open>Duration::new\<close> carries whole seconds out of the nanoseconds.\<close>

definition duration_new :: "u64 \<Rightarrow> u32 \<Rightarrow> int" where
  "duration_new secs nanos = uint secs * 10 ^ 9 + uint nanos"

definition system_time_from_parts :: "i64 \<Rightarrow> i64 \<Rightarrow> SystemTime" where
  "system_time_from_parts sec nsec =
     (if 0 \<le> sint sec then UNIX_EPOCH + duration_new sec (ucast nsec) else UNIX_EPOCH)"

definition mode_to_filetype :: "u32 \<Rightarrow> FileType" where
  "mode_to_filetype mode = (let fmt = mode AND S_IFMT in
     if fmt = S_IFREG then RegularFile
     else if fmt = S_IFDIR then Directory
     else if fmt = S_IFLNK then Symlink
     else if fmt = S_IFBLK then BlockDevice
     else if fmt = S_IFCHR then CharDevice
     else if fmt = S_IFIFO then NamedPipe
     else if fmt = S_IFSOCK then Socket
     else RegularFile)"

definition stat_to_file_attr :: "stat \<Rightarrow> FileAttr" where
  "stat_to_file_attr st = \<lparr>
     fa_ino = st_ino st,
     fa_size = st_size st,
     fa_blocks = st_blocks st,
     fa_atime = system_time_from_parts (st_atime st) (st_atime_nsec st),
     fa_mtime = system_time_from_parts (st_mtime st) (st_mtime_nsec st),
     fa_ctime = system_time_from_parts (st_ctime st) (st_ctime_nsec st),
     fa_crtime = system_time_from_parts (st_birthtime st) (st_birthtime_nsec st),
     fa_kind = mode_to_filetype (ucast (st_mode st)),
     fa_perm = ucast ((ucast (st_mode st) :: u32) AND 0xFFF),
     fa_nlink = ucast (st_nlink st),
     fa_uid = st_uid st,
     fa_gid = st_gid st,
     fa_rdev = st_rdev st,
     fa_blksize = st_blksize st,
     fa_flags = st_flags st\<rparr>"

definition path_to_cstring :: "path \<Rightarrow> io_error + path" where
  "path_to_cstring p =
     (if CHR 0x00 \<in> set p then Inl (InvalidInput ''path contains null byte'') else Inr p)"

definition lstat :: "('w, 's, 'm) os_scheme \<Rightarrow> path \<Rightarrow> 'w \<Rightarrow> io_error + stat" where
  "lstat os path w = (case path_to_cstring path of
       Inl e \<Rightarrow> Inl e
     | Inr c_path \<Rightarrow> sys_lstat os c_path w)"

definition fstat :: "('w, 's, 'm) os_scheme \<Rightarrow> int \<Rightarrow> 'w \<Rightarrow> io_error + stat" where
  "fstat os fd w = sys_fstat os fd w"

section \<open>Facts\<close>

lemma path_to_cstring_Inr [simp]:
  "path_to_cstring p = Inr q \<longleftrightarrow> q = p \<and> CHR 0x00 \<notin> set p"
  by (auto simp: path_to_cstring_def)

lemma path_to_cstring_cases:
  "(\<exists>e. path_to_cstring p = Inl e) \<and> CHR 0x00 \<in> set p \<or>
   path_to_cstring p = Inr p \<and> CHR 0x00 \<notin> set p"
  by (auto simp: path_to_cstring_def)

lemma attr_ino [simp]: "fa_ino (stat_to_file_attr st) = st_ino st"
  by (simp add: stat_to_file_attr_def)

text \<open>The mode bits FUSE reports split the sixteen bits of \<open>st_mode\<close>: twelve of permission and
  a file type that the other four determine.\<close>

lemma and_mask_u16_u32: "ucast ((ucast (m :: u16) :: u32) AND 0xFFF) = m AND 0xFFF"
  by (rule bit_word_eqI) (auto simp: bit_simps)

definition filetype_to_mode :: "FileType \<Rightarrow> u32" where
  "filetype_to_mode k = (case k of RegularFile \<Rightarrow> S_IFREG | Directory \<Rightarrow> S_IFDIR
     | Symlink \<Rightarrow> S_IFLNK | BlockDevice \<Rightarrow> S_IFBLK | CharDevice \<Rightarrow> S_IFCHR
     | NamedPipe \<Rightarrow> S_IFIFO | Socket \<Rightarrow> S_IFSOCK)"

section \<open>Properties\<close>

text \<open>Statements about all kinds of file are checked by going through them.\<close>

lemma filetype_all: "(\<forall>k. P k) \<longleftrightarrow> list_all P (enum_class.enum :: FileType list)"
  by (simp add: list_all_iff flip: UNIV_enum)

lemma filetype_bits: "filetype_to_mode k AND S_IFMT = filetype_to_mode k"
proof -
  have "\<forall>k. filetype_to_mode k AND S_IFMT = filetype_to_mode k"
    unfolding filetype_all by (simp add: enum_FileType_def filetype_to_mode_def mode_defs)
  then show ?thesis by blast
qed

lemma mode_of_filetype: "mode_to_filetype (filetype_to_mode k OR p) = k" if "p AND S_IFMT = 0"
proof -
  have "(filetype_to_mode k OR p) AND S_IFMT = filetype_to_mode k"
    using that by (simp add: bit.conj_disj_distrib2 filetype_bits)
  then show ?thesis
    by (cases k) (simp_all add: mode_to_filetype_def filetype_to_mode_def mode_defs)
qed

text \<open>
  C23: The attributes handed to the kernel lose nothing of the mode: for a file of any of the seven
  kinds with permission bits \<open>p\<close>, the reported kind is that kind and the reported permissions are
  \<open>p\<close>, set-uid, set-gid and sticky bits included.
\<close>

theorem attr_mode_roundtrip:
  assumes "st_mode st = ucast (filetype_to_mode k) OR p" and "p AND 0xF000 = 0"
  shows "fa_kind (stat_to_file_attr st) = k \<and> fa_perm (stat_to_file_attr st) = p"
proof -
  have lift: "(ucast (st_mode st) :: u32) = filetype_to_mode k OR ucast p"
    using assms(1)
    by (cases k) (simp_all add: filetype_to_mode_def mode_defs unsigned_or_eq)
  have "(ucast p :: u32) AND S_IFMT = ucast (p AND 0xF000)"
    by (simp add: mode_defs unsigned_and_eq)
  then have kind: "fa_kind (stat_to_file_attr st) = k"
    using assms(2) by (simp add: stat_to_file_attr_def lift mode_of_filetype)
  have "st_mode st AND 0xFFF = p AND 0xFFF"
    using assms(1) by (cases k) (simp_all add: filetype_to_mode_def mode_defs bit.conj_disj_distrib2)
  also have "p AND 0xFFF = p"
  proof -
    have all: "(0xF000 OR 0xFFF :: u16) = - 1" by simp
    have "p = p AND (0xF000 OR 0xFFF)" unfolding all by simp
    also have "\<dots> = p AND 0xFFF" using assms(2) by (simp only: bit.conj_disj_distrib) simp
    finally show ?thesis by simp
  qed
  finally show ?thesis
    using kind by (simp add: stat_to_file_attr_def and_mask_u16_u32)
qed

theorem attr_mode_roundtrip_witness:
  "fa_kind (stat_to_file_attr \<lparr>st_ino = 5, st_size = 0, st_blocks = 0,
     st_atime = 0, st_atime_nsec = 0, st_mtime = 0, st_mtime_nsec = 0,
     st_ctime = 0, st_ctime_nsec = 0, st_birthtime = 0, st_birthtime_nsec = 0,
     st_mode = 0x43FF, st_nlink = 2, st_uid = 0, st_gid = 0, st_rdev = 0,
     st_blksize = 4096, st_flags = 0\<rparr>) = Directory"
  using attr_mode_roundtrip [where k = Directory and p = "0x3FF", of "\<lparr>st_ino = 5, st_size = 0, st_blocks = 0,
     st_atime = 0, st_atime_nsec = 0, st_mtime = 0, st_mtime_nsec = 0,
     st_ctime = 0, st_ctime_nsec = 0, st_birthtime = 0, st_birthtime_nsec = 0,
     st_mode = 0x43FF, st_nlink = 2, st_uid = 0, st_gid = 0, st_rdev = 0,
     st_blksize = 4096, st_flags = 0\<rparr>"]
  by (simp add: filetype_to_mode_def mode_defs)

end
