(* ===== verification/Cas.thy ===== *)
theory Cas
  imports Passthrough
begin

text \<open>
  \<open>src/fs/cas.rs\<close>: content hashes of backing files.
\<close>

section \<open>Definitions\<close>

definition HASH_THRESHOLD :: u64 where
  "HASH_THRESHOLD = 10 * 1024 * 1024"

text \<open>The read loop of \<open>hash_sha256\<close>: a read of 0 bytes ends it, an error leaves the function.\<close>

fun sha256_loop :: "('w, 's, 'm) os_scheme \<Rightarrow> 's \<Rightarrow> (io_error + bytes) list \<Rightarrow> io_error + 's" where
  "sha256_loop os hasher [] = Inr hasher"
| "sha256_loop os hasher (Inl e # reads) = Inl e"
| "sha256_loop os hasher (Inr buf # reads) =
     (if buf = [] then Inr hasher else sha256_loop os (sha_update os buf hasher) reads)"

definition hash_sha256 :: "('w, 's, 'm) os_scheme \<Rightarrow> file_obj \<Rightarrow> io_error + hash" where
  "hash_sha256 os file = (case sha256_loop os (sha_new os) (file 8192) of
       Inl e \<Rightarrow> Inl e
     | Inr hasher \<Rightarrow> Inr (sha_finalize os hasher))"

text \<open>The read loop of \<open>hash_xxh3\<close>, which collects the whole file.\<close>

fun xxh3_loop :: "bytes \<Rightarrow> (io_error + bytes) list \<Rightarrow> io_error + bytes" where
  "xxh3_loop whole [] = Inr whole"
| "xxh3_loop whole (Inl e # reads) = Inl e"
| "xxh3_loop whole (Inr buf # reads) =
     (if buf = [] then Inr whole else xxh3_loop (whole @ buf) reads)"

definition to_be_bytes :: "128 word \<Rightarrow> bytes" where
  "to_be_bytes w = map (\<lambda>i. ucast (drop_bit (8 * (15 - i)) w)) [0 ..< 16]"

definition hash_xxh3 :: "('w, 's, 'm) os_scheme \<Rightarrow> file_obj \<Rightarrow> io_error + hash" where
  "hash_xxh3 os file = (case xxh3_loop [] (file 65536) of
       Inl e \<Rightarrow> Inl e
     | Inr whole \<Rightarrow> Inr (to_be_bytes (xxh3_128 os whole)))"

definition hash_file :: "('w, 's, 'm) os_scheme \<Rightarrow> path \<Rightarrow> 'w \<Rightarrow> io_error + hash" where
  "hash_file os path w = (case std_metadata_len os path w of
       Inl e \<Rightarrow> Inl e
     | Inr len \<Rightarrow> (case std_file_open os path w of
         Inl e \<Rightarrow> Inl e
       | Inr file \<Rightarrow> if len \<le> HASH_THRESHOLD then hash_sha256 os file else hash_xxh3 os file))"

definition hex_digit :: "nat \<Rightarrow> char" where
  "hex_digit n = (if n < 10 then char_of (48 + n) else char_of (87 + n))"

definition hash_hex :: "hash \<Rightarrow> string" where
  "hash_hex h = concat (map (\<lambda>b. [hex_digit (unat b div 16), hex_digit (unat b mod 16)]) h)"

section \<open>Reading in chunks\<close>

text \<open>The reference reading: everything up to the end of file or the first error.\<close>

fun read_all :: "(io_error + bytes) list \<Rightarrow> io_error + bytes" where
  "read_all [] = Inr []"
| "read_all (Inl e # reads) = Inl e"
| "read_all (Inr buf # reads) =
     (if buf = [] then Inr [] else case read_all reads of Inl e \<Rightarrow> Inl e | Inr c \<Rightarrow> Inr (buf @ c))"

text \<open>What the SHA-256 crate documents of its streaming interface: the digest depends only on
  the concatenation of the pieces.\<close>

definition sha_streams :: "('w, 's, 'm) os_scheme \<Rightarrow> (bytes \<Rightarrow> hash) \<Rightarrow> bool" where
  "sha_streams os digest \<longleftrightarrow>
     (\<forall>pieces. sha_finalize os (fold (sha_update os) pieces (sha_new os)) = digest (concat pieces))"

lemma xxh3_loop_read_all:
  "xxh3_loop whole reads = (case read_all reads of Inl e \<Rightarrow> Inl e | Inr c \<Rightarrow> Inr (whole @ c))"
  by (induction whole reads rule: xxh3_loop.induct) (auto split: sum.splits)

lemma sha256_loop_pieces:
  "case read_all reads of
     Inl e \<Rightarrow> sha256_loop os h reads = Inl e
   | Inr c \<Rightarrow> \<exists>pieces. concat pieces = c \<and> sha256_loop os h reads = Inr (fold (sha_update os) pieces h)"
proof (induction os h reads rule: sha256_loop.induct)
  case (1 os hasher)
  show ?case by (auto intro: exI [of _ "[]"])
next
  case (2 os hasher e reads)
  show ?case by simp
next
  case (3 os hasher buf reads)
  show ?case
  proof (cases "buf = []")
    case True
    then show ?thesis by (auto intro: exI [of _ "[]"])
  next
    case False
    show ?thesis
    proof (cases "read_all reads")
      case (Inl e)
      with False "3" show ?thesis by simp
    next
      case (Inr c)
      with False "3" obtain ps where "concat ps = c"
        and "sha256_loop os (sha_update os buf hasher) reads =
             Inr (fold (sha_update os) ps (sha_update os buf hasher))"
        by auto
      with False Inr show ?thesis by (auto intro!: exI [of _ "buf # ps"])
    qed
  qed
qed

lemma hash_sha256_read_all:
  assumes "sha_streams os digest"
  shows "hash_sha256 os f = (case read_all (f 8192) of Inl e \<Rightarrow> Inl e | Inr c \<Rightarrow> Inr (digest c))"
  using sha256_loop_pieces [where reads = "f 8192" and os = os and h = "sha_new os"] assms
  by (auto simp: hash_sha256_def sha_streams_def split: sum.splits)

lemma hash_xxh3_read_all:
  "hash_xxh3 os f =
     (case read_all (f 65536) of Inl e \<Rightarrow> Inl e | Inr c \<Rightarrow> Inr (to_be_bytes (xxh3_128 os c)))"
  by (auto simp: hash_xxh3_def xxh3_loop_read_all split: sum.splits)

text \<open>The hash of a file as a function of its contents.\<close>

definition content_hash :: "('w, 's, 'm) os_scheme \<Rightarrow> (bytes \<Rightarrow> hash) \<Rightarrow> bytes \<Rightarrow> hash" where
  "content_hash os digest c =
     (if length c \<le> 10 * 1024 * 1024 then digest c else to_be_bytes (xxh3_128 os c))"

text \<open>The path holds a regular file with contents \<open>c\<close>: its length is the metadata length and the
  reads, in whatever chunks, add up to it.\<close>

definition holds_content :: "('w, 's, 'm) os_scheme \<Rightarrow> path \<Rightarrow> 'w \<Rightarrow> bytes \<Rightarrow> bool" where
  "holds_content os p w c \<longleftrightarrow> length c < 2 ^ 63 \<and>
     std_metadata_len os p w = Inr (of_nat (length c)) \<and>
     (\<exists>f. std_file_open os p w = Inr f \<and> (\<forall>n > 0. read_all (f n) = Inr c))"

lemma length_le_threshold:
  assumes "n < 2 ^ 63"
  shows "(of_nat n :: u64) \<le> HASH_THRESHOLD \<longleftrightarrow> n \<le> 10 * 1024 * 1024"
proof -
  have "unat (of_nat n :: u64) = n"
    using assms by (simp add: unat_of_nat take_bit_nat_eq_self)
  then show ?thesis
    by (simp add: word_le_nat_alt HASH_THRESHOLD_def)
qed

lemma hash_file_content:
  assumes "sha_streams os digest" and "holds_content os p w c"
  shows "hash_file os p w = Inr (content_hash os digest c)"
  using assms(2)
  by (auto simp: hash_file_def holds_content_def content_hash_def length_le_threshold
      hash_sha256_read_all [OF assms(1)] hash_xxh3_read_all)

section \<open>Shape of the digests\<close>

lemma length_to_be_bytes [simp]: "length (to_be_bytes w) = 16"
  by (simp add: to_be_bytes_def)

lemma hash_file_length:
  assumes "sha_streams os digest" and "\<And>c. length (digest c) = 32"
    and "hash_file os p w = Inr h"
  shows "length h = 32 \<or> length h = 16"
  using assms(2,3)
  by (auto simp: hash_file_def hash_sha256_read_all [OF assms(1)] hash_xxh3_read_all
      split: sum.splits if_splits)

section \<open>Hexadecimal rendering\<close>

lemma length_hash_hex: "length (hash_hex h) = 2 * length h"
  by (induction h) (simp_all add: hash_hex_def)

definition hex_value :: "char \<Rightarrow> nat" where
  "hex_value c = (let n = of_char c in if n < 58 then n - 48 else n - 87)"

fun hex_decode :: "string \<Rightarrow> hash" where
  "hex_decode (a # b # cs) = of_nat (16 * hex_value a + hex_value b) # hex_decode cs"
| "hex_decode _ = []"

lemma hex_value_digit: "n < 16 \<Longrightarrow> hex_value (hex_digit n) = n"
  by (simp add: hex_value_def hex_digit_def)

lemma hex_decode_hash_hex: "hex_decode (hash_hex h) = h"
proof (induction h)
  case Nil
  then show ?case by (simp add: hash_hex_def)
next
  case (Cons b h)
  have "unat b < 2 ^ LENGTH(8)" by (rule unsigned_less)
  then have "unat b div 16 < 16" by simp
  moreover have "16 * (unat b div 16) + unat b mod 16 = unat b" by simp
  ultimately show ?case
    using Cons by (simp add: hash_hex_def hex_value_digit)
qed


section \<open>Properties\<close>

text \<open>
  C16: The hash of a file depends on its content only: however the reads are cut into chunks, up to 10
  MiB it is the SHA-256 digest of the whole content, above that the 16 big-endian bytes of its
  XXH3-128 value.
\<close>

theorem hash_depends_on_content:
  assumes "sha_streams os digest" and "holds_content os p w c"
  shows "hash_file os p w = Inr (if length c \<le> 10 * 1024 * 1024 then digest c
    else to_be_bytes (xxh3_128 os c))"
  using hash_file_content [OF assms] by (simp add: content_hash_def)

text \<open>
  A file that grows or shrinks across the 10 MiB threshold always changes its hash, collisions of
  the hash functions notwithstanding, because the two digests differ in length.
\<close>

lemma threshold_crossing_detected:
  assumes "sha_streams os digest" and "\<forall>c. length (digest c) = 32"
    and "holds_content os p w c" and "holds_content os p w' c'"
    and "length c \<le> 10 * 1024 * 1024" and "10 * 1024 * 1024 < length c'"
  shows "hash_file os p w \<noteq> hash_file os p w'"
proof
  assume "hash_file os p w = hash_file os p w'"
  then have "content_hash os digest c = content_hash os digest c'"
    using hash_file_content [OF assms(1,3)] hash_file_content [OF assms(1,4)] by simp
  then have "digest c = to_be_bytes (xxh3_128 os c')"
    using assms(5,6) by (simp add: content_hash_def)
  then have "length (digest c) = 16" by simp
  then show False using assms(2) by simp
qed

text \<open>
  A file is not hashed by halves: if its length cannot be read, if it cannot be opened, or if any
  read before its end fails, the error is returned and no hash.
\<close>

lemma hash_errors_propagate:
  assumes "std_metadata_len os p w = Inl e \<or>
      (\<exists>n. std_metadata_len os p w = Inr n) \<and> std_file_open os p w = Inl e \<or>
      (\<exists>n f. std_metadata_len os p w = Inr n \<and> std_file_open os p w = Inr f \<and>
        read_all (f (if n \<le> HASH_THRESHOLD then 8192 else 65536)) = Inl e)"
  shows "hash_file os p w = Inl e"
proof -
  have "sha256_loop os h reads = Inl e" if "read_all reads = Inl e" for h reads
    using sha256_loop_pieces [where reads = reads and os = os and h = h] that by simp
  then show ?thesis
    using assms by (auto simp: hash_file_def hash_sha256_def hash_xxh3_read_all split: if_splits)
qed

text \<open>
  The hexadecimal form of a hash in the messages determines the hash.
\<close>

lemma hash_hex_roundtrip: "hex_decode (hash_hex h) = h \<and> length (hash_hex h) = 2 * length h"
  by (simp add: hex_decode_hash_hex length_hash_hex)


lemma to_be_bytes_inj:
  assumes "to_be_bytes v = to_be_bytes w"
  shows "v = w"
proof (rule bit_word_eqI)
  fix n
  assume "n < LENGTH(128)"
  then have n: "n < 128" by simp
  have "to_be_bytes v ! (15 - n div 8) = to_be_bytes w ! (15 - n div 8)" using assms by simp
  then have "(ucast (drop_bit (8 * (n div 8)) v) :: u8) = ucast (drop_bit (8 * (n div 8)) w)"
    using n nth_upt [of 0 "15 - n div 8" 16] by (simp add: to_be_bytes_def del: upt_rec_numeral)
  then have "bit (ucast (drop_bit (8 * (n div 8)) v) :: u8) (n mod 8) =
      bit (ucast (drop_bit (8 * (n div 8)) w) :: u8) (n mod 8)" by simp
  then show "bit v n = bit w n"
    using n by (simp add: bit_simps)
qed

lemma content_hash_neq:
  assumes "length c \<le> 10 * 1024 * 1024 \<and> length c' \<le> 10 * 1024 * 1024 \<and> digest c' \<noteq> digest c \<or>
         10 * 1024 * 1024 < length c \<and> 10 * 1024 * 1024 < length c' \<and> xxh3_128 os c' \<noteq> xxh3_128 os c \<or>
         (length c \<le> 10 * 1024 * 1024) \<noteq> (length c' \<le> 10 * 1024 * 1024) \<and> (\<forall>b. length (digest b) = 32)"
  shows "content_hash os digest c' \<noteq> content_hash os digest c"
proof -
  have "to_be_bytes v \<noteq> digest b" "digest b \<noteq> to_be_bytes v" if "length (digest b) = 32" for b v
    using that length_to_be_bytes [of v] by fastforce+
  then show ?thesis
    using assms by (auto simp: content_hash_def dest: to_be_bytes_inj)
qed

end
