(* ===== verification/Hash_Table.thy ===== *)
theory Hash_Table
  imports Handles Cas
begin

text \<open>
  \<open>src/state/hash_table.rs\<close>: the table of reader hashes and write owners that decides every
  conflict, its abstract specification and the proof that it implements it.
\<close>

section \<open>Data\<close>

text \<open>A \<open>DateTime<Utc>\<close> is a point of a discrete time line; a \<open>chrono::Duration\<close> a distance on it.\<close>

type_synonym DateTime = int

record FileState =
  write_owner :: "fh option"
  last_access :: DateTime

record ReaderEntry =
  re_hash :: hash
  re_last_access :: DateTime

record FileStateInfo =
  fi_path :: string
  fi_write_owner :: "fh option"
  fi_last_access :: string

record CasTable =
  entries :: "(path, FileState) DashMap"
  reader_hashes :: "(sid \<times> path, ReaderEntry) DashMap"

text \<open>The three ways \<open>check_and_acquire_write\<close> rejects, and the panic of its \<open>unwrap\<close>.\<close>

datatype cas_error =
    OwnedBy path fh
  | HandleConflict path hash hash
  | ReaderConflict path hash hash
  | UnwrapPanic

fun cas_error_message :: "cas_error \<Rightarrow> string" where
  "cas_error_message (OwnedBy path owner) =
     ''Write ownership conflict on '' @ to_string_lossy path @ '': owned by handle ''
     @ show_nat (unat owner)"
| "cas_error_message (HandleConflict path expected found) =
     ''CAS conflict on '' @ to_string_lossy path @ '': expected '' @ hash_hex expected
     @ '', found '' @ hash_hex found"
| "cas_error_message (ReaderConflict path expected found) =
     ''CAS conflict on '' @ to_string_lossy path @ '': reader hash '' @ hash_hex expected
     @ '', current '' @ hash_hex found"
| "cas_error_message UnwrapPanic = []"

section \<open>Operations\<close>

definition CasTable_new :: CasTable where
  "CasTable_new = \<lparr>entries = dm_new, reader_hashes = dm_new\<rparr>"

definition record_reader :: "path \<Rightarrow> hash \<Rightarrow> sid \<Rightarrow> DateTime \<Rightarrow> CasTable \<Rightarrow> CasTable" where
  "record_reader path hash sid now t =
     t\<lparr>reader_hashes := dm_insert (sid, path) \<lparr>re_hash = hash, re_last_access = now\<rparr>
        (reader_hashes t)\<rparr>"

definition ensure_entry :: "path \<Rightarrow> DateTime \<Rightarrow> CasTable \<Rightarrow> CasTable" where
  "ensure_entry path now t = (case dm_get (entries t) path of
       Some _ \<Rightarrow> t
     | None \<Rightarrow> t\<lparr>entries := dm_insert path \<lparr>write_owner = None, last_access = now\<rparr> (entries t)\<rparr>)"

text \<open>The comparison of the writer's view with the file, on the branch where nobody owns the
  write: a handle with a hash of its own is checked against that, any other handle against the
  hash its session last saw, if there is one.\<close>

definition cas_check :: "path \<Rightarrow> fh \<Rightarrow> sid \<Rightarrow> HandleTable \<Rightarrow> hash \<Rightarrow> CasTable \<Rightarrow> cas_error option" where
  "cas_check path fh sid hs actual_hash t = (case h_get hs fh of
       None \<Rightarrow> None
     | Some handle \<Rightarrow> (case hash_at_open handle of
         Some handle_hash \<Rightarrow>
           if handle_hash \<noteq> actual_hash then Some (HandleConflict path handle_hash actual_hash)
           else None
       | None \<Rightarrow> (case dm_get (reader_hashes t) (sid, path) of
           Some reader \<Rightarrow>
             if re_hash reader \<noteq> actual_hash
             then Some (ReaderConflict path (re_hash reader) actual_hash) else None
         | None \<Rightarrow> None)))"

text \<open>What happens between \<open>entries.get(path).unwrap()\<close> and the return, while the entry is locked.\<close>

definition acquire_locked ::
  "path \<Rightarrow> fh \<Rightarrow> sid \<Rightarrow> HandleTable \<Rightarrow> hash \<Rightarrow> DateTime \<Rightarrow> CasTable \<Rightarrow> (cas_error + unit) \<times> CasTable"
where
  "acquire_locked path fh sid hs actual_hash now t = (case dm_get (entries t) path of
       None \<Rightarrow> (Inl UnwrapPanic, t)
     | Some state \<Rightarrow>
         if write_owner state = Some fh
         then (Inr (), t\<lparr>entries := dm_insert path (state\<lparr>last_access := now\<rparr>) (entries t)\<rparr>)
         else (case (case write_owner state of
                       Some owner \<Rightarrow> if owner \<noteq> fh then Some (OwnedBy path owner) else None
                     | None \<Rightarrow> None) of
             Some e \<Rightarrow> (Inl e, t)
           | None \<Rightarrow> (case cas_check path fh sid hs actual_hash t of
               Some e \<Rightarrow> (Inl e, t)
             | None \<Rightarrow> (Inr (), t\<lparr>entries :=
                 dm_insert path (state\<lparr>write_owner := Some fh, last_access := now\<rparr>) (entries t)\<rparr>))))"

definition check_and_acquire_write ::
  "path \<Rightarrow> fh \<Rightarrow> sid \<Rightarrow> HandleTable \<Rightarrow> hash \<Rightarrow> DateTime \<Rightarrow> CasTable \<Rightarrow> (cas_error + unit) \<times> CasTable"
where
  "check_and_acquire_write path fh sid hs actual_hash now t =
     acquire_locked path fh sid hs actual_hash now (ensure_entry path now t)"

definition release_write :: "path \<Rightarrow> fh \<Rightarrow> CasTable \<Rightarrow> CasTable" where
  "release_write path fh t = (case dm_get (entries t) path of
       Some state \<Rightarrow> if write_owner state = Some fh
         then t\<lparr>entries := dm_insert path (state\<lparr>write_owner := None\<rparr>) (entries t)\<rparr> else t
     | None \<Rightarrow> t)"

definition update_reader :: "sid \<Rightarrow> path \<Rightarrow> hash \<Rightarrow> DateTime \<Rightarrow> CasTable \<Rightarrow> CasTable" where
  "update_reader sid path hash now t =
     t\<lparr>reader_hashes := dm_insert (sid, path) \<lparr>re_hash = hash, re_last_access = now\<rparr>
        (reader_hashes t)\<rparr>"

definition get_reader_hash :: "sid \<Rightarrow> path \<Rightarrow> CasTable \<Rightarrow> hash option" where
  "get_reader_hash sid path t = map_option re_hash (dm_get (reader_hashes t) (sid, path))"

definition has_active_writer :: "path \<Rightarrow> CasTable \<Rightarrow> bool" where
  "has_active_writer path t = (case dm_get (entries t) path of
       Some state \<Rightarrow> write_owner state \<noteq> None
     | None \<Rightarrow> False)"

definition cas_remove :: "path \<Rightarrow> CasTable \<Rightarrow> CasTable" where
  "cas_remove path t = t\<lparr>entries := dm_remove path (entries t),
     reader_hashes := dm_retain (\<lambda>(k, _). snd k \<noteq> path) (reader_hashes t)\<rparr>"

text \<open>The loop of \<open>rename\<close> over the collected reader entries.\<close>

definition move_reader :: "path \<Rightarrow> path \<Rightarrow> sid \<times> ReaderEntry \<Rightarrow>
    (sid \<times> path, ReaderEntry) DashMap \<Rightarrow> (sid \<times> path, ReaderEntry) DashMap" where
  "move_reader old new se m = dm_insert (fst se, new) (snd se) (dm_remove (fst se, old) m)"

definition cas_rename :: "path \<Rightarrow> path \<Rightarrow> CasTable \<Rightarrow> CasTable" where
  "cas_rename old new t =
     (let t1 = (case dm_get (entries t) old of
            Some state \<Rightarrow> t\<lparr>entries := dm_insert new state (dm_remove old (entries t))\<rparr>
          | None \<Rightarrow> t);
          to_move = map (\<lambda>(k, e). (fst k, e))
            (filter (\<lambda>(k, _). snd k = old) (dm_iter (reader_hashes t1)))
      in t1\<lparr>reader_hashes := fold (move_reader old new) to_move (reader_hashes t1)\<rparr>)"

definition cas_len :: "CasTable \<Rightarrow> nat" where
  "cas_len t = dm_len (entries t)"

definition active_writers :: "CasTable \<Rightarrow> nat" where
  "active_writers t = length (filter (\<lambda>(_, s). write_owner s \<noteq> None) (dm_iter (entries t)))"

text \<open>\<open>to_rfc3339\<close> belongs to the chrono crate and is a parameter.\<close>

definition all_entries :: "(DateTime \<Rightarrow> string) \<Rightarrow> CasTable \<Rightarrow> FileStateInfo list" where
  "all_entries to_rfc3339 t =
     map (\<lambda>(path, s). \<lparr>fi_path = to_string_lossy path, fi_write_owner = write_owner s,
                       fi_last_access = to_rfc3339 (last_access s)\<rparr>) (dm_iter (entries t))"

text \<open>
  The cutoff of an eviction pass. \<open>from_std\<close> is chrono's fallible conversion of a standard
  duration, \<open>dt_sub\<close> its subtraction of a duration from a time, which panics (\<open>None\<close>) when
  the result is not representable.
\<close>

definition evict_cutoff ::
  "(nat \<Rightarrow> int option) \<Rightarrow> (DateTime \<Rightarrow> int \<Rightarrow> DateTime option) \<Rightarrow> nat \<Rightarrow> DateTime \<Rightarrow> DateTime option"
where
  "evict_cutoff from_std dt_sub duration now = dt_sub now (option_or 0 (from_std duration))"

text \<open>The three loops of an eviction pass: collecting the idle paths, removing them one by one, and
  dropping the old reader entries.\<close>

definition idle_since :: "DateTime \<Rightarrow> FileState \<Rightarrow> bool" where
  "idle_since cutoff s \<longleftrightarrow> write_owner s = None \<and> last_access s < cutoff"

definition evict_collect :: "DateTime \<Rightarrow> CasTable \<Rightarrow> path list" where
  "evict_collect cutoff t = map fst (filter (\<lambda>(_, s). idle_since cutoff s) (dm_iter (entries t)))"

definition evict_entry :: "path \<Rightarrow> CasTable \<Rightarrow> CasTable" where
  "evict_entry path t = t\<lparr>entries := dm_remove path (entries t)\<rparr>"

definition drop_readers :: "DateTime \<Rightarrow> CasTable \<Rightarrow> CasTable" where
  "drop_readers cutoff t =
     t\<lparr>reader_hashes := dm_retain (\<lambda>(_, v). cutoff \<le> re_last_access v) (reader_hashes t)\<rparr>"

definition evict_before :: "DateTime \<Rightarrow> CasTable \<Rightarrow> CasTable" where
  "evict_before cutoff t = drop_readers cutoff (fold evict_entry (evict_collect cutoff t) t)"

definition evict_older_than ::
  "(nat \<Rightarrow> int option) \<Rightarrow> (DateTime \<Rightarrow> int \<Rightarrow> DateTime option) \<Rightarrow> nat \<Rightarrow> DateTime \<Rightarrow> CasTable \<Rightarrow>
   CasTable option"
where
  "evict_older_than from_std dt_sub duration now t =
     (case evict_cutoff from_std dt_sub duration now of
        None \<Rightarrow> None
      | Some cutoff \<Rightarrow> Some (evict_before cutoff t))"

section \<open>Abstract view\<close>

text \<open>
  What the table means: which hash each session last saw of each file, which paths are tracked
  and which handle owns the write of a path. Timestamps and entries without an owner are
  bookkeeping.
\<close>

record occ =
  seen :: "sid \<times> path \<Rightarrow> hash option"
  tracked :: "path set"
  owner :: "path \<Rightarrow> fh option"

definition occ_of :: "CasTable \<Rightarrow> occ" where
  "occ_of t = \<lparr>seen = (\<lambda>k. map_option re_hash (dm_get (reader_hashes t) k)),
     tracked = dom (dm_get (entries t)),
     owner = (\<lambda>p. Option.bind (dm_get (entries t) p) write_owner)\<rparr>"

abbreviation owner_of :: "CasTable \<Rightarrow> path \<Rightarrow> fh option" where
  "owner_of t \<equiv> owner (occ_of t)"

abbreviation seen_by :: "CasTable \<Rightarrow> sid \<times> path \<Rightarrow> hash option" where
  "seen_by t \<equiv> seen (occ_of t)"

abbreviation tracked_in :: "CasTable \<Rightarrow> path set" where
  "tracked_in t \<equiv> tracked (occ_of t)"

definition occ_ok :: "occ \<Rightarrow> bool" where
  "occ_ok a \<longleftrightarrow> finite (tracked a) \<and> dom (owner a) \<subseteq> tracked a"

text \<open>The hash a writer has to match, if any.\<close>

definition expected :: "HandleTable \<Rightarrow> fh \<Rightarrow> sid \<Rightarrow> path \<Rightarrow> occ \<Rightarrow> hash option" where
  "expected hs fh sid p a = (case h_get hs fh of
       None \<Rightarrow> None
     | Some h \<Rightarrow> (case hash_at_open h of Some x \<Rightarrow> Some x | None \<Rightarrow> seen a (sid, p)))"

text \<open>Compare-and-swap admission: the owner may go on; otherwise nobody may own the write and the
  writer's expectation, if it has one, must be the current content.\<close>

definition admits :: "path \<Rightarrow> fh \<Rightarrow> sid \<Rightarrow> HandleTable \<Rightarrow> hash \<Rightarrow> occ \<Rightarrow> bool" where
  "admits p fh sid hs actual a \<longleftrightarrow> owner a p = Some fh \<or>
     owner a p = None \<and>
     (expected hs fh sid p a = None \<or> expected hs fh sid p a = Some actual)"

definition occ_see :: "sid \<Rightarrow> path \<Rightarrow> hash \<Rightarrow> occ \<Rightarrow> occ" where
  "occ_see sid p h a = a\<lparr>seen := (seen a)((sid, p) \<mapsto> h)\<rparr>"

definition occ_track :: "path \<Rightarrow> occ \<Rightarrow> occ" where
  "occ_track p a = a\<lparr>tracked := insert p (tracked a)\<rparr>"

definition occ_acquire :: "path \<Rightarrow> fh \<Rightarrow> sid \<Rightarrow> HandleTable \<Rightarrow> hash \<Rightarrow> occ \<Rightarrow> occ" where
  "occ_acquire p fh sid hs actual a =
     (if admits p fh sid hs actual a then (occ_track p a)\<lparr>owner := (owner a)(p \<mapsto> fh)\<rparr>
      else occ_track p a)"

definition occ_release :: "path \<Rightarrow> fh \<Rightarrow> occ \<Rightarrow> occ" where
  "occ_release p fh a = (if owner a p = Some fh then a\<lparr>owner := (owner a)(p := None)\<rparr> else a)"

definition occ_forget :: "path \<Rightarrow> occ \<Rightarrow> occ" where
  "occ_forget p a = \<lparr>seen = (\<lambda>k. if snd k = p then None else seen a k),
     tracked = tracked a - {p}, owner = (owner a)(p := None)\<rparr>"

definition occ_move :: "path \<Rightarrow> path \<Rightarrow> occ \<Rightarrow> occ" where
  "occ_move old new a =
     \<lparr>seen = (\<lambda>k. if snd k = new \<and> seen a (fst k, old) \<noteq> None then seen a (fst k, old)
              else if snd k = old \<and> old \<noteq> new then None else seen a k),
      tracked = (if old \<in> tracked a then insert new (tracked a - {old}) else tracked a),
      owner = (if old \<in> tracked a then ((owner a)(old := None))(new := owner a old) else owner a)\<rparr>"

text \<open>An eviction may forget any reader hash and any path without an owner, nothing else.\<close>

definition occ_evicts :: "occ \<Rightarrow> occ \<Rightarrow> bool" where
  "occ_evicts a b \<longleftrightarrow> owner b = owner a \<and> tracked b \<subseteq> tracked a \<and>
     dom (owner a) \<inter> tracked a \<subseteq> tracked b \<and> seen b \<subseteq>\<^sub>m seen a"

section \<open>The table implements the view\<close>

lemma occ_of_sel:
  "seen (occ_of t) k = map_option re_hash (dm_get (reader_hashes t) k)"
  "tracked (occ_of t) = dom (dm_get (entries t))"
  "owner (occ_of t) p = Option.bind (dm_get (entries t) p) write_owner"
  by (simp_all add: occ_of_def)

lemma occ_eqI:
  "(\<And>k. seen a k = seen b k) \<Longrightarrow> tracked a = tracked b \<Longrightarrow> (\<And>p. owner a p = owner b p) \<Longrightarrow>
   a = (b :: occ)"
  by (cases a, cases b) auto

lemma occ_of_ok: "occ_ok (occ_of t)"
  by (auto simp: occ_ok_def occ_of_sel bind_eq_Some_conv)

lemma occ_new: "occ_of CasTable_new = \<lparr>seen = Map.empty, tracked = {}, owner = Map.empty\<rparr>"
  by (rule occ_eqI) (simp_all add: occ_of_sel CasTable_new_def dom_def)

lemma get_reader_hash_occ: "get_reader_hash sid p t = seen_by t (sid, p)"
  by (simp add: get_reader_hash_def occ_of_sel)

lemma has_active_writer_occ: "has_active_writer p t \<longleftrightarrow> owner_of t p \<noteq> None"
  by (auto simp: has_active_writer_def occ_of_sel split: option.splits)

lemma record_reader_occ: "occ_of (record_reader p h sid now t) = occ_see sid p h (occ_of t)"
  by (rule occ_eqI) (auto simp: record_reader_def occ_see_def occ_of_sel dm_get_insert)

lemma update_reader_occ: "occ_of (update_reader sid p h now t) = occ_see sid p h (occ_of t)"
  by (rule occ_eqI) (auto simp: update_reader_def occ_see_def occ_of_sel dm_get_insert)

lemma ensure_entry_occ: "occ_of (ensure_entry p now t) = occ_track p (occ_of t)"
  by (rule occ_eqI)
     (auto simp: ensure_entry_def occ_track_def occ_of_sel dm_get_insert split: option.splits)

lemma release_write_occ: "occ_of (release_write p fh t) = occ_release p fh (occ_of t)"
  by (rule occ_eqI)
     (auto simp: release_write_def occ_release_def occ_of_sel dm_get_insert split: option.splits)

lemma cas_remove_occ: "occ_of (cas_remove p t) = occ_forget p (occ_of t)"
  by (rule occ_eqI)
     (auto simp: cas_remove_def occ_forget_def occ_of_sel dm_get_retain split: option.splits)

lemma cas_check_occ:
  "cas_check p fh sid hs actual t = None \<longleftrightarrow>
   expected hs fh sid p (occ_of t) = None \<or> expected hs fh sid p (occ_of t) = Some actual"
  by (auto simp: cas_check_def expected_def occ_of_sel split: option.splits)

lemma expected_track [simp]: "expected hs fh sid p (occ_track q a) = expected hs fh sid p a"
  by (simp add: expected_def occ_track_def split: option.splits)

lemma ensure_entry_present: "\<exists>st. dm_get (entries (ensure_entry p now t)) p = Some st"
  by (auto simp: ensure_entry_def split: option.splits)

lemma acquire_result_occ:
  "fst (check_and_acquire_write p fh sid hs actual now t) = Inr () \<longleftrightarrow>
   admits p fh sid hs actual (occ_of t)"
proof -
  obtain st where st: "dm_get (entries (ensure_entry p now t)) p = Some st"
    using ensure_entry_present by blast
  have own: "owner_of t p = write_owner st"
    using arg_cong [OF ensure_entry_occ [of p now t], of "\<lambda>a. owner a p"] st
    by (simp add: occ_of_sel occ_track_def)
  have chk: "cas_check p fh sid hs actual (ensure_entry p now t) = None \<longleftrightarrow>
      expected hs fh sid p (occ_of t) = None \<or> expected hs fh sid p (occ_of t) = Some actual"
    by (simp add: cas_check_occ ensure_entry_occ)
  show ?thesis
    using st own chk
    by (auto simp: check_and_acquire_write_def acquire_locked_def admits_def Let_def split: option.splits)
qed

lemma acquire_occ:
  "occ_of (snd (check_and_acquire_write p fh sid hs actual now t)) =
   occ_acquire p fh sid hs actual (occ_of t)"
proof -
  let ?t1 = "ensure_entry p now t"
  obtain st where st: "dm_get (entries ?t1) p = Some st"
    using ensure_entry_present by blast
  have upd: "occ_of (?t1\<lparr>entries := dm_insert p s' (entries ?t1)\<rparr>) =
      (occ_track p (occ_of t))\<lparr>owner := (owner_of t)(p := write_owner s')\<rparr>" for s'
    using ensure_entry_occ [of p now t]
    by (intro occ_eqI) (auto simp: occ_of_sel dm_get_insert occ_track_def occ_of_def dest: fun_cong)
  show ?thesis
    using acquire_result_occ [of p fh sid hs actual now t] st
    by (auto simp: check_and_acquire_write_def acquire_locked_def occ_acquire_def Let_def upd ensure_entry_occ
        split: option.splits if_splits)
qed

subsection \<open>Renaming\<close>

definition readers_of :: "path \<Rightarrow> ((sid \<times> path) \<times> ReaderEntry) list \<Rightarrow> (sid \<times> ReaderEntry) list" where
  "readers_of old xs = map (\<lambda>(k, e). (fst k, e)) (filter (\<lambda>(k, _). snd k = old) xs)"

lemma readers_of_set: "(s, e) \<in> set (readers_of old xs) \<longleftrightarrow> ((s, old), e) \<in> set xs"
  by (force simp: readers_of_def)

lemma readers_of_distinct: "distinct (map fst xs) \<Longrightarrow> distinct (map fst (readers_of old xs))"
  by (induction xs) (force simp: readers_of_def)+

lemma map_of_readers_of:
  "distinct (map fst xs) \<Longrightarrow> map_of (readers_of old xs) s = map_of xs (s, old)"
proof (cases "map_of xs (s, old)")
  case (Some e)
  moreover assume "distinct (map fst xs)"
  ultimately show ?thesis
    using map_of_eq_Some_iff [OF readers_of_distinct] map_of_SomeD readers_of_set by metis
next
  case None
  then show ?thesis
    by (metis map_of_SomeD map_of_eq_None_iff not_None_eq readers_of_set weak_map_of_SomeI)
qed

lemma move_reader_get:
  "dm_get (move_reader old new x m) k =
     (if fst k = fst x \<and> snd k = new then Some (snd x)
      else if fst k = fst x \<and> snd k = old then None else dm_get m k)"
  by (cases k) (auto simp: move_reader_def DAList.lookup_update)

lemma move_readers_get:
  "distinct (map fst xs) \<Longrightarrow>
   dm_get (fold (move_reader old new) xs m) k = (case map_of xs (fst k) of
       None \<Rightarrow> dm_get m k
     | Some e \<Rightarrow> if snd k = new then Some e else if snd k = old then None else dm_get m k)"
proof (induction xs arbitrary: m)
  case Nil
  then show ?case by simp
next
  case (Cons x xs)
  have none: "map_of xs (fst x) = None" using Cons.prems by (simp add: map_of_eq_None_iff)
  have IH: "dm_get (fold (move_reader old new) xs (move_reader old new x m)) k = (case map_of xs (fst k) of
       None \<Rightarrow> dm_get (move_reader old new x m) k
     | Some e \<Rightarrow> if snd k = new then Some e else if snd k = old then None
         else dm_get (move_reader old new x m) k)"
    using Cons by simp
  show ?case
    by (cases "fst k = fst x") (simp_all add: IH none move_reader_get split: option.splits)
qed

lemma cas_rename_readers:
  "dm_get (reader_hashes (cas_rename old new t)) k =
     (if snd k = new \<and> dm_get (reader_hashes t) (fst k, old) \<noteq> None
      then dm_get (reader_hashes t) (fst k, old)
      else if snd k = old \<and> old \<noteq> new then None else dm_get (reader_hashes t) k)"
proof -
  have "reader_hashes (cas_rename old new t) =
      fold (move_reader old new) (readers_of old (dm_iter (reader_hashes t))) (reader_hashes t)"
    by (simp add: cas_rename_def Let_def readers_of_def split: option.splits)
  moreover have "map_of (readers_of old (dm_iter (reader_hashes t))) s =
      dm_get (reader_hashes t) (s, old)" for s
    by (simp add: map_of_readers_of DAList.lookup.rep_eq)
  ultimately show ?thesis
    by (auto simp: move_readers_get readers_of_distinct split: option.splits)
qed

lemma cas_rename_entries:
  "dm_get (entries (cas_rename old new t)) p =
     (if dm_get (entries t) old = None then dm_get (entries t) p
      else if p = new then dm_get (entries t) old
      else if p = old then None else dm_get (entries t) p)"
  by (auto simp: cas_rename_def Let_def dm_get_insert split: option.splits)

lemma cas_rename_occ: "occ_of (cas_rename old new t) = occ_move old new (occ_of t)"
  by (rule occ_eqI)
     (auto simp: occ_of_sel occ_move_def cas_rename_readers cas_rename_entries dom_def
       split: if_splits)

subsection \<open>Eviction\<close>

lemma fold_evict_entry:
  "entries (fold evict_entry ps t) = fold dm_remove ps (entries t)"
  "reader_hashes (fold evict_entry ps t) = reader_hashes t"
  by (induction ps arbitrary: t) (simp_all add: evict_entry_def)

lemma evict_collect_iff:
  "p \<in> set (evict_collect cutoff t) \<longleftrightarrow>
   (\<exists>s. dm_get (entries t) p = Some s \<and> idle_since cutoff s)"
  by (force simp: evict_collect_def dm_iter_iff image_iff)

lemma evict_entries:
  "dm_get (entries (evict_before cutoff t)) p = (case dm_get (entries t) p of
     None \<Rightarrow> None
   | Some s \<Rightarrow> if write_owner s = None \<and> last_access s < cutoff then None else Some s)"
  by (auto simp: evict_before_def drop_readers_def fold_evict_entry dm_get_fold_remove
      evict_collect_iff idle_since_def split: option.splits)

lemma drop_readers_get:
  "dm_get (reader_hashes (drop_readers cutoff t)) k = (case dm_get (reader_hashes t) k of
     None \<Rightarrow> None
   | Some r \<Rightarrow> if cutoff \<le> re_last_access r then Some r else None)"
  by (simp add: drop_readers_def dm_get_retain split: option.splits)

lemma evict_readers:
  "dm_get (reader_hashes (evict_before cutoff t)) k = (case dm_get (reader_hashes t) k of
     None \<Rightarrow> None
   | Some r \<Rightarrow> if cutoff \<le> re_last_access r then Some r else None)"
  by (simp add: evict_before_def drop_readers_get fold_evict_entry)

text \<open>What a delayed removal and a pass over the readers do on their own.\<close>

lemma evict_entry_occ:
  "occ_of (evict_entry p t) =
     (occ_of t)\<lparr>tracked := tracked_in t - {p}, owner := (owner_of t)(p := None)\<rparr>"
  by (rule occ_eqI) (auto simp: evict_entry_def occ_of_sel)

lemma drop_readers_frame [simp]:
  "owner_of (drop_readers cutoff t) = owner_of t" "tracked_in (drop_readers cutoff t) = tracked_in t"
  by (auto simp: drop_readers_def occ_of_sel fun_eq_iff)

lemma drop_readers_seen:
  "seen_by (drop_readers cutoff t) k = (case dm_get (reader_hashes t) k of
     None \<Rightarrow> None
   | Some r \<Rightarrow> if cutoff \<le> re_last_access r then Some (re_hash r) else None)"
  by (simp add: occ_of_sel drop_readers_get split: option.splits)

lemma evict_owner [simp]: "owner_of (evict_before cutoff t) p = owner_of t p"
  by (auto simp: occ_of_sel evict_entries split: option.splits)

lemma evict_occ: "occ_evicts (occ_of t) (occ_of (evict_before cutoff t))"
  unfolding occ_evicts_def
proof (intro conjI)
  show "owner_of (evict_before cutoff t) = owner_of t" by (rule ext) simp
  show "tracked_in (evict_before cutoff t) \<subseteq> tracked_in t"
    by (auto simp: occ_of_sel evict_entries split: option.splits)
  show "dom (owner_of t) \<inter> tracked_in t \<subseteq> tracked_in (evict_before cutoff t)"
    by (auto simp: occ_of_sel evict_entries split: option.splits)
  show "seen_by (evict_before cutoff t) \<subseteq>\<^sub>m seen_by t"
    by (auto simp: map_le_def occ_of_sel evict_readers split: option.splits if_splits)
qed

subsection \<open>Counting\<close>

lemma cas_len_tracked: "cas_len t = card (tracked_in t)"
  by (simp add: cas_len_def dm_len_card occ_of_sel)

lemma active_writers_owned: "active_writers t = card (dom (owner_of t))"
proof -
  have "{k. \<exists>v. dm_get (entries t) k = Some v \<and> (case (k, v) of (_, s) \<Rightarrow> write_owner s \<noteq> None)}
      = dom (owner_of t)"
    by (auto simp: occ_of_sel bind_eq_Some_conv)
  then show ?thesis
    by (simp add: active_writers_def dm_count_filter)
qed

lemmas cas_occ = record_reader_occ update_reader_occ ensure_entry_occ release_write_occ
  cas_remove_occ acquire_occ cas_rename_occ

subsection \<open>Owners and sightings after each operation\<close>

lemma occ_simps [simp]:
  "owner (occ_see s p h a) = owner a" "seen (occ_see s p h a) = (seen a)((s, p) \<mapsto> h)"
  "owner (occ_track p a) = owner a" "seen (occ_track p a) = seen a"
  "seen (occ_acquire p k s hs h a) = seen a"
  "owner (occ_acquire p k s hs h a) =
     (if admits p k s hs h a then (owner a)(p \<mapsto> k) else owner a)"
  "seen (occ_release p k a) = seen a"
  "owner (occ_release p k a) = (if owner a p = Some k then (owner a)(p := None) else owner a)"
  "owner (occ_forget p a) = (owner a)(p := None)"
  "seen (occ_forget p a) = (\<lambda>k. if snd k = p then None else seen a k)"
  "tracked (occ_see s p h a) = tracked a" "tracked (occ_track p a) = insert p (tracked a)"
  "tracked (occ_acquire p k s hs h a) = insert p (tracked a)"
  "tracked (occ_release p k a) = tracked a" "tracked (occ_forget p a) = tracked a - {p}"
  by (simp_all add: occ_see_def occ_track_def occ_acquire_def occ_release_def occ_forget_def)

lemma owner_move:
  "owner (occ_move p q a) r = (if p \<in> tracked a
     then if r = q then owner a p else if r = p then None else owner a r else owner a r)"
  by (simp add: occ_move_def)

lemma seen_move_other: "p \<noteq> r \<Longrightarrow> q \<noteq> r \<Longrightarrow> seen (occ_move p q a) (s, r) = seen a (s, r)"
  by (simp add: occ_move_def)

section \<open>The interface the file system relies on\<close>

text \<open>
  The contract of a compare-and-swap table, over an abstraction into the view: each operation
  commutes with its abstract counterpart, and an eviction is one of the allowed ones.
\<close>

locale occ_table =
  fixes view :: "'t \<Rightarrow> occ"
    and see :: "path \<Rightarrow> hash \<Rightarrow> sid \<Rightarrow> DateTime \<Rightarrow> 't \<Rightarrow> 't"
    and acquire :: "path \<Rightarrow> fh \<Rightarrow> sid \<Rightarrow> HandleTable \<Rightarrow> hash \<Rightarrow> DateTime \<Rightarrow> 't \<Rightarrow> (cas_error + unit) \<times> 't"
    and release :: "path \<Rightarrow> fh \<Rightarrow> 't \<Rightarrow> 't"
    and evict :: "DateTime \<Rightarrow> 't \<Rightarrow> 't"
  assumes view_see: "view (see p h s now t) = occ_see s p h (view t)"
    and view_acquire: "view (snd (acquire p k s hs h now t)) = occ_acquire p k s hs h (view t)"
    and acquire_admits: "fst (acquire p k s hs h now t) = Inr () \<longleftrightarrow> admits p k s hs h (view t)"
    and view_release: "view (release p k t) = occ_release p k (view t)"
    and view_evict: "occ_evicts (view t) (view (evict cutoff t))"
begin

text \<open>Ownership is exclusive from acquisition to release.\<close>

lemma exclusive:
  assumes "fst (acquire p k s hs h now t) = Inr ()" and "k' \<noteq> k"
  shows "fst (acquire p k' s' hs' h' now' (snd (acquire p k s hs h now t))) \<noteq> Inr ()"
  using assms by (auto simp: acquire_admits view_acquire occ_acquire_def admits_def)

lemma reacquire:
  assumes "fst (acquire p k s hs h now t) = Inr ()"
  shows "fst (acquire p k s' hs' h' now' (snd (acquire p k s hs h now t))) = Inr ()"
  using assms by (auto simp: acquire_admits view_acquire occ_acquire_def admits_def)

lemma evict_keeps_owner: "owner (view (evict cutoff t)) = owner (view t)"
  using view_evict [of t cutoff] by (simp add: occ_evicts_def)

text \<open>A session whose last sight of the file is not its content does not get the write, whatever
  happened to ownership in between.\<close>

lemma stale_rejected:
  assumes "h_get hs k = Some hnd" and "hash_at_open hnd = None"
    and "seen (view t) (s, p) = Some h" and "actual \<noteq> h" and "owner (view t) p \<noteq> Some k"
  shows "fst (acquire p k s hs actual now t) \<noteq> Inr ()"
  using assms by (auto simp: acquire_admits admits_def expected_def)

lemma rejected_keeps_view:
  assumes "fst (acquire p k s hs h now t) \<noteq> Inr ()"
  shows "view (snd (acquire p k s hs h now t)) = occ_track p (view t)"
  using assms by (simp add: acquire_admits view_acquire occ_acquire_def)

text \<open>The read, write, re-read cycle of one session goes through.\<close>

lemma own_write_then_write:
  assumes "owner (view t) p = Some k" and "h_get hs k' = Some hnd" and "hash_at_open hnd = None"
  shows "fst (acquire p k' s hs h now (release p k (see p h s now' t))) = Inr ()"
  using assms
  by (simp add: acquire_admits view_release view_see occ_release_def occ_see_def admits_def
      expected_def)

end

interpretation cas: occ_table occ_of record_reader check_and_acquire_write release_write evict_before
  by unfold_locales (simp_all add: cas_occ acquire_result_occ evict_occ)

section \<open>Properties\<close>

text \<open>The verdict of \<open>check_and_acquire_write\<close>, run undisturbed, in terms of the abstract view.\<close>

lemma check_decides:
  "fst (check_and_acquire_write p fh sid hs actual now t) = (case owner_of t p of
     Some k \<Rightarrow> if k = fh then Inr () else Inl (OwnedBy p k)
   | None \<Rightarrow> (case h_get hs fh of
       None \<Rightarrow> Inr ()
     | Some h \<Rightarrow> (case hash_at_open h of
         Some x \<Rightarrow> if x = actual then Inr () else Inl (HandleConflict p x actual)
       | None \<Rightarrow> (case seen_by t (sid, p) of
           Some x \<Rightarrow> if x = actual then Inr () else Inl (ReaderConflict p x actual)
         | None \<Rightarrow> Inr ()))))"
proof -
  obtain st where st: "dm_get (entries (ensure_entry p now t)) p = Some st"
    using ensure_entry_present by blast
  have "owner_of t p = write_owner st"
    using arg_cong [OF ensure_entry_occ [of p now t], of "\<lambda>a. owner a p"] st
    by (simp add: occ_of_sel occ_track_def)
  moreover have "reader_hashes (ensure_entry p now t) = reader_hashes t"
    by (simp add: ensure_entry_def split: option.splits)
  ultimately show ?thesis
    using st
    by (auto simp: check_and_acquire_write_def acquire_locked_def cas_check_def Let_def occ_of_sel split: option.splits)
qed

text \<open>The operations as data, and the abstract transition each one may make.\<close>

datatype cas_op =
    RecordReader path hash sid DateTime
  | EnsureEntry path DateTime
  | Acquire path fh sid HandleTable hash DateTime
  | Release path fh
  | UpdateReader sid path hash DateTime
  | Remove path
  | Move path path
  | EvictBefore DateTime

fun cas_step :: "cas_op \<Rightarrow> CasTable \<Rightarrow> CasTable" where
  "cas_step (RecordReader p h s now) t = record_reader p h s now t"
| "cas_step (EnsureEntry p now) t = ensure_entry p now t"
| "cas_step (Acquire p k s hs h now) t = snd (check_and_acquire_write p k s hs h now t)"
| "cas_step (Release p k) t = release_write p k t"
| "cas_step (UpdateReader s p h now) t = update_reader s p h now t"
| "cas_step (Remove p) t = cas_remove p t"
| "cas_step (Move p q) t = cas_rename p q t"
| "cas_step (EvictBefore cutoff) t = evict_before cutoff t"

inductive occ_step :: "cas_op \<Rightarrow> occ \<Rightarrow> occ \<Rightarrow> bool" where
  record_step: "occ_step (RecordReader p h s now) a (occ_see s p h a)"
| ensure_step: "occ_step (EnsureEntry p now) a (occ_track p a)"
| acquire_step: "admits p k s hs h a \<Longrightarrow>
    occ_step (Acquire p k s hs h now) a ((occ_track p a)\<lparr>owner := (owner a)(p \<mapsto> k)\<rparr>)"
| refuse_step: "\<not> admits p k s hs h a \<Longrightarrow> occ_step (Acquire p k s hs h now) a (occ_track p a)"
| release_step: "owner a p = Some k \<Longrightarrow>
    occ_step (Release p k) a (a\<lparr>owner := (owner a)(p := None)\<rparr>)"
| release_other_step: "owner a p \<noteq> Some k \<Longrightarrow> occ_step (Release p k) a a"
| update_step: "occ_step (UpdateReader s p h now) a (occ_see s p h a)"
| remove_step: "occ_step (Remove p) a (occ_forget p a)"
| move_step: "occ_step (Move p q) a (occ_move p q a)"
| evict_step: "occ_evicts a b \<Longrightarrow> occ_step (EvictBefore cutoff) a b"

inductive occ_exec :: "cas_op list \<Rightarrow> occ \<Rightarrow> occ \<Rightarrow> bool" where
  done_exec: "occ_exec [] a a"
| step_exec: "occ_step x a b \<Longrightarrow> occ_exec xs b c \<Longrightarrow> occ_exec (x # xs) a c"

lemma cas_step_simulates: "occ_step x (occ_of t) (occ_of (cas_step x t))"
  by (cases x)
     (auto simp: cas_occ occ_acquire_def occ_release_def evict_occ intro: occ_step.intros)

lemma cas_run_simulates: "occ_exec ops (occ_of t) (occ_of (fold cas_step ops t))"
  by (induction ops arbitrary: t) (auto intro: occ_exec.intros cas_step_simulates)

text \<open>
  C12: Refinement. Whatever sequence of operations is run on the table, the views, tracked paths and
  owners it stands for make the transitions of the abstract compare-and-swap register, operation
  by operation; an eviction takes one of the steps allowed to it.
\<close>

theorem cas_table_refines:
  "occ_exec ops (occ_of t) (occ_of (fold cas_step ops t))"
  by (rule cas_run_simulates)

text \<open>What the abstract register promises, by rule induction.\<close>

lemma occ_step_owner:
  assumes "occ_step x a b" and "owner a p = Some k" and "x \<noteq> Release p k" and "x \<noteq> Remove p"
    and "\<And>q r. x = Move q r \<Longrightarrow> q \<noteq> p \<and> r \<noteq> p"
  shows "owner b p = Some k"
  using assms by (induction rule: occ_step.induct) (auto simp: admits_def owner_move occ_evicts_def)

text \<open>
  In every sequence of table operations without a release by the owner, a removal or a renaming
  of the path, the owner of a write stays the owner, whatever others try to acquire and whatever
  is evicted.
\<close>

lemma owner_survives:
  assumes "owner_of t p = Some k"
    and "\<forall>x \<in> set ops. x \<noteq> Release p k \<and> x \<noteq> Remove p \<and> (\<forall>q r. x = Move q r \<longrightarrow> q \<noteq> p \<and> r \<noteq> p)"
  shows "owner_of (fold cas_step ops t) p = Some k"
proof -
  have "owner b p = Some k" if "occ_exec ops a b" "owner a p = Some k" for a b
    using that assms(2)
    by (induction rule: occ_exec.induct) (auto dest: occ_step_owner)
  then show ?thesis using cas_run_simulates assms(1) by blast
qed

text \<open>
  C13: An eviction pass forgets exactly what it should: a path stays tracked if and only if it has a
  write owner or was touched at or after the cutoff, a session's view stays if and only if it was
  recorded at or after the cutoff, and no ownership changes.
\<close>

theorem evict_exact:
  assumes "evict_cutoff from_std dt_sub duration now = Some cutoff"
  shows "\<exists>t'. evict_older_than from_std dt_sub duration now t = Some t'
    \<and> tracked_in t' = {p. \<exists>s. dm_get (entries t) p = Some s \<and>
        (write_owner s \<noteq> None \<or> cutoff \<le> last_access s)}
    \<and> seen_by t' = (\<lambda>k. case dm_get (reader_hashes t) k of None \<Rightarrow> None
        | Some r \<Rightarrow> if cutoff \<le> re_last_access r then Some (re_hash r) else None)
    \<and> owner_of t' = owner_of t"
  using assms
  by (auto simp: evict_older_than_def occ_of_sel evict_entries evict_readers fun_eq_iff
      split: option.splits if_splits)

text \<open>
  A rename carries the write owner and the views of the old path to the new one and leaves
  nothing behind. A session that has only seen the replaced file keeps that view, so its next
  write of the path is compared with the hash of the file that is gone.
\<close>

lemma rename_carries_state:
  assumes "p \<noteq> q" and "p \<in> tracked_in t"
  shows "owner_of (cas_rename p q t) = (owner_of t)(q := owner_of t p, p := None)
    \<and> seen_by (cas_rename p q t) = (\<lambda>(s, r).
        if r = q then (case seen_by t (s, p) of None \<Rightarrow> seen_by t (s, q) | Some h \<Rightarrow> Some h)
        else if r = p then None else seen_by t (s, r))"
  using assms by (auto simp: cas_rename_occ occ_move_def fun_eq_iff split: option.splits)

theorem evict_exact_witness:
  "\<exists>t'. evict_older_than (\<lambda>d. Some (int d)) (\<lambda>n d. Some (n - d)) 60 100
        (record_reader ''f'' [1] 7 30 CasTable_new) = Some t' \<and> seen_by t' (7, ''f'') = None"
  using evict_exact [of "\<lambda>d. Some (int d)" "\<lambda>n d. Some (n - d)" 60 100 40
      "record_reader ''f'' [1] 7 30 CasTable_new"]
  by (auto simp: evict_cutoff_def record_reader_def CasTable_new_def)

end
