(* ===== verification/Config.thy ===== *)
theory Config
  imports Paths
begin

text \<open>
  \<open>src/config.rs\<close> and \<open>src/error.rs\<close>: the command line, the configuration it becomes and the
  error type of the crate.
\<close>

section \<open>Configuration\<close>

record DibsConfig =
  cfg_backing :: path
  cfg_mountpoint :: path
  cfg_session_id :: string
  cfg_log_file :: path
  cfg_eviction_minutes :: u64
  cfg_save_conflicts :: bool
  cfg_readonly_fallback :: bool
  cfg_foreground :: bool

record MountArgs =
  arg_backing :: path
  arg_mountpoint :: path
  arg_session_id :: "string option"
  arg_log_file :: path
  arg_eviction_minutes :: u64
  arg_save_conflicts :: bool
  arg_readonly_fallback :: bool
  arg_foreground :: bool

datatype command = Mount MountArgs | Unmount path

text \<open>
  Parsing belongs to the clap crate. What the attributes on the fields say is the program's: the
  options a user may leave out, and what stands for them then.
\<close>

record MountOptions =
  opt_session_id :: "string option"
  opt_log_file :: "path option"
  opt_eviction_minutes :: "u64 option"
  opt_save_conflicts :: bool
  opt_readonly_fallback :: bool
  opt_foreground :: bool

definition mount_args :: "path \<Rightarrow> path \<Rightarrow> MountOptions \<Rightarrow> MountArgs" where
  "mount_args bk mountpoint opts = \<lparr>arg_backing = bk, arg_mountpoint = mountpoint,
     arg_session_id = opt_session_id opts,
     arg_log_file = option_or ''/tmp/dibs.log'' (opt_log_file opts),
     arg_eviction_minutes = option_or 60 (opt_eviction_minutes opts),
     arg_save_conflicts = opt_save_conflicts opts,
     arg_readonly_fallback = opt_readonly_fallback opts,
     arg_foreground = opt_foreground opts\<rparr>"

section \<open>Errors\<close>

datatype DibsError =
    Io string
  | CasConflict string string string
  | NotTracked string
  | WriteOwnership string u64
  | MountError string
  | ConfigError string

text \<open>The messages. An I/O error is represented by its own message.\<close>

fun dibs_error_message :: "DibsError \<Rightarrow> string" where
  "dibs_error_message (Io e) = ''IO error: '' @ e"
| "dibs_error_message (CasConflict path expected actual) =
     ''CAS conflict on '' @ path @ '': expected hash '' @ expected @ '', found '' @ actual"
| "dibs_error_message (NotTracked path) = ''File not tracked: '' @ path"
| "dibs_error_message (WriteOwnership path owner) =
     ''Write ownership conflict on '' @ path @ '': owned by handle '' @ show_nat (unat owner)"
| "dibs_error_message (MountError e) = ''Mount error: '' @ e"
| "dibs_error_message (ConfigError e) = ''Configuration error: '' @ e"

text \<open>The part of the message that tells the kinds of error apart.\<close>

fun error_kind :: "DibsError \<Rightarrow> nat" where
  "error_kind (Io e) = 0"
| "error_kind (CasConflict p x y) = 1"
| "error_kind (NotTracked p) = 2"
| "error_kind (WriteOwnership p k) = 3"
| "error_kind (MountError e) = 4"
| "error_kind (ConfigError e) = 5"

lemma message_kind: "dibs_error_message e = dibs_error_message f \<Longrightarrow> error_kind e = error_kind f"
  by (cases e; cases f) simp_all

end
