(* ===== verification/Dibs_Fs.thy ===== *)
theory Dibs_Fs
  imports Inodes Hash_Table Config
begin

text \<open>
  \<open>src/fs/mod.rs\<close>: the file system state \<open>DibsFs\<close> and every FUSE handler. A handler takes the
  request, the state and the world and returns its one reply, the new state and the new world;
  an early \<open>return\<close> after \<open>reply.error\<close> is a branch. The attribute timeout, the generation number
  and the empty open flags of the replies are constants and are left out.
\<close>

section \<open>Environment, state and replies\<close>

text \<open>Beside the system calls the handlers use the JSON and time formatting crates.\<close>

record ('w, 's) env = "('w, 's) os" +
  json_status :: "nat \<Rightarrow> nat \<Rightarrow> nat \<Rightarrow> string \<Rightarrow> string"
  json_locks :: "FileStateInfo list \<Rightarrow> string option"
  to_rfc3339 :: "DateTime \<Rightarrow> string"
  conflict_stamp :: "'w \<Rightarrow> string"

record DibsFs =
  config :: DibsConfig
  backing :: path
  inodes :: InodeTable
  file_handles :: HandleTable
  dir_handles :: DirHandleTable
  cas_table :: CasTable
  start_time :: nat
  conflict_dir :: "path option"

record dirent =
  de_ino :: u64
  de_offset :: u64
  de_kind :: FileType
  de_name :: string

datatype reply =
    ReplyEntry FileAttr
  | ReplyAttr FileAttr
  | ReplyOpened fh
  | ReplyData bytes
  | ReplyWritten u32
  | ReplyOk
  | ReplyCreated FileAttr fh
  | ReplyDirectory "dirent list"
  | ReplyStatfs u64 u64 u64 u64 u64 u32 u32 u32
  | ReplyError errno

datatype TimeOrNow = SpecificTime SystemTime | Now

definition bytes_of :: "string \<Rightarrow> bytes" where
  "bytes_of s = map of_char s"

section \<open>Helpers\<close>

definition get_sid :: "('w, 's, 'm) env_scheme \<Rightarrow> u32 \<Rightarrow> 'w \<Rightarrow> sid" where
  "get_sid os pid w = (let sid = sys_getsid os pid w in if sint sid < 0 then pid else sid)"

definition DibsFs_new :: "('w, 's, 'm) env_scheme \<Rightarrow> DibsConfig \<Rightarrow> 'w \<Rightarrow> DibsFs \<times> 'w" where
  "DibsFs_new os cfg w =
     (let dir = join (cfg_backing cfg) ''.dibs-conflicts'';
          (cdir, w1) = (if cfg_save_conflicts cfg
                        then (Some dir, snd (std_create_dir_all os dir w)) else (None, w))
      in (\<lparr>config = cfg, backing = cfg_backing cfg, inodes = InodeTable_new,
           file_handles = HandleTable_new, dir_handles = DirHandleTable_new,
           cas_table = CasTable_new, start_time = instant_now os w1, conflict_dir = cdir\<rparr>, w1))"

definition backing_path :: "DibsFs \<Rightarrow> path \<Rightarrow> path" where
  "backing_path s rel = join (backing s) rel"

definition resolve_path :: "DibsFs \<Rightarrow> u64 \<Rightarrow> string \<Rightarrow> path \<times> path" where
  "resolve_path s parent_ino name =
     (let parent_rel = (if parent_ino = 1 then [] else option_or [] (get_path (inodes s) parent_ino));
          rel = join parent_rel name
      in (rel, backing_path s rel))"

definition lookup_and_register ::
  "('w, 's, 'm) env_scheme \<Rightarrow> path \<Rightarrow> path \<Rightarrow> DibsFs \<Rightarrow> 'w \<Rightarrow> (io_error + FileAttr) \<times> DibsFs"
where
  "lookup_and_register os rel full s w = (case lstat os full w of
       Inl e \<Rightarrow> (Inl e, s)
     | Inr st \<Rightarrow>
         (let attr = stat_to_file_attr st in
          if rel = [] then (Inr (attr\<lparr>fa_ino := 1\<rparr>), s\<lparr>inodes := inode_insert 1 [] (inodes s)\<rparr>)
          else (Inr attr, s\<lparr>inodes := inode_insert (fa_ino attr) rel (inodes s)\<rparr>)))"

definition is_dibs_name :: "string \<Rightarrow> bool" where
  "is_dibs_name name \<longleftrightarrow> name = DIBS_DIR_NAME"

definition is_dibs_ino :: "u64 \<Rightarrow> bool" where
  "is_dibs_ino ino \<longleftrightarrow> is_synthetic ino"

definition dibs_dir_attr :: "('w, 's, 'm) env_scheme \<Rightarrow> u64 \<Rightarrow> 'w \<Rightarrow> FileAttr" where
  "dibs_dir_attr os ino w = \<lparr>fa_ino = ino, fa_size = 0, fa_blocks = 0,
     fa_atime = system_time_now os w, fa_mtime = system_time_now os w,
     fa_ctime = system_time_now os w, fa_crtime = system_time_now os w,
     fa_kind = Directory, fa_perm = 0x16D, fa_nlink = 2,
     fa_uid = sys_getuid os w, fa_gid = sys_getgid os w,
     fa_rdev = 0, fa_blksize = 512, fa_flags = 0\<rparr>"

definition dibs_file_attr :: "('w, 's, 'm) env_scheme \<Rightarrow> u64 \<Rightarrow> u64 \<Rightarrow> 'w \<Rightarrow> FileAttr" where
  "dibs_file_attr os ino sz w = \<lparr>fa_ino = ino, fa_size = sz, fa_blocks = (sz + 511) div 512,
     fa_atime = system_time_now os w, fa_mtime = system_time_now os w,
     fa_ctime = system_time_now os w, fa_crtime = system_time_now os w,
     fa_kind = RegularFile, fa_perm = 0x124, fa_nlink = 1,
     fa_uid = sys_getuid os w, fa_gid = sys_getgid os w,
     fa_rdev = 0, fa_blksize = 512, fa_flags = 0\<rparr>"

definition status_json :: "('w, 's, 'm) env_scheme \<Rightarrow> DibsFs \<Rightarrow> 'w \<Rightarrow> string" where
  "status_json os s w = json_status os (cas_len (cas_table s)) (active_writers (cas_table s))
     (instant_now os w - start_time s) (cfg_session_id (config s))"

definition locks_json :: "('w, 's, 'm) env_scheme \<Rightarrow> DibsFs \<Rightarrow> string" where
  "locks_json os s =
     option_or ''[]'' (json_locks os (all_entries (to_rfc3339 os) (cas_table s)))"

section \<open>Lookup and attributes\<close>

definition fs_init :: "DibsFs \<Rightarrow> DibsFs" where
  "fs_init s = s\<lparr>inodes := inode_insert 1 [] (inodes s)\<rparr>"

definition entry_reply ::
  "('w, 's, 'm) env_scheme \<Rightarrow> (io_error + FileAttr) \<times> DibsFs \<Rightarrow> 'w \<Rightarrow> reply \<times> DibsFs \<times> 'w"
where
  "entry_reply os r w = (case r of
       (Inr attr, s) \<Rightarrow> (ReplyEntry attr, s, w)
     | (Inl e, s) \<Rightarrow> (ReplyError (errno_from os e), s, w))"

definition fs_lookup ::
  "('w, 's, 'm) env_scheme \<Rightarrow> u64 \<Rightarrow> string \<Rightarrow> DibsFs \<Rightarrow> 'w \<Rightarrow> reply \<times> DibsFs \<times> 'w"
where
  "fs_lookup os parent_ino name s w =
     (if parent_ino = 1 \<and> is_dibs_name name
      then (ReplyEntry (dibs_dir_attr os DIBS_DIR_INO w), s, w)
      else if parent_ino = DIBS_DIR_INO then
        (if name = DIBS_STATUS_NAME then
           (ReplyEntry (dibs_file_attr os DIBS_STATUS_INO (of_nat (length (status_json os s w))) w), s, w)
         else if name = DIBS_LOCKS_NAME then
           (ReplyEntry (dibs_file_attr os DIBS_LOCKS_INO (of_nat (length (locks_json os s))) w), s, w)
         else if name = DIBS_CONFLICTS_NAME then
           (ReplyEntry (dibs_dir_attr os DIBS_CONFLICTS_DIR_INO w), s, w)
         else (ReplyError ENOENT, s, w))
      else
        (let (rel, full) = resolve_path s parent_ino name
         in entry_reply os (lookup_and_register os rel full s w) w))"

text \<open>\<open>lstat\<close> of a path, answered with the inode number the kernel asked for.\<close>

definition attr_reply ::
  "('w, 's, 'm) env_scheme \<Rightarrow> path \<Rightarrow> u64 \<Rightarrow> DibsFs \<Rightarrow> 'w \<Rightarrow> reply \<times> DibsFs \<times> 'w"
where
  "attr_reply os full ino s w = (case lstat os full w of
       Inr st \<Rightarrow> (ReplyAttr ((stat_to_file_attr st)\<lparr>fa_ino := ino\<rparr>), s, w)
     | Inl e \<Rightarrow> (ReplyError (errno_from os e), s, w))"

definition fs_getattr ::
  "('w, 's, 'm) env_scheme \<Rightarrow> u64 \<Rightarrow> DibsFs \<Rightarrow> 'w \<Rightarrow> reply \<times> DibsFs \<times> 'w"
where
  "fs_getattr os ino s w =
     (if ino = 1 then attr_reply os (backing s) 1 s w
      else if ino = DIBS_DIR_INO then (ReplyAttr (dibs_dir_attr os DIBS_DIR_INO w), s, w)
      else if ino = DIBS_STATUS_INO then
        (ReplyAttr (dibs_file_attr os DIBS_STATUS_INO (of_nat (length (status_json os s w))) w), s, w)
      else if ino = DIBS_LOCKS_INO then
        (ReplyAttr (dibs_file_attr os DIBS_LOCKS_INO (of_nat (length (locks_json os s))) w), s, w)
      else if ino = DIBS_CONFLICTS_DIR_INO then
        (ReplyAttr (dibs_dir_attr os DIBS_CONFLICTS_DIR_INO w), s, w)
      else (case get_path (inodes s) ino of
          Some rel \<Rightarrow> attr_reply os (backing_path s rel) ino s w
        | None \<Rightarrow> (ReplyError ENOENT, s, w)))"

text \<open>The truncation part of \<open>setattr\<close>: the compare-and-swap check is made only when the request
  carries a file handle.\<close>

definition setattr_truncate ::
  "('w, 's, 'm) env_scheme \<Rightarrow> path \<Rightarrow> path \<Rightarrow> path \<Rightarrow> u64 option \<Rightarrow> fh option \<Rightarrow> DibsFs \<Rightarrow> 'w \<Rightarrow>
   errno option \<times> DibsFs \<times> 'w"
where
  "setattr_truncate os rel full c_path new_size handle s w = (case new_size of
       None \<Rightarrow> (None, s, w)
     | Some n \<Rightarrow>
         (case (case handle of
                  Some k \<Rightarrow>
                    let sid = (case h_get (file_handles s) k of Some h \<Rightarrow> h_sid h | None \<Rightarrow> 0);
                        actual_hash = unwrap_or [] (hash_file os full w);
                        (r, ct) = check_and_acquire_write rel k sid (file_handles s) actual_hash
                          (utc_now os w) (cas_table s)
                    in (r, s\<lparr>cas_table := ct\<rparr>)
                | None \<Rightarrow> (Inr (), s)) of
            (Inl e, s1) \<Rightarrow> (Some EIO, s1, w)
          | (Inr _, s1) \<Rightarrow>
              let fd = (case handle of
                          Some k \<Rightarrow> map_option h_real_fd (h_get (file_handles s1) k)
                        | None \<Rightarrow> None);
                  (rc, w1) = (case fd of
                      Some d \<Rightarrow> sys_ftruncate os d n w
                    | None \<Rightarrow> sys_truncate os c_path n w)
              in (map_option (errno_from os) rc, s1, w1)))"

definition to_timespec :: "TimeOrNow option \<Rightarrow> timespec" where
  "to_timespec t = (case t of
       Some (SpecificTime st) \<Rightarrow>
         let d = (if 0 \<le> st then st else 0)
         in \<lparr>tv_sec = d div 10 ^ 9, tv_nsec = d mod 10 ^ 9\<rparr>
     | Some Now \<Rightarrow> \<lparr>tv_sec = 0, tv_nsec = UTIME_NOW\<rparr>
     | None \<Rightarrow> \<lparr>tv_sec = 0, tv_nsec = UTIME_OMIT\<rparr>)"

text \<open>Calls made one after the other, up to the first that fails.\<close>

fun run_calls :: "('w \<Rightarrow> io_error option \<times> 'w) list \<Rightarrow> 'w \<Rightarrow> io_error option \<times> 'w" where
  "run_calls [] w = (None, w)"
| "run_calls (c # cs) w = (case c w of
       (Some e, w1) \<Rightarrow> (Some e, w1)
     | (None, w1) \<Rightarrow> run_calls cs w1)"

definition setattr_meta ::
  "('w, 's, 'm) env_scheme \<Rightarrow> path \<Rightarrow> u32 option \<Rightarrow> u32 option \<Rightarrow> u32 option \<Rightarrow> TimeOrNow option \<Rightarrow>
   TimeOrNow option \<Rightarrow> u32 option \<Rightarrow> 'w \<Rightarrow> io_error option \<times> 'w"
where
  "setattr_meta os c_path mode uid gid atime mtime flags w = run_calls
     [\<lambda>w. (case mode of Some m \<Rightarrow> sys_chmod os c_path (ucast m) w | None \<Rightarrow> (None, w)),
      \<lambda>w. (if uid \<noteq> None \<or> gid \<noteq> None
           then sys_chown os c_path (option_or (- 1) uid) (option_or (- 1) gid) w else (None, w)),
      \<lambda>w. (if atime \<noteq> None \<or> mtime \<noteq> None
           then sys_utimensat os c_path (to_timespec atime) (to_timespec mtime) w else (None, w)),
      \<lambda>w. (case flags of Some f \<Rightarrow> sys_chflags os c_path f w | None \<Rightarrow> (None, w))] w"

definition fs_setattr ::
  "('w, 's, 'm) env_scheme \<Rightarrow> u64 \<Rightarrow> u32 option \<Rightarrow> u32 option \<Rightarrow> u32 option \<Rightarrow> u64 option \<Rightarrow>
   TimeOrNow option \<Rightarrow> TimeOrNow option \<Rightarrow> fh option \<Rightarrow> u32 option \<Rightarrow> DibsFs \<Rightarrow> 'w \<Rightarrow>
   reply \<times> DibsFs \<times> 'w"
where
  "fs_setattr os ino mode uid gid new_size atime mtime handle flags s w =
     (if is_dibs_ino ino then (ReplyError EACCES, s, w)
      else case get_path (inodes s) ino of
        None \<Rightarrow> (ReplyError ENOENT, s, w)
      | Some rel \<Rightarrow>
          (let full = backing_path s rel in
          case path_to_cstring full of
            Inl _ \<Rightarrow> (ReplyError EINVAL, s, w)
          | Inr c_path \<Rightarrow>
              (case setattr_truncate os rel full c_path new_size handle s w of
                 (Some e, s1, w1) \<Rightarrow> (ReplyError e, s1, w1)
               | (None, s1, w1) \<Rightarrow>
                   (case setattr_meta os c_path mode uid gid atime mtime flags w1 of
                      (Some e, w2) \<Rightarrow> (ReplyError (errno_from os e), s1, w2)
                    | (None, w2) \<Rightarrow> attr_reply os full ino s1 w2))))"

section \<open>Open\<close>

text \<open>The read-only branch of \<open>open\<close>: hash the file, note the hash as the session's view.\<close>

definition open_read ::
  "('w, 's, 'm) env_scheme \<Rightarrow> int \<Rightarrow> path \<Rightarrow> path \<Rightarrow> i32 \<Rightarrow> sid \<Rightarrow> DibsFs \<Rightarrow> 'w \<Rightarrow> reply \<times> DibsFs \<times> 'w"
where
  "open_read os fd rel full raw_flags sid s w =
     (let h = ok (hash_file os full w);
          s1 = (case h of
                  Some x \<Rightarrow> s\<lparr>cas_table := record_reader rel x sid (utc_now os w) (cas_table s)\<rparr>
                | None \<Rightarrow> s);
          (k, ht) = h_alloc fd rel raw_flags h sid (file_handles s1)
      in (ReplyOpened k, s1\<lparr>file_handles := ht\<rparr>, w))"

text \<open>The write branch of \<open>open\<close>, after \<open>libc::open\<close> has returned \<open>fd\<close>; \<open>pre\<close> is the hash of the
  file before that call.\<close>

definition open_write ::
  "('w, 's, 'm) env_scheme \<Rightarrow> int \<Rightarrow> path \<Rightarrow> i32 \<Rightarrow> i32 \<Rightarrow> sid \<Rightarrow> hash option \<Rightarrow> DibsFs \<Rightarrow> 'w \<Rightarrow>
   reply \<times> DibsFs \<times> 'w"
where
  "open_write os fd rel raw_flags access_mode sid pre s w =
     (let handle_hash = (if access_mode = O_RDWR then pre else None);
          (k, ht) = h_alloc fd rel raw_flags handle_hash sid (file_handles s);
          s1 = s\<lparr>file_handles := ht\<rparr>;
          (r, ct) = (case pre of
              Some actual \<Rightarrow>
                check_and_acquire_write rel k sid ht actual (utc_now os w) (cas_table s1)
            | None \<Rightarrow> (Inr (), ensure_entry rel (utc_now os w) (cas_table s1)));
          s2 = s1\<lparr>cas_table := ct\<rparr>
      in case r of
           Inl e \<Rightarrow> (ReplyError EIO, s2\<lparr>file_handles := snd (h_remove k (file_handles s2))\<rparr>,
                     sys_close os fd w)
         | Inr _ \<Rightarrow>
             (ReplyOpened k,
              (if access_mode = O_RDWR then
                 (case pre of
                    Some h \<Rightarrow> s2\<lparr>cas_table := record_reader rel h sid (utc_now os w) (cas_table s2)\<rparr>
                  | None \<Rightarrow> s2)
               else s2), w))"

definition fs_open ::
  "('w, 's, 'm) env_scheme \<Rightarrow> u32 \<Rightarrow> u64 \<Rightarrow> i32 \<Rightarrow> DibsFs \<Rightarrow> 'w \<Rightarrow> reply \<times> DibsFs \<times> 'w"
where
  "fs_open os pid ino raw_flags s w =
     (if ino = DIBS_STATUS_INO \<or> ino = DIBS_LOCKS_INO then
        (let (k, ht) = h_alloc (- 1) ''.dibs/virtual'' raw_flags None 0 (file_handles s)
         in (ReplyOpened k, s\<lparr>file_handles := ht\<rparr>, w))
      else if is_dibs_ino ino then (ReplyError EACCES, s, w)
      else case get_path (inodes s) ino of
        None \<Rightarrow> (ReplyError ENOENT, s, w)
      | Some rel \<Rightarrow>
          (let full = backing_path s rel in
          case path_to_cstring full of
            Inl _ \<Rightarrow> (ReplyError EINVAL, s, w)
          | Inr c_path \<Rightarrow>
              (let access_mode = raw_flags AND O_ACCMODE;
                  sid = get_sid os pid w;
                  pre_open_hash = (if access_mode \<noteq> O_RDONLY then ok (hash_file os full w) else None)
              in (case sys_open os c_path raw_flags None w of
                   (Inl e, w1) \<Rightarrow> (ReplyError (errno_from os e), s, w1)
                 | (Inr fd, w1) \<Rightarrow>
                     if access_mode = O_RDONLY
                     then open_read os (int fd) rel full raw_flags sid s w1
                     else open_write os (int fd) rel raw_flags access_mode sid pre_open_hash s w1))))"

section \<open>Read and write\<close>

text \<open>The window \<open>bytes[start..min(start + size, len)]\<close> of a virtual file.\<close>

definition slice_reply :: "bytes \<Rightarrow> u64 \<Rightarrow> u32 \<Rightarrow> reply" where
  "slice_reply bs offset sz =
     (let start = unat offset in
      if length bs \<le> start then ReplyData []
      else let end_pos = min (start + unat sz) (length bs)
           in ReplyData (take (end_pos - start) (drop start bs)))"

definition fs_read ::
  "('w, 's, 'm) env_scheme \<Rightarrow> u64 \<Rightarrow> fh \<Rightarrow> u64 \<Rightarrow> u32 \<Rightarrow> DibsFs \<Rightarrow> 'w \<Rightarrow> reply \<times> DibsFs \<times> 'w"
where
  "fs_read os ino k offset sz s w =
     (if ino = DIBS_STATUS_INO then (slice_reply (bytes_of (status_json os s w)) offset sz, s, w)
      else if ino = DIBS_LOCKS_INO then (slice_reply (bytes_of (locks_json os s)) offset sz, s, w)
      else case h_get (file_handles s) k of
        None \<Rightarrow> (ReplyError EBADF, s, w)
      | Some handle \<Rightarrow>
          (case sys_pread os (h_real_fd handle) (unat sz) offset w of
             Inl e \<Rightarrow> (ReplyError (errno_from os e), s, w)
           | Inr buf \<Rightarrow> (ReplyData buf, s, w)))"

text \<open>Saving a rejected write, when a conflict directory is configured.\<close>

definition save_conflict ::
  "('w, 's, 'm) env_scheme \<Rightarrow> path option \<Rightarrow> path \<Rightarrow> bytes \<Rightarrow> 'w \<Rightarrow> 'w"
where
  "save_conflict os cdir rel_path data w = (case cdir of
       None \<Rightarrow> w
     | Some dir \<Rightarrow>
         (let fname = (case file_name rel_path of Some n \<Rightarrow> to_string_lossy n | None \<Rightarrow> ''unknown'');
              conflict_path = join dir (conflict_stamp os w @ ''_'' @ fname)
          in snd (std_fs_write os conflict_path data w)))"

definition fs_write ::
  "('w, 's, 'm) env_scheme \<Rightarrow> u64 \<Rightarrow> fh \<Rightarrow> u64 \<Rightarrow> bytes \<Rightarrow> DibsFs \<Rightarrow> 'w \<Rightarrow> reply \<times> DibsFs \<times> 'w"
where
  "fs_write os ino k offset data s w =
     (if is_dibs_ino ino then (ReplyError EACCES, s, w)
      else case h_get (file_handles s) k of
        None \<Rightarrow> (ReplyError EBADF, s, w)
      | Some h \<Rightarrow>
          (let rel_path = h_path h;
              (r, s1) = (if has_active_writer rel_path (cas_table s) then (Inr (), s)
                else let actual_hash = unwrap_or [] (hash_file os (backing_path s rel_path) w);
                         (r, ct) = check_and_acquire_write rel_path k (h_sid h) (file_handles s)
                           actual_hash (utc_now os w) (cas_table s)
                     in (r, s\<lparr>cas_table := ct\<rparr>))
          in (case r of
               Inl e \<Rightarrow> (ReplyError EIO, s1, save_conflict os (conflict_dir s1) rel_path data w)
             | Inr _ \<Rightarrow>
                 (let s2 = s1\<lparr>file_handles := h_modify k (\<lambda>h. h\<lparr>has_written := True\<rparr>) (file_handles s1)\<rparr>
                 in case sys_pwrite os (h_real_fd h) data offset w of
                      (Inl e, w1) \<Rightarrow> (ReplyError (errno_from os e), s2, w1)
                    | (Inr n, w1) \<Rightarrow> (ReplyWritten (of_nat n), s2, w1)))))"

definition fs_flush ::
  "('w, 's, 'm) env_scheme \<Rightarrow> u64 \<Rightarrow> fh \<Rightarrow> DibsFs \<Rightarrow> 'w \<Rightarrow> reply \<times> DibsFs \<times> 'w"
where
  "fs_flush os ino k s w =
     (if is_dibs_ino ino then (ReplyOk, s, w)
      else case h_get (file_handles s) k of
        None \<Rightarrow> (ReplyOk, s, w)
      | Some h \<Rightarrow>
          if has_written h then
            (let rel_path = h_path h;
                 s1 = (case hash_file os (backing_path s rel_path) w of
                     Inr new_hash \<Rightarrow>
                       s\<lparr>cas_table := update_reader (h_sid h) rel_path new_hash (utc_now os w) (cas_table s),
                         file_handles := h_modify k
                           (\<lambda>h. h\<lparr>hash_at_open := Some new_hash, has_written := False\<rparr>) (file_handles s)\<rparr>
                   | Inl _ \<Rightarrow> s)
             in (ReplyOk, s1\<lparr>cas_table := release_write rel_path k (cas_table s1)\<rparr>, w))
          else (ReplyOk, s, w))"

definition fs_release ::
  "('w, 's, 'm) env_scheme \<Rightarrow> fh \<Rightarrow> DibsFs \<Rightarrow> 'w \<Rightarrow> reply \<times> DibsFs \<times> 'w"
where
  "fs_release os k s w =
     (let (r, ht) = h_remove k (file_handles s);
          s1 = s\<lparr>file_handles := ht\<rparr>
      in case r of
           None \<Rightarrow> (ReplyOk, s1, w)
         | Some handle \<Rightarrow>
             (ReplyOk, s1\<lparr>cas_table := release_write (h_path handle) k (cas_table s1)\<rparr>,
              if 0 \<le> h_real_fd handle then sys_close os (h_real_fd handle) w else w))"

section \<open>Directories\<close>

definition fs_opendir ::
  "('w, 's, 'm) env_scheme \<Rightarrow> u64 \<Rightarrow> DibsFs \<Rightarrow> 'w \<Rightarrow> reply \<times> DibsFs \<times> 'w"
where
  "fs_opendir os ino s w =
     (if ino = DIBS_DIR_INO \<or> ino = DIBS_CONFLICTS_DIR_INO then
        (let (k, dt) = dh_alloc (- 1) ''.dibs'' (dir_handles s)
         in (ReplyOpened k, s\<lparr>dir_handles := dt\<rparr>, w))
      else case (if ino = 1 then Some [] else get_path (inodes s) ino) of
        None \<Rightarrow> (ReplyError ENOENT, s, w)
      | Some rel \<Rightarrow>
          (case path_to_cstring (backing_path s rel) of
             Inl _ \<Rightarrow> (ReplyError EINVAL, s, w)
           | Inr c_path \<Rightarrow>
               (case sys_opendir os c_path w of
                  (Inl e, w1) \<Rightarrow> (ReplyError (errno_from os e), s, w1)
                | (Inr dp, w1) \<Rightarrow>
                    let fd = sys_dirfd os dp w1;
                        (real_fd, w2) = sys_dup os fd w1;
                        w3 = sys_closedir os dp w2;
                        (k, dt) = dh_alloc real_fd rel (dir_handles s)
                    in (ReplyOpened k, s\<lparr>dir_handles := dt\<rparr>, w3))))"

text \<open>
  The final loop of \<open>readdir\<close>: entries from position \<open>offset\<close> on are offered to the reply buffer,
  each with the position of its successor, until the buffer refuses one. \<open>full\<close> is fuser's
  \<open>ReplyDirectory::add\<close>: given what was added so far, does it refuse the next entry.
\<close>

fun add_entries :: "(dirent list \<Rightarrow> dirent \<Rightarrow> bool) \<Rightarrow> dirent list \<Rightarrow> dirent list \<Rightarrow> dirent list" where
  "add_entries full acc [] = acc"
| "add_entries full acc (e # es) = (if full acc e then acc else add_entries full (acc @ [e]) es)"

definition numbered :: "(u64 \<times> FileType \<times> string) list \<Rightarrow> dirent list" where
  "numbered es = map (\<lambda>(i, ino, kind, name).
     \<lparr>de_ino = ino, de_offset = of_nat (i + 1), de_kind = kind, de_name = name\<rparr>)
     (zip [0 ..< length es] es)"

definition dir_reply ::
  "(dirent list \<Rightarrow> dirent \<Rightarrow> bool) \<Rightarrow> u64 \<Rightarrow> (u64 \<times> FileType \<times> string) list \<Rightarrow> reply"
where
  "dir_reply full offset es = ReplyDirectory (add_entries full [] (drop (unat offset) (numbered es)))"

definition dibs_dir_entries :: "(u64 \<times> FileType \<times> string) list" where
  "dibs_dir_entries =
     [(DIBS_DIR_INO, Directory, ''.''), (1, Directory, ''..''),
      (DIBS_STATUS_INO, RegularFile, DIBS_STATUS_NAME),
      (DIBS_LOCKS_INO, RegularFile, DIBS_LOCKS_NAME),
      (DIBS_CONFLICTS_DIR_INO, Directory, DIBS_CONFLICTS_NAME)]"

definition dibs_conflicts_entries :: "(u64 \<times> FileType \<times> string) list" where
  "dibs_conflicts_entries =
     [(DIBS_CONFLICTS_DIR_INO, Directory, ''.''), (DIBS_DIR_INO, Directory, ''..'')]"

text \<open>The loop over the backing directory: unreadable entries and the internal conflict directory
  are skipped, the rest is registered in the inode table.\<close>

fun scan_dir ::
  "('w, 's, 'm) env_scheme \<Rightarrow> path \<Rightarrow> path \<Rightarrow> 'w \<Rightarrow> (io_error + string) list \<Rightarrow> InodeTable \<Rightarrow>
   (u64 \<times> FileType \<times> string) list \<times> InodeTable"
where
  "scan_dir os back rel w [] t = ([], t)"
| "scan_dir os back rel w (Inl e # es) t = scan_dir os back rel w es t"
| "scan_dir os back rel w (Inr raw # es) t =
     (let name = to_string_lossy raw in
      if name = ''.dibs-conflicts'' then scan_dir os back rel w es t
      else let child_rel = join rel name in
           case lstat os (join back child_rel) w of
             Inl e \<Rightarrow> scan_dir os back rel w es t
           | Inr st \<Rightarrow>
               let attr = stat_to_file_attr st;
                   (rest, t') = scan_dir os back rel w es (inode_insert (fa_ino attr) child_rel t)
               in ((fa_ino attr, fa_kind attr, name) # rest, t'))"

definition parent_ino_of :: "DibsFs \<Rightarrow> u64 \<Rightarrow> path \<Rightarrow> u64" where
  "parent_ino_of s ino rel =
     (if ino = 1 then 1
      else let parent_path = option_or [] (parent rel)
           in if parent_path = [] then 1 else option_or 1 (get_ino (inodes s) parent_path))"

definition fs_readdir ::
  "('w, 's, 'm) env_scheme \<Rightarrow> (dirent list \<Rightarrow> dirent \<Rightarrow> bool) \<Rightarrow> u64 \<Rightarrow> u64 \<Rightarrow> DibsFs \<Rightarrow> 'w \<Rightarrow>
   reply \<times> DibsFs \<times> 'w"
where
  "fs_readdir os full ino offset s w =
     (if ino = DIBS_DIR_INO then (dir_reply full offset dibs_dir_entries, s, w)
      else if ino = DIBS_CONFLICTS_DIR_INO then (dir_reply full offset dibs_conflicts_entries, s, w)
      else case (if ino = 1 then Some [] else get_path (inodes s) ino) of
        None \<Rightarrow> (ReplyError ENOENT, s, w)
      | Some rel \<Rightarrow>
          (case std_read_dir os (backing_path s rel) w of
             Inl e \<Rightarrow> (ReplyError (errno_from os e), s, w)
           | Inr es \<Rightarrow>
               let dots = [(ino, Directory, ''.''), (parent_ino_of s ino rel, Directory, ''..'')];
                   virt = (if ino = 1 then [(DIBS_DIR_INO, Directory, DIBS_DIR_NAME)] else []);
                   (found, t) = scan_dir os (backing s) rel w es (inodes s)
               in (dir_reply full offset (dots @ virt @ found), s\<lparr>inodes := t\<rparr>, w)))"

definition fs_releasedir ::
  "('w, 's, 'm) env_scheme \<Rightarrow> fh \<Rightarrow> DibsFs \<Rightarrow> 'w \<Rightarrow> reply \<times> DibsFs \<times> 'w"
where
  "fs_releasedir os k s w =
     (let (r, dt) = dh_remove k (dir_handles s);
          s1 = s\<lparr>dir_handles := dt\<rparr>
      in case r of
           None \<Rightarrow> (ReplyOk, s1, w)
         | Some handle \<Rightarrow>
             (ReplyOk, s1, if 0 \<le> dh_real_fd handle then sys_close os (dh_real_fd handle) w else w))"

section \<open>Creating and removing\<close>

definition fs_create ::
  "('w, 's, 'm) env_scheme \<Rightarrow> u32 \<Rightarrow> u64 \<Rightarrow> string \<Rightarrow> u32 \<Rightarrow> i32 \<Rightarrow> DibsFs \<Rightarrow> 'w \<Rightarrow> reply \<times> DibsFs \<times> 'w"
where
  "fs_create os pid parent_ino name mode flags s w =
     (if is_dibs_ino parent_ino then (ReplyError EACCES, s, w)
      else let (rel, full) = resolve_path s parent_ino name in
        case path_to_cstring full of
          Inl _ \<Rightarrow> (ReplyError EINVAL, s, w)
        | Inr c_path \<Rightarrow>
            (case sys_open os c_path (flags OR O_CREAT) (Some mode) w of
               (Inl e, w1) \<Rightarrow> (ReplyError (errno_from os e), s, w1)
             | (Inr fd, w1) \<Rightarrow>
                 (case fstat os (int fd) w1 of
                    Inl e \<Rightarrow> (ReplyError (errno_from os e), s, sys_close os (int fd) w1)
                  | Inr st \<Rightarrow>
                      let attr = stat_to_file_attr st;
                          s1 = s\<lparr>inodes := inode_insert (fa_ino attr) rel (inodes s)\<rparr>;
                          sid = get_sid os pid w1;
                          hash = unwrap_or [] (hash_file os full w1);
                          ct = ensure_entry rel (utc_now os w1)
                            (record_reader rel hash sid (utc_now os w1) (cas_table s1));
                          (k, ht) = h_alloc (int fd) rel flags (Some hash) sid (file_handles s1)
                      in (ReplyCreated attr k, s1\<lparr>cas_table := ct, file_handles := ht\<rparr>, w1))))"

definition fs_mkdir ::
  "('w, 's, 'm) env_scheme \<Rightarrow> u64 \<Rightarrow> string \<Rightarrow> u32 \<Rightarrow> DibsFs \<Rightarrow> 'w \<Rightarrow> reply \<times> DibsFs \<times> 'w"
where
  "fs_mkdir os parent_ino name mode s w =
     (if is_dibs_ino parent_ino then (ReplyError EACCES, s, w)
      else let (rel, full) = resolve_path s parent_ino name in
        case path_to_cstring full of
          Inl _ \<Rightarrow> (ReplyError EINVAL, s, w)
        | Inr c_path \<Rightarrow>
            (case sys_mkdir os c_path (ucast mode) w of
               (Some e, w1) \<Rightarrow> (ReplyError (errno_from os e), s, w1)
             | (None, w1) \<Rightarrow> entry_reply os (lookup_and_register os rel full s w1) w1))"

text \<open>The check of \<open>unlink\<close> and \<open>rename\<close>: does the session hold a hash that the file no longer
  has? A file that cannot be hashed passes.\<close>

definition view_conflict ::
  "('w, 's, 'm) env_scheme \<Rightarrow> sid \<Rightarrow> path \<Rightarrow> path \<Rightarrow> CasTable \<Rightarrow> 'w \<Rightarrow> bool"
where
  "view_conflict os sid rel full t w = (case get_reader_hash sid rel t of
       None \<Rightarrow> False
     | Some reader_hash \<Rightarrow> (case hash_file os full w of
         Inl _ \<Rightarrow> False
       | Inr actual_hash \<Rightarrow> reader_hash \<noteq> actual_hash))"

definition fs_unlink ::
  "('w, 's, 'm) env_scheme \<Rightarrow> u32 \<Rightarrow> u64 \<Rightarrow> string \<Rightarrow> DibsFs \<Rightarrow> 'w \<Rightarrow> reply \<times> DibsFs \<times> 'w"
where
  "fs_unlink os pid parent_ino name s w =
     (if is_dibs_ino parent_ino then (ReplyError EACCES, s, w)
      else let (rel, full) = resolve_path s parent_ino name;
               sid = get_sid os pid w in
        if view_conflict os sid rel full (cas_table s) w then (ReplyError EIO, s, w)
        else case path_to_cstring full of
          Inl _ \<Rightarrow> (ReplyError EINVAL, s, w)
        | Inr c_path \<Rightarrow>
            (case sys_unlink os c_path w of
               (Some e, w1) \<Rightarrow> (ReplyError (errno_from os e), s, w1)
             | (None, w1) \<Rightarrow>
                 (ReplyOk, s\<lparr>cas_table := cas_remove rel (cas_table s),
                            inodes := remove_by_path rel (inodes s)\<rparr>, w1)))"

definition fs_rmdir ::
  "('w, 's, 'm) env_scheme \<Rightarrow> u64 \<Rightarrow> string \<Rightarrow> DibsFs \<Rightarrow> 'w \<Rightarrow> reply \<times> DibsFs \<times> 'w"
where
  "fs_rmdir os parent_ino name s w =
     (if is_dibs_ino parent_ino then (ReplyError EACCES, s, w)
      else let (rel, full) = resolve_path s parent_ino name in
        case path_to_cstring full of
          Inl _ \<Rightarrow> (ReplyError EINVAL, s, w)
        | Inr c_path \<Rightarrow>
            (case sys_rmdir os c_path w of
               (Some e, w1) \<Rightarrow> (ReplyError (errno_from os e), s, w1)
             | (None, w1) \<Rightarrow> (ReplyOk, s\<lparr>inodes := remove_by_path rel (inodes s)\<rparr>, w1)))"

definition fs_rename ::
  "('w, 's, 'm) env_scheme \<Rightarrow> u32 \<Rightarrow> u64 \<Rightarrow> string \<Rightarrow> u64 \<Rightarrow> string \<Rightarrow> DibsFs \<Rightarrow> 'w \<Rightarrow>
   reply \<times> DibsFs \<times> 'w"
where
  "fs_rename os pid parent_ino name newparent newname s w =
     (if is_dibs_ino parent_ino \<or> is_dibs_ino newparent then (ReplyError EACCES, s, w)
      else let (old_rel, old_full) = resolve_path s parent_ino name;
               (new_rel, new_full) = resolve_path s newparent newname;
               sid = get_sid os pid w in
        if view_conflict os sid old_rel old_full (cas_table s) w then (ReplyError EIO, s, w)
        else if std_exists os new_full w \<and> view_conflict os sid new_rel new_full (cas_table s) w
        then (ReplyError EIO, s, w)
        else case path_to_cstring old_full of
          Inl _ \<Rightarrow> (ReplyError EINVAL, s, w)
        | Inr old_c \<Rightarrow> (case path_to_cstring new_full of
            Inl _ \<Rightarrow> (ReplyError EINVAL, s, w)
          | Inr new_c \<Rightarrow>
              (case sys_rename os old_c new_c w of
                 (Some e, w1) \<Rightarrow> (ReplyError (errno_from os e), s, w1)
               | (None, w1) \<Rightarrow>
                   (ReplyOk, s\<lparr>inodes := inode_rename old_rel new_rel (inodes s),
                              cas_table := cas_rename old_rel new_rel (cas_table s)\<rparr>, w1))))"

definition fs_symlink ::
  "('w, 's, 'm) env_scheme \<Rightarrow> u64 \<Rightarrow> string \<Rightarrow> path \<Rightarrow> DibsFs \<Rightarrow> 'w \<Rightarrow> reply \<times> DibsFs \<times> 'w"
where
  "fs_symlink os parent_ino link_name target s w =
     (if is_dibs_ino parent_ino then (ReplyError EACCES, s, w)
      else let (rel, full) = resolve_path s parent_ino link_name in
        case path_to_cstring target of
          Inl _ \<Rightarrow> (ReplyError EINVAL, s, w)
        | Inr c_target \<Rightarrow> (case path_to_cstring full of
            Inl _ \<Rightarrow> (ReplyError EINVAL, s, w)
          | Inr c_link \<Rightarrow>
              (case sys_symlink os c_target c_link w of
                 (Some e, w1) \<Rightarrow> (ReplyError (errno_from os e), s, w1)
               | (None, w1) \<Rightarrow> entry_reply os (lookup_and_register os rel full s w1) w1)))"

section \<open>The rest\<close>

definition fs_readlink ::
  "('w, 's, 'm) env_scheme \<Rightarrow> u64 \<Rightarrow> DibsFs \<Rightarrow> 'w \<Rightarrow> reply \<times> DibsFs \<times> 'w"
where
  "fs_readlink os ino s w = (case get_path (inodes s) ino of
       None \<Rightarrow> (ReplyError ENOENT, s, w)
     | Some rel \<Rightarrow> (case std_read_link os (backing_path s rel) w of
         Inr target \<Rightarrow> (ReplyData (bytes_of target), s, w)
       | Inl e \<Rightarrow> (ReplyError (errno_from os e), s, w)))"

definition fs_link :: "DibsFs \<Rightarrow> 'w \<Rightarrow> reply \<times> DibsFs \<times> 'w" where
  "fs_link s w = (ReplyError ENOTSUP, s, w)"

definition fs_statfs :: "('w, 's, 'm) env_scheme \<Rightarrow> DibsFs \<Rightarrow> 'w \<Rightarrow> reply \<times> DibsFs \<times> 'w" where
  "fs_statfs os s w = (case path_to_cstring (backing s) of
       Inl _ \<Rightarrow> (ReplyError EINVAL, s, w)
     | Inr c_path \<Rightarrow> (case sys_statfs os c_path w of
         Inr st \<Rightarrow> (ReplyStatfs (f_blocks st) (f_bfree st) (f_bavail st) (f_files st) (f_ffree st)
                      (f_bsize st) 255 (f_bsize st), s, w)
       | Inl e \<Rightarrow> (ReplyError (errno_from os e), s, w)))"

definition fs_access ::
  "('w, 's, 'm) env_scheme \<Rightarrow> u64 \<Rightarrow> i32 \<Rightarrow> DibsFs \<Rightarrow> 'w \<Rightarrow> reply \<times> DibsFs \<times> 'w"
where
  "fs_access os ino amode s w =
     (if is_dibs_ino ino then (ReplyOk, s, w)
      else if ino = 1 then (ReplyOk, s, w)
      else case get_path (inodes s) ino of
        None \<Rightarrow> (ReplyError ENOENT, s, w)
      | Some rel \<Rightarrow> (case path_to_cstring (backing_path s rel) of
          Inl _ \<Rightarrow> (ReplyError EINVAL, s, w)
        | Inr c_path \<Rightarrow> (case sys_access os c_path amode w of
            None \<Rightarrow> (ReplyOk, s, w)
          | Some e \<Rightarrow> (ReplyError (errno_from os e), s, w))))"

end
