(* ===== verification/Fs_Steps.thy ===== *)
theory Fs_Steps
  imports Dibs_Fs
begin

text \<open>
  The file system as a state machine: the kernel's requests, the eviction passes and whatever
  other processes do to the world, in any order; and the invariant that holds in every state.
\<close>

section \<open>Requests and events\<close>

datatype request =
    ReqLookup u64 string
  | ReqGetattr u64
  | ReqSetattr u64 "u32 option" "u32 option" "u32 option" "u64 option" "TimeOrNow option"
      "TimeOrNow option" "fh option" "u32 option"
  | ReqOpen u32 u64 i32
  | ReqRead u64 fh u64 u32
  | ReqWrite u64 fh u64 bytes
  | ReqFlush u64 fh
  | ReqRelease fh
  | ReqOpendir u64
  | ReqReaddir "dirent list \<Rightarrow> dirent \<Rightarrow> bool" u64 u64
  | ReqReleasedir fh
  | ReqCreate u32 u64 string u32 i32
  | ReqMkdir u64 string u32
  | ReqUnlink u32 u64 string
  | ReqRmdir u64 string
  | ReqRename u32 u64 string u64 string
  | ReqSymlink u64 string path
  | ReqReadlink u64
  | ReqLink
  | ReqStatfs
  | ReqAccess u64 i32

fun handle :: "('w, 's, 'm) env_scheme \<Rightarrow> request \<Rightarrow> DibsFs \<Rightarrow> 'w \<Rightarrow> reply \<times> DibsFs \<times> 'w" where
  "handle os (ReqLookup p n) s w = fs_lookup os p n s w"
| "handle os (ReqGetattr i) s w = fs_getattr os i s w"
| "handle os (ReqSetattr i m u g sz at mt k fl) s w = fs_setattr os i m u g sz at mt k fl s w"
| "handle os (ReqOpen pid i fl) s w = fs_open os pid i fl s w"
| "handle os (ReqRead i k off n) s w = fs_read os i k off n s w"
| "handle os (ReqWrite i k off d) s w = fs_write os i k off d s w"
| "handle os (ReqFlush i k) s w = fs_flush os i k s w"
| "handle os (ReqRelease k) s w = fs_release os k s w"
| "handle os (ReqOpendir i) s w = fs_opendir os i s w"
| "handle os (ReqReaddir full i off) s w = fs_readdir os full i off s w"
| "handle os (ReqReleasedir k) s w = fs_releasedir os k s w"
| "handle os (ReqCreate pid p n m fl) s w = fs_create os pid p n m fl s w"
| "handle os (ReqMkdir p n m) s w = fs_mkdir os p n m s w"
| "handle os (ReqUnlink pid p n) s w = fs_unlink os pid p n s w"
| "handle os (ReqRmdir p n) s w = fs_rmdir os p n s w"
| "handle os (ReqRename pid p n p' n') s w = fs_rename os pid p n p' n' s w"
| "handle os (ReqSymlink p n t) s w = fs_symlink os p n t s w"
| "handle os (ReqReadlink i) s w = fs_readlink os i s w"
| "handle os ReqLink s w = fs_link s w"
| "handle os ReqStatfs s w = fs_statfs os s w"
| "handle os (ReqAccess i m) s w = fs_access os i m s w"

text \<open>
  One event: a request; an eviction pass with the given cutoff, undisturbed; the single steps of a
  pass that is overtaken by requests, that is, the removal of one path it had collected earlier, and
  the dropping of reader entries; or a change of the world by someone else (another process, the
  passage of time).
\<close>

datatype 'w event = Request request | Evict DateTime | EvictEntry path | EvictReaders DateTime
  | External 'w

fun fs_step :: "('w, 's, 'm) env_scheme \<Rightarrow> 'w event \<Rightarrow> DibsFs \<times> 'w \<Rightarrow> DibsFs \<times> 'w" where
  "fs_step os (Request r) (s, w) = snd (handle os r s w)"
| "fs_step os (Evict cutoff) (s, w) = (s\<lparr>cas_table := evict_before cutoff (cas_table s)\<rparr>, w)"
| "fs_step os (EvictEntry p) (s, w) = (s\<lparr>cas_table := evict_entry p (cas_table s)\<rparr>, w)"
| "fs_step os (EvictReaders cutoff) (s, w) = (s\<lparr>cas_table := drop_readers cutoff (cas_table s)\<rparr>, w)"
| "fs_step os (External w') (s, w) = (s, w')"

definition fs_run :: "('w, 's, 'm) env_scheme \<Rightarrow> 'w event list \<Rightarrow> DibsFs \<times> 'w \<Rightarrow> DibsFs \<times> 'w" where
  "fs_run os evs sw = fold (fs_step os) evs sw"

section \<open>The invariant\<close>

text \<open>Every write owner is a handle number that was issued.\<close>

definition owners_issued :: "HandleTable \<Rightarrow> CasTable \<Rightarrow> bool" where
  "owners_issued ht ct \<longleftrightarrow> (\<forall>p k. owner_of ct p = Some k \<longrightarrow> 0 < k \<and> k < next_fh ht)"

definition fs_inv :: "DibsFs \<Rightarrow> bool" where
  "fs_inv s \<longleftrightarrow> inodes_consistent (inodes s) \<and> handles_ok (file_handles s) \<and>
     dir_handles_ok (dir_handles s) \<and> owners_issued (file_handles s) (cas_table s)"

text \<open>What is asked of an event: the handle counters have not reached their last value, and a
  handle passed to \<open>setattr\<close> is one the file system issued.\<close>

fun issues_ok :: "DibsFs \<times> 'w \<Rightarrow> 'w event \<Rightarrow> bool" where
  "issues_ok (s, w) (Request (ReqOpen pid i fl)) \<longleftrightarrow> next_fh (file_handles s) \<noteq> - 1"
| "issues_ok (s, w) (Request (ReqCreate pid p n m fl)) \<longleftrightarrow> next_fh (file_handles s) \<noteq> - 1"
| "issues_ok (s, w) (Request (ReqOpendir i)) \<longleftrightarrow> dnext_fh (dir_handles s) \<noteq> - 1"
| "issues_ok (s, w) (Request (ReqSetattr i m u g sz at mt k fl)) \<longleftrightarrow>
     (case k of None \<Rightarrow> True | Some k \<Rightarrow> 0 < k \<and> k < next_fh (file_handles s))"
| "issues_ok (s, w) _ \<longleftrightarrow> True"

lemma owners_issuedD: "owners_issued ht ct \<Longrightarrow> owner_of ct p = Some k \<Longrightarrow> 0 < k \<and> k < next_fh ht"
  by (simp add: owners_issued_def)

lemma owners_issued_stutter [simp]:
  "owners_issued ht (record_reader p h s now ct) = owners_issued ht ct"
  "owners_issued ht (update_reader s p h now ct) = owners_issued ht ct"
  "owners_issued ht (ensure_entry p now ct) = owners_issued ht ct"
  "owners_issued ht (evict_before cutoff ct) = owners_issued ht ct"
  "owners_issued (h_modify k f ht) ct = owners_issued ht ct"
  "owners_issued (snd (h_remove k ht)) ct = owners_issued ht ct"
  by (simp_all add: owners_issued_def cas_occ)

lemma owners_issued_alloc [dibs_inv]:
  "owners_issued ht ct \<Longrightarrow> next_fh ht \<noteq> - 1 \<Longrightarrow>
   owners_issued (snd (h_alloc fd p fl ha sd ht)) ct"
  by (auto simp: owners_issued_def intro: succ_less)

lemma owners_issued_acquire [dibs_inv]:
  "owners_issued ht ct \<Longrightarrow> 0 < k \<Longrightarrow> k < next_fh ht \<Longrightarrow>
   owners_issued ht (snd (check_and_acquire_write p k sd hs h now ct))"
  by (auto simp: owners_issued_def cas_occ split: if_splits)

lemma owners_issued_release [dibs_inv]:
  "owners_issued ht ct \<Longrightarrow> owners_issued ht (release_write p k ct)"
  by (auto simp: owners_issued_def cas_occ split: if_splits)

lemma owners_issued_evict_entry [dibs_inv]:
  "owners_issued ht ct \<Longrightarrow> owners_issued ht (evict_entry p ct)"
  by (auto simp: owners_issued_def evict_entry_occ split: if_splits)

lemma owners_issued_drop_readers [simp]:
  "owners_issued ht (drop_readers cutoff ct) = owners_issued ht ct"
  by (simp add: owners_issued_def)

lemma owners_issued_remove [dibs_inv]:
  "owners_issued ht ct \<Longrightarrow> owners_issued ht (cas_remove p ct)"
  by (auto simp: owners_issued_def cas_occ split: if_splits)

lemma owners_issued_rename [dibs_inv]:
  "owners_issued ht ct \<Longrightarrow> owners_issued ht (cas_rename p q ct)"
  by (auto simp: owners_issued_def cas_occ owner_move split: if_splits)

lemma handles_ok_written [dibs_inv]:
  "handles_ok ht \<Longrightarrow> handles_ok (h_modify k (has_written_update f) ht)"
  "handles_ok ht \<Longrightarrow> handles_ok (h_modify k (\<lambda>h. h\<lparr>hash_at_open := x, has_written := b\<rparr>) ht)"
  by (auto intro: h_modify_ok)

lemma handles_ok_next: "handles_ok ht \<Longrightarrow> 0 < next_fh ht"
  by (simp add: handles_ok_def)

lemma handles_ok_get: "handles_ok ht \<Longrightarrow> h_get ht k = Some h \<Longrightarrow> 0 < k \<and> k < next_fh ht"
  by (simp add: handles_ok_def)

section \<open>Every handler keeps the invariant\<close>

lemma scan_dir_consistent:
  "inodes_consistent t \<Longrightarrow> inodes_consistent (snd (scan_dir os bk rel w es t))"
  by (induction os bk rel w es t rule: scan_dir.induct)
     (auto simp: Let_def dibs_inv split_beta split: sum.splits)

lemma register_inv:
  "fs_inv s \<Longrightarrow> fs_inv (snd (lookup_and_register os rel full s w))"
  by (auto simp: lookup_and_register_def fs_inv_def Let_def dibs_inv split: sum.splits)

lemma entry_reply_state [simp]: "fst (snd (entry_reply os r w)) = snd r"
  by (simp add: entry_reply_def split: prod.splits sum.splits)

lemma attr_reply_state [simp]: "snd (attr_reply os full ino s w) = (s, w)"
  by (simp add: attr_reply_def split: sum.splits)

lemma lookup_inv: "fs_inv s \<Longrightarrow> fs_inv (fst (snd (fs_lookup os p n s w)))"
  by (simp add: fs_lookup_def register_inv split: prod.splits)

lemma getattr_state [dibs_frame]: "snd (fs_getattr os i s w) = (s, w)"
  by (simp add: fs_getattr_def split: option.splits)

lemma truncate_inv:
  "fs_inv s \<Longrightarrow> (\<And>k. hnd = Some k \<Longrightarrow> 0 < k \<and> k < next_fh (file_handles s)) \<Longrightarrow>
   fs_inv (fst (snd (setattr_truncate os rel full c sz hnd s w)))"
  by (auto simp: setattr_truncate_def fs_inv_def Let_def split_beta dibs_inv
      split: option.splits sum.splits prod.splits)

lemma setattr_state:
  "fst (snd (fs_setattr os i m u g sz at mt k fl s w)) = s \<or>
   (\<exists>rel. get_path (inodes s) i = Some rel \<and>
     fst (snd (fs_setattr os i m u g sz at mt k fl s w)) =
     fst (snd (setattr_truncate os rel (backing_path s rel) (backing_path s rel) sz k s w)))"
  by (auto simp: fs_setattr_def Let_def split: option.splits sum.splits prod.splits)

lemma open_read_inv:
  "fs_inv s \<Longrightarrow> next_fh (file_handles s) \<noteq> - 1 \<Longrightarrow>
   fs_inv (fst (snd (open_read os fd rel full fl sd s w)))"
  by (auto simp: open_read_def fs_inv_def Let_def split_beta dibs_inv split: option.splits)

lemma open_write_inv:
  "fs_inv s \<Longrightarrow> next_fh (file_handles s) \<noteq> - 1 \<Longrightarrow>
   fs_inv (fst (snd (open_write os fd rel fl am sd pre s w)))"
  by (auto simp: open_write_def fs_inv_def Let_def split_beta dibs_inv handles_ok_next less_succ_self
      split: option.splits sum.splits)

lemma setattr_inv:
  assumes "fs_inv s" and "issues_ok (s, w) (Request (ReqSetattr i m u g sz at mt k fl))"
  shows "fs_inv (fst (snd (fs_setattr os i m u g sz at mt k fl s w)))"
proof -
  have "fs_inv (fst (snd (setattr_truncate os rel full c sz k s w)))" for rel full c
    using assms by (intro truncate_inv) auto
  then show ?thesis
    using setattr_state [of os i m u g sz at mt k fl s w] assms(1) by auto
qed

lemma open_inv:
  "fs_inv s \<Longrightarrow> next_fh (file_handles s) \<noteq> - 1 \<Longrightarrow> fs_inv (fst (snd (fs_open os pid i fl s w)))"
  by (auto simp: fs_open_def Let_def split_beta open_read_inv open_write_inv
      split: option.splits sum.splits prod.splits)
     (auto simp: fs_inv_def dibs_inv)

lemma read_state [dibs_frame]: "snd (fs_read os i k off n s w) = (s, w)"
  by (simp add: fs_read_def split: option.splits sum.splits)

lemma write_inv: "fs_inv s \<Longrightarrow> fs_inv (fst (snd (fs_write os i k off d s w)))"
  by (auto simp: fs_write_def fs_inv_def Let_def split_beta dibs_inv handles_ok_get
      split: option.splits sum.splits prod.splits)

lemma flush_inv: "fs_inv s \<Longrightarrow> fs_inv (fst (snd (fs_flush os i k s w)))"
  by (auto simp: fs_flush_def fs_inv_def Let_def dibs_inv split: option.splits sum.splits)

lemma release_inv: "fs_inv s \<Longrightarrow> fs_inv (fst (snd (fs_release os k s w)))"
  by (auto simp: fs_release_def fs_inv_def Let_def split_beta dibs_inv split: option.splits)

lemma opendir_inv:
  "fs_inv s \<Longrightarrow> dnext_fh (dir_handles s) \<noteq> - 1 \<Longrightarrow> fs_inv (fst (snd (fs_opendir os i s w)))"
  by (auto simp: fs_opendir_def fs_inv_def Let_def split_beta dibs_inv
      split: option.splits sum.splits prod.splits)

lemma readdir_inv: "fs_inv s \<Longrightarrow> fs_inv (fst (snd (fs_readdir os full i off s w)))"
  by (auto simp: fs_readdir_def fs_inv_def Let_def split_beta scan_dir_consistent
      split: option.splits sum.splits)

lemma releasedir_inv: "fs_inv s \<Longrightarrow> fs_inv (fst (snd (fs_releasedir os k s w)))"
  by (auto simp: fs_releasedir_def fs_inv_def Let_def split_beta dibs_inv split: option.splits)

lemma create_inv:
  "fs_inv s \<Longrightarrow> next_fh (file_handles s) \<noteq> - 1 \<Longrightarrow>
   fs_inv (fst (snd (fs_create os pid p n m fl s w)))"
  by (auto simp: fs_create_def fs_inv_def Let_def split_beta dibs_inv
      split: option.splits sum.splits prod.splits)

lemma mkdir_inv: "fs_inv s \<Longrightarrow> fs_inv (fst (snd (fs_mkdir os p n m s w)))"
  by (simp add: fs_mkdir_def Let_def split_beta register_inv split: option.splits sum.splits prod.splits)

lemma unlink_inv: "fs_inv s \<Longrightarrow> fs_inv (fst (snd (fs_unlink os pid p n s w)))"
  by (auto simp: fs_unlink_def fs_inv_def Let_def split_beta dibs_inv
      split: option.splits sum.splits prod.splits)

lemma rmdir_inv: "fs_inv s \<Longrightarrow> fs_inv (fst (snd (fs_rmdir os p n s w)))"
  by (auto simp: fs_rmdir_def fs_inv_def Let_def split_beta dibs_inv
      split: option.splits sum.splits prod.splits)

lemma rename_inv: "fs_inv s \<Longrightarrow> fs_inv (fst (snd (fs_rename os pid p n p' n' s w)))"
  by (auto simp: fs_rename_def fs_inv_def Let_def split_beta dibs_inv
      split: option.splits sum.splits prod.splits)

lemma symlink_inv: "fs_inv s \<Longrightarrow> fs_inv (fst (snd (fs_symlink os p n t s w)))"
  by (simp add: fs_symlink_def Let_def split_beta register_inv split: option.splits sum.splits prod.splits)

lemma readonly_state [dibs_frame]:
  "snd (fs_readlink os i s w) = (s, w)" "snd (fs_link s w) = (s, w)"
  "snd (fs_statfs os s w) = (s, w)" "snd (fs_access os i a s w) = (s, w)"
  by (simp_all add: fs_readlink_def fs_link_def fs_statfs_def fs_access_def
      split: option.splits sum.splits)

lemmas handler_inv = lookup_inv setattr_inv open_inv write_inv flush_inv release_inv opendir_inv
  readdir_inv releasedir_inv create_inv mkdir_inv unlink_inv rmdir_inv rename_inv symlink_inv

lemma handle_inv:
  assumes "fs_inv s" and "issues_ok (s, w) (Request r)"
  shows "fs_inv (fst (snd (handle os r s w)))"
  using assms by (cases r) (simp_all add: handler_inv dibs_frame)

lemma evict_inv:
  "fs_inv s \<Longrightarrow> fs_inv (s\<lparr>cas_table := evict_before cutoff (cas_table s)\<rparr>)"
  "fs_inv s \<Longrightarrow> fs_inv (s\<lparr>cas_table := evict_entry p (cas_table s)\<rparr>)"
  "fs_inv s \<Longrightarrow> fs_inv (s\<lparr>cas_table := drop_readers cutoff (cas_table s)\<rparr>)"
  by (simp_all add: fs_inv_def dibs_inv)

interpretation fs_machine: invariant_component "fs_step os" issues_ok "\<lambda>sw. fs_inv (fst sw)"
  for os :: "('w, 's, 'm) env_scheme"
proof
  fix sw :: "DibsFs \<times> 'w" and ev :: "'w event"
  assume "fs_inv (fst sw)" and "issues_ok sw ev"
  then show "fs_inv (fst (fs_step os ev sw))"
    by (cases sw; cases ev) (simp_all add: handle_inv evict_inv)
qed

lemma new_inv: "fs_inv (fst (DibsFs_new os cfg w))"
  by (auto simp: DibsFs_new_def fs_inv_def Let_def split_beta h_new_ok dh_new_ok owners_issued_def
      occ_new intro: bij_consistent new_bij)

lemma init_inv: "fs_inv s \<Longrightarrow> fs_inv (fs_init s)"
  by (simp add: fs_init_def fs_inv_def dibs_inv)

section \<open>Every reachable state\<close>

text \<open>The state right after mounting.\<close>

definition mounted :: "('w, 's, 'm) env_scheme \<Rightarrow> DibsConfig \<Rightarrow> 'w \<Rightarrow> DibsFs \<times> 'w" where
  "mounted os cfg w = (let (s, w1) = DibsFs_new os cfg w in (fs_init s, w1))"

lemma mounted_cas: "cas_table (fst (mounted os cfg w)) = CasTable_new"
  by (simp add: mounted_def DibsFs_new_def fs_init_def Let_def split_beta)

lemma mounted_inv: "fs_inv (fst (mounted os cfg w))"
  by (simp add: mounted_def split_beta init_inv new_inv)

text \<open>
  C5: In every state reached from mounting by any sequence of requests, eviction passes and outside
  changes, the inode index is consistent, every open file and directory handle carries its own
  number and was issued by its counter, and every write owner is a handle number that was issued.
\<close>

theorem reachable_invariant:
  assumes "admissible_run (fs_step os) issues_ok (mounted os cfg w) evs"
    and "fs_run os evs (mounted os cfg w) = (s, w')"
  shows "inodes_consistent (inodes s) \<and> handles_ok (file_handles s) \<and> dir_handles_ok (dir_handles s)
    \<and> owners_issued (file_handles s) (cas_table s)"
  using fs_machine.run_invar [OF mounted_inv assms(1)] assms(2)
  by (simp add: fs_run_def fs_inv_def)

end
