(* ===== verification/Conflict.thy ===== *)
theory Conflict
  imports Fs_Steps
begin

text \<open>
  The promise of the file system: a session that has seen a file and whose view is no longer the
  file's content does not get to write, delete or replace it. What each handler does to the
  recorded views and to write ownership, and what follows for any interleaving of requests.
\<close>

section \<open>Handlers that do not touch the conflict table\<close>

lemma cas_register [simp]: "cas_table (snd (lookup_and_register os rel full s w)) = cas_table s"
  by (simp add: lookup_and_register_def Let_def split: sum.splits)

lemma cas_unchanged [dibs_frame]:
  "cas_table (fst (snd (fs_lookup os p n s w))) = cas_table s"
  "cas_table (fst (snd (fs_opendir os i s w))) = cas_table s"
  "cas_table (fst (snd (fs_readdir os full i off s w))) = cas_table s"
  "cas_table (fst (snd (fs_releasedir os k s w))) = cas_table s"
  "cas_table (fst (snd (fs_mkdir os p n m s w))) = cas_table s"
  "cas_table (fst (snd (fs_rmdir os p n s w))) = cas_table s"
  "cas_table (fst (snd (fs_symlink os p n t s w))) = cas_table s"
  by (simp_all add: fs_lookup_def fs_opendir_def fs_readdir_def fs_releasedir_def fs_mkdir_def
      fs_rmdir_def fs_symlink_def Let_def split_beta split: option.splits sum.splits prod.splits)

section \<open>Views\<close>

lemma seen_setattr: "seen_by (cas_table (fst (snd (fs_setattr os i m u g sz at mt k fl s w)))) =
    seen_by (cas_table s)"
proof -
  have "seen_by (cas_table (fst (snd (setattr_truncate os rel full c sz k s w)))) =
      seen_by (cas_table s)" for rel full c
    by (auto simp: setattr_truncate_def Let_def split_beta cas_occ split: option.splits sum.splits prod.splits)
  then show ?thesis
    using setattr_state [of os i m u g sz at mt k fl s w] by auto
qed

lemma seen_write: "seen_by (cas_table (fst (snd (fs_write os i k off d s w)))) = seen_by (cas_table s)"
  by (auto simp: fs_write_def Let_def split_beta cas_occ split: option.splits sum.splits prod.splits)

lemma seen_release: "seen_by (cas_table (fst (snd (fs_release os k s w)))) = seen_by (cas_table s)"
  by (auto simp: fs_release_def Let_def split_beta cas_occ split: option.splits)

text \<open>The session id a \<open>create\<close> request is attributed to: it is asked for after the file has been
  opened.\<close>

definition create_sid ::
  "('w, 's, 'm) env_scheme \<Rightarrow> u32 \<Rightarrow> u64 \<Rightarrow> string \<Rightarrow> u32 \<Rightarrow> i32 \<Rightarrow> DibsFs \<Rightarrow> 'w \<Rightarrow> sid"
where
  "create_sid os pid pa n m fl s w =
     get_sid os pid (snd (sys_open os (snd (resolve_path s pa n)) (fl OR O_CREAT) (Some m) w))"

text \<open>The events that may replace or drop what session \<open>sid\<close> has seen of path \<open>p\<close>: an \<open>open\<close>, a
  \<open>create\<close> or the flush of a write by that session, a deletion or renaming of the path by anybody,
  and an eviction pass for which the view is too old.\<close>

fun touches_view ::
  "('w, 's, 'm) env_scheme \<Rightarrow> sid \<Rightarrow> path \<Rightarrow> DibsFs \<times> 'w \<Rightarrow> 'w event \<Rightarrow> bool"
where
  "touches_view os sid p (s, w) (Request (ReqOpen pid i fl)) \<longleftrightarrow>
     get_sid os pid w = sid \<and> get_path (inodes s) i = Some p"
| "touches_view os sid p (s, w) (Request (ReqCreate pid pa n m fl)) \<longleftrightarrow>
     create_sid os pid pa n m fl s w = sid \<and> fst (resolve_path s pa n) = p"
| "touches_view os sid p (s, w) (Request (ReqFlush i k)) \<longleftrightarrow>
     (case h_get (file_handles s) k of None \<Rightarrow> False
      | Some h \<Rightarrow> h_sid h = sid \<and> h_path h = p)"
| "touches_view os sid p (s, w) (Request (ReqUnlink pid pa n)) \<longleftrightarrow> fst (resolve_path s pa n) = p"
| "touches_view os sid p (s, w) (Request (ReqRename pid pa n pa' n')) \<longleftrightarrow>
     fst (resolve_path s pa n) = p \<or> fst (resolve_path s pa' n') = p"
| "touches_view os sid p (s, w) (Evict cutoff) \<longleftrightarrow>
     (case dm_get (reader_hashes (cas_table s)) (sid, p) of None \<Rightarrow> False
      | Some r \<Rightarrow> re_last_access r < cutoff)"
| "touches_view os sid p (s, w) (EvictReaders cutoff) \<longleftrightarrow>
     (case dm_get (reader_hashes (cas_table s)) (sid, p) of None \<Rightarrow> False
      | Some r \<Rightarrow> re_last_access r < cutoff)"
| "touches_view os sid p (s, w) _ \<longleftrightarrow> False"

lemma seen_open:
  assumes "\<not> (get_sid os pid w = sid \<and> get_path (inodes s) i = Some p)"
  shows "seen_by (cas_table (fst (snd (fs_open os pid i fl s w)))) (sid, p) =
         seen_by (cas_table s) (sid, p)"
  using assms
  by (auto simp: fs_open_def open_read_def open_write_def Let_def split_beta cas_occ
      split: option.splits sum.splits prod.splits)

lemma seen_create:
  assumes "\<not> (create_sid os pid pa n m fl s w = sid \<and> fst (resolve_path s pa n) = p)"
  shows "seen_by (cas_table (fst (snd (fs_create os pid pa n m fl s w)))) (sid, p) =
         seen_by (cas_table s) (sid, p)"
  using assms
  by (auto simp: fs_create_def create_sid_def Let_def split_beta cas_occ
      split: option.splits sum.splits prod.splits)

lemma seen_flush:
  assumes "\<not> touches_view os sid p (s, w) (Request (ReqFlush i k))"
  shows "seen_by (cas_table (fst (snd (fs_flush os i k s w)))) (sid, p) = seen_by (cas_table s) (sid, p)"
  using assms
  by (auto simp: fs_flush_def Let_def cas_occ split: option.splits sum.splits)

lemma seen_unlink:
  assumes "fst (resolve_path s pa n) \<noteq> p"
  shows "seen_by (cas_table (fst (snd (fs_unlink os pid pa n s w)))) (sid, p) =
         seen_by (cas_table s) (sid, p)"
  using assms
  by (auto simp: fs_unlink_def Let_def split_beta cas_occ split: option.splits sum.splits prod.splits)

lemma seen_rename:
  assumes "fst (resolve_path s pa n) \<noteq> p" and "fst (resolve_path s pa' n') \<noteq> p"
  shows "seen_by (cas_table (fst (snd (fs_rename os pid pa n pa' n' s w)))) (sid, p) =
         seen_by (cas_table s) (sid, p)"
  using assms
  by (auto simp: fs_rename_def Let_def split_beta cas_occ seen_move_other
      split: option.splits sum.splits prod.splits)

lemma seen_handle:
  "\<not> touches_view os sid p (s, w) (Request r) \<Longrightarrow>
   seen_by (cas_table (fst (snd (handle os r s w)))) (sid, p) = seen_by (cas_table s) (sid, p)"
  by (cases r)
     (auto simp: dibs_frame seen_setattr seen_write seen_release seen_open
       seen_create seen_flush seen_unlink seen_rename)

lemma seen_evict:
  "\<not> touches_view os sid p (s, w) (Evict cutoff) \<Longrightarrow>
   seen_by (evict_before cutoff (cas_table s)) (sid, p) = seen_by (cas_table s) (sid, p)"
  by (auto simp: occ_of_sel evict_readers split: option.splits)

lemma seen_drop_readers:
  "\<not> touches_view os sid p (s, w) (EvictReaders cutoff) \<Longrightarrow>
   seen_by (drop_readers cutoff (cas_table s)) (sid, p) = seen_by (cas_table s) (sid, p)"
  by (auto simp: occ_of_sel drop_readers_get split: option.splits)

lemma seen_step:
  "\<not> touches_view os sid p (s, w) ev \<Longrightarrow>
   seen_by (cas_table (fst (fs_step os ev (s, w)))) (sid, p) = seen_by (cas_table s) (sid, p)"
  by (cases ev) (simp_all add: seen_handle seen_evict seen_drop_readers evict_entry_occ del: touches_view.simps)

interpretation view_kept: invariant_component "fs_step os"
  "\<lambda>sw ev. \<not> touches_view os sid p sw ev" "\<lambda>sw. seen_by (cas_table (fst sw)) (sid, p) = Some h"
  for os :: "('w, 's, 'm) env_scheme" and sid p h
proof
  fix sw :: "DibsFs \<times> 'w" and ev :: "'w event"
  assume "seen_by (cas_table (fst sw)) (sid, p) = Some h" and "\<not> touches_view os sid p sw ev"
  then show "seen_by (cas_table (fst (fs_step os ev sw))) (sid, p) = Some h"
    by (cases sw) (simp add: seen_step)
qed

section \<open>Ownership\<close>

text \<open>The events that may end handle \<open>k\<close>'s ownership of path \<open>p\<close>: the flush or the release of that
  handle, a deletion or renaming of the path, and the removal of the path by an eviction pass that
  had collected it before it was owned.\<close>

fun touches_owner :: "fh \<Rightarrow> path \<Rightarrow> DibsFs \<times> 'w \<Rightarrow> 'w event \<Rightarrow> bool" where
  "touches_owner k p (s, w) (Request (ReqFlush i k')) \<longleftrightarrow> k' = k"
| "touches_owner k p (s, w) (Request (ReqRelease k')) \<longleftrightarrow> k' = k"
| "touches_owner k p (s, w) (Request (ReqUnlink pid pa n)) \<longleftrightarrow> fst (resolve_path s pa n) = p"
| "touches_owner k p (s, w) (Request (ReqRename pid pa n pa' n')) \<longleftrightarrow>
     fst (resolve_path s pa n) = p \<or> fst (resolve_path s pa' n') = p"
| "touches_owner k p (s, w) (EvictEntry q) \<longleftrightarrow> q = p"
| "touches_owner k p (s, w) _ \<longleftrightarrow> False"

lemma acquire_keeps_owner:
  "owner a p = Some k \<Longrightarrow> owner (occ_acquire q k' sd hs h a) p = Some k"
  by (auto simp: admits_def)

lemma owner_setattr:
  assumes "owner_of (cas_table s) p = Some k"
  shows "owner_of (cas_table (fst (snd (fs_setattr os i m u g sz at mt kk fl s w)))) p = Some k"
proof -
  have "owner_of (cas_table (fst (snd (setattr_truncate os rel full c sz kk s w)))) p = Some k"
    for rel full c
    using assms acquire_keeps_owner [OF assms]
    by (auto simp: setattr_truncate_def Let_def split_beta cas_occ simp del: occ_simps
        split: option.splits sum.splits prod.splits)
  then show ?thesis
    using setattr_state [of os i m u g sz at mt kk fl s w] assms by auto
qed

lemma owner_open:
  assumes "owner_of (cas_table s) p = Some k"
  shows "owner_of (cas_table (fst (snd (fs_open os pid i fl s w)))) p = Some k"
  using assms
  by (auto simp: fs_open_def open_read_def open_write_def Let_def split_beta cas_occ admits_def
      split: option.splits sum.splits prod.splits)

lemma owner_write:
  assumes "owner_of (cas_table s) p = Some k"
  shows "owner_of (cas_table (fst (snd (fs_write os i kk off d s w)))) p = Some k"
  using assms
  by (auto simp: fs_write_def Let_def split_beta cas_occ admits_def
      split: option.splits sum.splits prod.splits)

lemma owner_flush_release:
  assumes "owner_of (cas_table s) p = Some k" and "kk \<noteq> k"
  shows "owner_of (cas_table (fst (snd (fs_flush os i kk s w)))) p = Some k"
    and "owner_of (cas_table (fst (snd (fs_release os kk s w)))) p = Some k"
  using assms
  by (auto simp: fs_flush_def fs_release_def Let_def split_beta cas_occ
      split: option.splits sum.splits prod.splits)

lemma owner_create:
  "owner_of (cas_table (fst (snd (fs_create os pid pa n m fl s w)))) = owner_of (cas_table s)"
  by (auto simp: fs_create_def Let_def split_beta cas_occ split: option.splits sum.splits prod.splits)

lemma owner_unlink:
  assumes "fst (resolve_path s pa n) \<noteq> p"
  shows "owner_of (cas_table (fst (snd (fs_unlink os pid pa n s w)))) p = owner_of (cas_table s) p"
  using assms
  by (auto simp: fs_unlink_def Let_def split_beta cas_occ split: option.splits sum.splits prod.splits)

lemma owner_rename:
  assumes "fst (resolve_path s pa n) \<noteq> p" and "fst (resolve_path s pa' n') \<noteq> p"
  shows "owner_of (cas_table (fst (snd (fs_rename os pid pa n pa' n' s w)))) p =
         owner_of (cas_table s) p"
  using assms
  by (auto simp: fs_rename_def Let_def split_beta cas_occ owner_move
      split: option.splits sum.splits prod.splits)

lemma owner_handle:
  "owner_of (cas_table s) p = Some k \<Longrightarrow> \<not> touches_owner k p (s, w) (Request r) \<Longrightarrow>
   owner_of (cas_table (fst (snd (handle os r s w)))) p = Some k"
  by (cases r)
     (auto simp: dibs_frame owner_setattr owner_write owner_open
       owner_create owner_flush_release owner_unlink owner_rename)

lemma owner_step:
  "owner_of (cas_table s) p = Some k \<Longrightarrow> \<not> touches_owner k p (s, w) ev \<Longrightarrow>
   owner_of (cas_table (fst (fs_step os ev (s, w)))) p = Some k"
  by (cases ev) (simp_all add: owner_handle evict_entry_occ del: touches_owner.simps(1-4,6-))

interpretation owner_kept: invariant_component "fs_step os"
  "\<lambda>sw ev. \<not> touches_owner k p sw ev" "\<lambda>sw. owner_of (cas_table (fst sw)) p = Some k"
  for os :: "('w, 's, 'm) env_scheme" and k p
proof
  fix sw :: "DibsFs \<times> 'w" and ev :: "'w event"
  assume "owner_of (cas_table (fst sw)) p = Some k" and "\<not> touches_owner k p sw ev"
  then show "owner_of (cas_table (fst (fs_step os ev sw))) p = Some k"
    by (cases sw) (simp add: owner_step)
qed

section \<open>What an open for writing does\<close>

lemma not_dibs_ino:
  "\<not> is_dibs_ino i \<Longrightarrow> i \<noteq> DIBS_STATUS_INO \<and> i \<noteq> DIBS_LOCKS_INO \<and> i \<noteq> DIBS_DIR_INO
     \<and> i \<noteq> DIBS_CONFLICTS_DIR_INO"
  by (auto simp: is_dibs_ino_def is_synthetic_def synthetic_inos)

lemma not_Inr_unit: "(r :: 'e + unit) \<noteq> Inr () \<longleftrightarrow> (\<exists>e. r = Inl e)"
  by (cases r) auto

text \<open>The handle table right after the new handle was allocated.\<close>

definition with_handle ::
  "int \<Rightarrow> path \<Rightarrow> i32 \<Rightarrow> i32 \<Rightarrow> sid \<Rightarrow> hash option \<Rightarrow> DibsFs \<Rightarrow> HandleTable"
where
  "with_handle fd rel fl am sid pre s =
     snd (h_alloc fd rel fl (if am = O_RDWR then pre else None) sid (file_handles s))"

lemma expected_new_handle:
  "expected (with_handle fd rel fl am sid pre s) (next_fh (file_handles s)) sid p a =
     (if am = O_RDWR \<and> pre \<noteq> None then pre else seen a (sid, p))"
  by (auto simp: expected_def with_handle_def handle_lookups)

text \<open>The verdict of an open for writing: nobody may own the write, and unless the file is opened
  for reading too, the session's view, if it has one, must be the current content.\<close>

definition open_admitted :: "path \<Rightarrow> i32 \<Rightarrow> sid \<Rightarrow> hash \<Rightarrow> occ \<Rightarrow> bool" where
  "open_admitted p am sid actual a \<longleftrightarrow> owner a p = None \<and>
     (am = O_RDWR \<or> seen a (sid, p) = None \<or> seen a (sid, p) = Some actual)"

lemma fresh_not_owner:
  "owners_issued ht ct \<Longrightarrow> owner_of ct p \<noteq> Some (next_fh ht)"
  using owners_issuedD by (metis order_less_irrefl)

lemma open_admits_iff:
  assumes "fs_inv s"
  shows "admits p (next_fh (file_handles s)) sid (with_handle fd p fl am sid (Some actual) s) actual
           (occ_of (cas_table s)) \<longleftrightarrow> open_admitted p am sid actual (occ_of (cas_table s))"
  using assms fresh_not_owner
  by (auto simp: admits_def open_admitted_def expected_new_handle fs_inv_def)

lemma fresh_handle: "handles_ok ht \<Longrightarrow> h_get ht (next_fh ht) = None"
  using file_table.alloc_fresh [of ht "(0, [], 0, None, 0)"] by simp

lemma open_write_eq:
  "open_write os fd p fl am sid (Some actual) s w =
     (let k = next_fh (file_handles s); ht = with_handle fd p fl am sid (Some actual) s;
          (r, ct) = check_and_acquire_write p k sid ht actual (utc_now os w) (cas_table s)
      in case r of
           Inl e \<Rightarrow> (ReplyError EIO, s\<lparr>cas_table := ct, file_handles := snd (h_remove k ht)\<rparr>,
                     sys_close os fd w)
         | Inr _ \<Rightarrow> (ReplyOpened k, s\<lparr>file_handles := ht, cas_table :=
             (if am = O_RDWR then record_reader p actual sid (utc_now os w) ct else ct)\<rparr>, w))"
  by (simp add: open_write_def with_handle_def Let_def split_beta split: sum.splits)

lemma open_write_rejected:
  assumes "fs_inv s" and "\<not> open_admitted p am sid actual (occ_of (cas_table s))"
  shows "\<exists>s'. open_write os fd p fl am sid (Some actual) s w = (ReplyError EIO, s', sys_close os fd w)
    \<and> occ_of (cas_table s') = occ_track p (occ_of (cas_table s))
    \<and> h_get (file_handles s') = h_get (file_handles s)"
proof -
  let ?k = "next_fh (file_handles s)" and ?ht = "with_handle fd p fl am sid (Some actual) s"
  let ?r = "check_and_acquire_write p ?k sid ?ht actual (utc_now os w) (cas_table s)"
  have no: "fst ?r \<noteq> Inr ()"
    using assms open_admits_iff [OF assms(1)] by (simp add: acquire_result_occ)
  then obtain e where e: "fst ?r = Inl e" by (auto simp: not_Inr_unit)
  have "h_get (file_handles s) ?k = None"
    using assms(1) by (simp add: fs_inv_def fresh_handle)
  then have "h_get (snd (h_remove ?k ?ht)) = h_get (file_handles s)"
    by (auto simp: handle_lookups with_handle_def fun_eq_iff)
  then show ?thesis
    using e cas.rejected_keeps_view [OF no]
    by (simp add: open_write_eq Let_def split_beta)
qed

lemma open_write_granted:
  assumes "fs_inv s" and "open_admitted p am sid actual (occ_of (cas_table s))"
  shows "\<exists>s'. open_write os fd p fl am sid (Some actual) s w =
      (ReplyOpened (next_fh (file_handles s)), s', w)
    \<and> owner_of (cas_table s') = (owner_of (cas_table s))(p \<mapsto> next_fh (file_handles s))
    \<and> file_handles s' = with_handle fd p fl am sid (Some actual) s"
proof -
  let ?k = "next_fh (file_handles s)" and ?ht = "with_handle fd p fl am sid (Some actual) s"
  let ?r = "check_and_acquire_write p ?k sid ?ht actual (utc_now os w) (cas_table s)"
  have yes: "fst ?r = Inr ()"
    using assms open_admits_iff [OF assms(1)] by (simp add: acquire_result_occ)
  moreover have "owner_of (snd ?r) = (owner_of (cas_table s))(p \<mapsto> ?k)"
    using yes by (simp add: acquire_result_occ cas_occ)
  ultimately show ?thesis
    by (auto simp: open_write_eq Let_def split_beta record_reader_occ)
qed

lemma fs_open_write_eq:
  assumes "\<not> is_dibs_ino i" and "get_path (inodes s) i = Some p"
    and "CHR 0x00 \<notin> set (backing_path s p)" and "fl AND O_ACCMODE \<noteq> O_RDONLY"
    and "sys_open os (backing_path s p) fl None w = (Inr fd, w1)"
  shows "fs_open os pid i fl s w =
    open_write os (int fd) p fl (fl AND O_ACCMODE) (get_sid os pid w)
      (ok (hash_file os (backing_path s p) w)) s w1"
  using assms not_dibs_ino [OF assms(1)] by (simp add: fs_open_def Let_def path_to_cstring_def)

lemma fs_open_not_opened:
  assumes "\<not> is_dibs_ino i" and "get_path (inodes s) i = Some p"
    and "CHR 0x00 \<in> set (backing_path s p) \<or>
         (\<exists>e w1. sys_open os (backing_path s p) fl None w = (Inl e, w1))"
  shows "\<exists>e w1. fs_open os pid i fl s w = (ReplyError e, s, w1)"
  using assms not_dibs_ino [OF assms(1)]
  by (auto simp: fs_open_def Let_def path_to_cstring_def split: if_splits)

text \<open>An open that is not admitted is refused, whatever the system call returns, and leaves the
  views, the owners and the open handles as they were.\<close>

lemma fs_open_refused:
  assumes "fs_inv s" and "\<not> is_dibs_ino i" and "get_path (inodes s) i = Some p"
    and "fl AND O_ACCMODE \<noteq> O_RDONLY" and "hash_file os (backing_path s p) w = Inr actual"
    and "\<not> open_admitted p (fl AND O_ACCMODE) (get_sid os pid w) actual (occ_of (cas_table s))"
  shows "\<exists>e s' w'. fs_open os pid i fl s w = (ReplyError e, s', w')
    \<and> seen_by (cas_table s') = seen_by (cas_table s)
    \<and> owner_of (cas_table s') = owner_of (cas_table s)
    \<and> h_get (file_handles s') = h_get (file_handles s)"
proof (cases "CHR 0x00 \<in> set (backing_path s p) \<or>
         (\<exists>e w1. sys_open os (backing_path s p) fl None w = (Inl e, w1))")
  case True
  then show ?thesis using fs_open_not_opened [OF assms(2,3) True, of pid] by auto
next
  case False
  then obtain fd w1 where opened: "sys_open os (backing_path s p) fl None w = (Inr fd, w1)"
    by (metis obj_sumE surj_pair)
  have "CHR 0x00 \<notin> set (backing_path s p)" using False by simp
  from fs_open_write_eq [OF assms(2,3) this assms(4) opened]
  have "fs_open os pid i fl s w = open_write os (int fd) p fl (fl AND O_ACCMODE)
      (get_sid os pid w) (Some actual) s w1"
    using assms(5) by simp
  then show ?thesis
    using open_write_rejected [OF assms(1,6), of os "int fd" fl w1] by auto
qed

section \<open>The main guarantees\<close>

lemma open_read_sees:
  assumes "hash_file os full w = Inr h"
  shows "seen_by (cas_table (fst (snd (open_read os fd p full fl sid s w)))) (sid, p) = Some h"
  using assms by (simp add: open_read_def Let_def split_beta cas_occ)

lemma fs_open_read_sees:
  assumes "fs_open os pid i fl s w = (ReplyOpened k, s1, w1)" and "fl AND O_ACCMODE = O_RDONLY"
    and "get_path (inodes s) i = Some p" and "\<not> is_dibs_ino i"
    and "hash_file os (backing_path s p) w1 = Inr h"
  shows "seen_by (cas_table s1) (get_sid os pid w, p) = Some h"
proof -
  obtain fd where "open_read os fd p (backing_path s p) fl (get_sid os pid w) s w1 =
      (ReplyOpened k, s1, w1)"
    using assms(1-4) not_dibs_ino [OF assms(4)]
    by (auto simp: fs_open_def Let_def open_read_def split_beta split: sum.splits prod.splits)
  then show ?thesis
    using open_read_sees [OF assms(5), of fd p fl "get_sid os pid w" s] by simp
qed

text \<open>What a read open leaves behind is still there after any run that does not touch it.\<close>

lemma view_after_run:
  assumes "fs_inv s" and "next_fh (file_handles s) \<noteq> - 1"
    and "fs_open os pid i rfl s w = (ReplyOpened k, s1, w1)" and "rfl AND O_ACCMODE = O_RDONLY"
    and "get_path (inodes s) i = Some p" and "\<not> is_dibs_ino i"
    and "hash_file os (backing_path s p) w1 = Inr h"
    and "admissible_run (fs_step os) issues_ok (s1, w1) evs"
    and "admissible_run (fs_step os) (\<lambda>sw ev. \<not> touches_view os (get_sid os pid w) p sw ev) (s1, w1) evs"
    and "fs_run os evs (s1, w1) = (s2, w2)"
  shows "fs_inv s2" and "seen_by (cas_table s2) (get_sid os pid w, p) = Some h"
proof -
  have "fs_inv s1" using open_inv [OF assms(1,2), of os pid i rfl w] assms(3) by simp
  then show "fs_inv s2"
    using fs_machine.run_invar [OF _ assms(8)] assms(10) by (simp add: fs_run_def)
  have "seen_by (cas_table s1) (get_sid os pid w, p) = Some h"
    by (rule fs_open_read_sees [OF assms(3-7)])
  then show "seen_by (cas_table s2) (get_sid os pid w, p) = Some h"
    using view_kept.run_invar [OF _ assms(9)] assms(10) by (simp add: fs_run_def)
qed

text \<open>
  C1: A stale session does not get a handle for writing. A session opens a file for reading while its
  content hashes to \<open>h\<close>. Then any sequence of requests by any sessions, eviction passes and changes of
  the world by others follows, none of which replaces that session's view of the path (by another open,
  a create or a flush of that session) or drops it (a deletion or renaming of the path, or an eviction
  pass for which the view is too old). If the file then hashes to something else, the session's attempt
  to open it for writing only, that is with \<open>O_WRONLY\<close>, is refused: no handle is created and no view and
  no ownership changes.
\<close>

theorem stale_writer_rejected:
  assumes "fs_inv s" and "next_fh (file_handles s) \<noteq> - 1"
    and "fs_open os pid i rfl s w = (ReplyOpened k, s1, w1)" and "rfl AND O_ACCMODE = O_RDONLY"
    and "get_path (inodes s) i = Some p" and "\<not> is_dibs_ino i"
    and "hash_file os (backing_path s p) w1 = Inr h"
    and "admissible_run (fs_step os) issues_ok (s1, w1) evs"
    and "admissible_run (fs_step os) (\<lambda>sw ev. \<not> touches_view os (get_sid os pid w) p sw ev) (s1, w1) evs"
    and "fs_run os evs (s1, w1) = (s2, w2)"
    and "get_path (inodes s2) i' = Some p" and "\<not> is_dibs_ino i'"
    and "get_sid os pid' w2 = get_sid os pid w" and "fl AND O_ACCMODE = O_WRONLY"
    and "hash_file os (backing_path s2 p) w2 = Inr h2" and "h2 \<noteq> h"
  shows "\<exists>e s3 w3. fs_open os pid' i' fl s2 w2 = (ReplyError e, s3, w3)
    \<and> seen_by (cas_table s3) = seen_by (cas_table s2)
    \<and> owner_of (cas_table s3) = owner_of (cas_table s2)
    \<and> h_get (file_handles s3) = h_get (file_handles s2)"
proof (rule fs_open_refused [OF _ assms(12,11) _ assms(15)])
  show "fs_inv s2" by (rule view_after_run(1) [OF assms(1-10)])
  show "fl AND O_ACCMODE \<noteq> O_RDONLY" using assms(14) by (simp add: open_flag_defs)
  show "\<not> open_admitted p (fl AND O_ACCMODE) (get_sid os pid' w2) h2 (occ_of (cas_table s2))"
    using view_after_run(2) [OF assms(1-10)] assms(13,14,16)
    by (simp add: open_admitted_def open_flag_defs)
qed

text \<open>
  C2: Exclusive writers. While a handle owns the write of a path, and until that handle is flushed or
  released, the path is deleted or renamed, or an eviction pass that had collected the path before it
  was acquired removes it, no request of any session and no eviction takes the ownership away, and
  every open of the path for writing by anybody is refused without a trace.
\<close>

theorem write_ownership_exclusive:
  assumes "fs_inv s" and "owner_of (cas_table s) p = Some k"
    and "admissible_run (fs_step os) issues_ok (s, w) evs"
    and "admissible_run (fs_step os) (\<lambda>sw ev. \<not> touches_owner k p sw ev) (s, w) evs"
    and "fs_run os evs (s, w) = (s2, w2)"
    and "get_path (inodes s2) i = Some p" and "\<not> is_dibs_ino i"
    and "fl AND O_ACCMODE \<noteq> O_RDONLY" and "hash_file os (backing_path s2 p) w2 = Inr actual"
  shows "owner_of (cas_table s2) p = Some k \<and>
    (\<exists>e s3 w3. fs_open os pid i fl s2 w2 = (ReplyError e, s3, w3)
      \<and> seen_by (cas_table s3) = seen_by (cas_table s2)
      \<and> owner_of (cas_table s3) = owner_of (cas_table s2)
      \<and> h_get (file_handles s3) = h_get (file_handles s2))"
proof
  have inv: "fs_inv s2"
    using fs_machine.run_invar [OF _ assms(3)] assms(1,5) by (simp add: fs_run_def)
  show own: "owner_of (cas_table s2) p = Some k"
    using owner_kept.run_invar [OF _ assms(4)] assms(2,5) by (simp add: fs_run_def)
  then have "\<not> open_admitted p (fl AND O_ACCMODE) (get_sid os pid w2) actual (occ_of (cas_table s2))"
    by (simp add: open_admitted_def)
  then show "\<exists>e s3 w3. fs_open os pid i fl s2 w2 = (ReplyError e, s3, w3)
      \<and> seen_by (cas_table s3) = seen_by (cas_table s2)
      \<and> owner_of (cas_table s3) = owner_of (cas_table s2)
      \<and> h_get (file_handles s3) = h_get (file_handles s2)"
    by (rule fs_open_refused [OF inv assms(7,6,8,9)])
qed

text \<open>
  C8: No false conflicts. If nobody owns the write of the path and the session has not seen the file
  or has seen its current content, an open for writing that the system grants is granted: the
  reply is a new handle, the handle owns the write, and it is bound to the path and the session.
\<close>

theorem current_view_open_granted:
  assumes "fs_inv s" and "\<not> is_dibs_ino i" and "get_path (inodes s) i = Some p"
    and "CHR 0x00 \<notin> set (backing_path s p)" and "fl AND O_ACCMODE \<noteq> O_RDONLY"
    and "sys_open os (backing_path s p) fl None w = (Inr fd, w1)"
    and "hash_file os (backing_path s p) w = Inr actual"
    and "owner_of (cas_table s) p = None"
    and "seen_by (cas_table s) (get_sid os pid w, p) \<in> {None, Some actual}"
  shows "\<exists>s' h. fs_open os pid i fl s w = (ReplyOpened (next_fh (file_handles s)), s', w1)
    \<and> owner_of (cas_table s') p = Some (next_fh (file_handles s))
    \<and> h_get (file_handles s') (next_fh (file_handles s)) = Some h
    \<and> h_path h = p \<and> h_sid h = get_sid os pid w \<and> h_real_fd h = int fd"
proof -
  have "open_admitted p (fl AND O_ACCMODE) (get_sid os pid w) actual (occ_of (cas_table s))"
    using assms(8,9) by (auto simp: open_admitted_def)
  from open_write_granted [OF assms(1) this, of os "int fd" fl w1]
  obtain s' where "fs_open os pid i fl s w = (ReplyOpened (next_fh (file_handles s)), s', w1)"
    and "owner_of (cas_table s') p = Some (next_fh (file_handles s))"
    and "file_handles s' =
      with_handle (int fd) p fl (fl AND O_ACCMODE) (get_sid os pid w) (Some actual) s"
    using fs_open_write_eq [OF assms(2-6)] assms(7) by auto
  then show ?thesis by (simp add: with_handle_def handle_lookups)
qed

text \<open>
  C10: A flush after a write publishes the write: the session's view becomes the hash of the file as it
  is now, the handle keeps that hash for its own later checks, its ownership of the path ends, and
  views of other sessions and owners of other paths stay. If the handle was the owner, the same
  session is admitted to write the path again, because its view is the content it wrote itself.
\<close>

theorem flush_publishes:
  assumes "\<not> is_dibs_ino i" and "h_get (file_handles s) k = Some h" and "has_written h"
    and "hash_file os (backing_path s (h_path h)) w = Inr new"
  shows "\<exists>s'. fs_flush os i k s w = (ReplyOk, s', w)
    \<and> seen_by (cas_table s') = (seen_by (cas_table s))((h_sid h, h_path h) \<mapsto> new)
    \<and> owner_of (cas_table s') = (if owner_of (cas_table s) (h_path h) = Some k
        then (owner_of (cas_table s))(h_path h := None) else owner_of (cas_table s))
    \<and> h_get (file_handles s') k = Some (h\<lparr>hash_at_open := Some new, has_written := False\<rparr>)
    \<and> (owner_of (cas_table s) (h_path h) \<in> {None, Some k} \<longrightarrow>
        open_admitted (h_path h) am (h_sid h) new (occ_of (cas_table s')))"
  using assms by (auto simp: fs_flush_def Let_def cas_occ handle_lookups open_admitted_def)

text \<open>
  A stale session cannot delete: \<open>unlink\<close> by a session whose view of the file is not its content
  is answered with \<open>EIO\<close> and changes neither the state nor the world.
\<close>

lemma stale_unlink_rejected:
  assumes "\<not> is_dibs_ino pa" and "resolve_path s pa n = (p, full)"
    and "seen_by (cas_table s) (get_sid os pid w, p) = Some h"
    and "hash_file os full w = Inr actual" and "actual \<noteq> h"
  shows "fs_unlink os pid pa n s w = (ReplyError EIO, s, w)"
  using assms by (auto simp: fs_unlink_def view_conflict_def get_reader_hash_occ Let_def)

text \<open>
  A stale session cannot rename: if its view of the source, or its view of an existing
  destination, is not that file's content, \<open>rename\<close> is answered with \<open>EIO\<close> and changes neither the
  state nor the world.
\<close>

lemma stale_rename_rejected:
  assumes "\<not> is_dibs_ino pa" and "\<not> is_dibs_ino pa'"
    and "resolve_path s pa n = (p, pfull)" and "resolve_path s pa' n' = (q, qfull)"
    and "seen_by (cas_table s) (get_sid os pid w, p) = Some h \<and>
           hash_file os pfull w = Inr actual \<and> actual \<noteq> h \<or>
         std_exists os qfull w \<and> seen_by (cas_table s) (get_sid os pid w, q) = Some h \<and>
           hash_file os qfull w = Inr actual \<and> actual \<noteq> h"
  shows "fs_rename os pid pa n pa' n' s w = (ReplyError EIO, s, w)"
  using assms by (auto simp: fs_rename_def view_conflict_def get_reader_hash_occ Let_def)

text \<open>
  C11: A stale session can neither delete nor replace. A session opens a file for reading; any events
  follow that neither renew nor drop its view of the path; if the file then hashes to something else,
  \<open>unlink\<close> of the file, \<open>rename\<close> of it, and \<open>rename\<close> of any other file onto it are answered with \<open>EIO\<close>
  and change neither the state nor the world.
\<close>

theorem stale_session_cannot_remove:
  assumes "fs_inv s" and "next_fh (file_handles s) \<noteq> - 1"
    and "fs_open os pid i rfl s w = (ReplyOpened k, s1, w1)" and "rfl AND O_ACCMODE = O_RDONLY"
    and "get_path (inodes s) i = Some p" and "\<not> is_dibs_ino i"
    and "hash_file os (backing_path s p) w1 = Inr h"
    and "admissible_run (fs_step os) issues_ok (s1, w1) evs"
    and "admissible_run (fs_step os) (\<lambda>sw ev. \<not> touches_view os (get_sid os pid w) p sw ev) (s1, w1) evs"
    and "fs_run os evs (s1, w1) = (s2, w2)"
    and "\<not> is_dibs_ino pa" and "\<not> is_dibs_ino pa'" and "resolve_path s2 pa n = (p, full)"
    and "get_sid os pid' w2 = get_sid os pid w" and "hash_file os full w2 = Inr h2" and "h2 \<noteq> h"
  shows "fs_unlink os pid' pa n s2 w2 = (ReplyError EIO, s2, w2)
    \<and> fs_rename os pid' pa n pa' n' s2 w2 = (ReplyError EIO, s2, w2)
    \<and> (std_exists os full w2 \<longrightarrow> fs_rename os pid' pa' n' pa n s2 w2 = (ReplyError EIO, s2, w2))"
proof -
  have view: "seen_by (cas_table s2) (get_sid os pid' w2, p) = Some h"
    using view_after_run(2) [OF assms(1-10)] assms(14) by simp
  obtain q qfull where q: "resolve_path s2 pa' n' = (q, qfull)" by force
  have "fs_rename os pid' pa n pa' n' s2 w2 = (ReplyError EIO, s2, w2)"
    using view assms(15,16) by (intro stale_rename_rejected [OF assms(11,12,13) q, where h = h and actual = h2]) simp
  moreover have "fs_rename os pid' pa' n' pa n s2 w2 = (ReplyError EIO, s2, w2)" if "std_exists os full w2"
    using that view assms(15,16) by (intro stale_rename_rejected [OF assms(12,11) q assms(13), where h = h and actual = h2]) simp
  ultimately show ?thesis
    using stale_unlink_rejected [OF assms(11,13) view assms(15,16)] by (intro conjI impI)
qed

end
