(* ===== verification/Ownership.thy ===== *)
theory Ownership
  imports Conflict
begin

text \<open>
  Who owns a write: as long as nothing is renamed, every owner is an open handle on the very path
  it owns, so closing the handles leaves no lock behind; and the exact gate a write passes.
\<close>

section \<open>Owners are open handles\<close>

definition owners_live :: "DibsFs \<Rightarrow> bool" where
  "owners_live s \<longleftrightarrow> (\<forall>p k. owner_of (cas_table s) p = Some k \<longrightarrow>
     (\<exists>h. h_get (file_handles s) k = Some h \<and> h_path h = p))"

text \<open>No renames, and a handle passed to \<open>setattr\<close> is a handle on the inode's path.\<close>

fun path_stable :: "DibsFs \<times> 'w \<Rightarrow> 'w event \<Rightarrow> bool" where
  "path_stable (s, w) (Request (ReqRename pid pa n pa' n')) \<longleftrightarrow> False"
| "path_stable (s, w) (Request (ReqSetattr i m u g sz at mt (Some k) fl)) \<longleftrightarrow>
     (case h_get (file_handles s) k of None \<Rightarrow> False
      | Some h \<Rightarrow> get_path (inodes s) i = Some (h_path h))"
| "path_stable (s, w) _ \<longleftrightarrow> True"

lemma owners_liveD:
  "owners_live s \<Longrightarrow> owner_of (cas_table s) p = Some k \<Longrightarrow>
   \<exists>h. h_get (file_handles s) k = Some h \<and> h_path h = p"
  by (simp add: owners_live_def)

lemma owners_liveI:
  assumes "owners_live s"
    and "\<And>p k. owner_of (cas_table s') p = Some k \<Longrightarrow> owner_of (cas_table s) p = Some k"
    and "\<And>k h. h_get (file_handles s) k = Some h \<Longrightarrow>
      (\<exists>p. owner_of (cas_table s') p = Some k) \<Longrightarrow>
      \<exists>h'. h_get (file_handles s') k = Some h' \<and> h_path h' = h_path h"
  shows "owners_live s'"
  unfolding owners_live_def using assms by (metis owners_liveD)

lemma live_same:
  assumes "owners_live s" and "cas_table s' = cas_table s" and "file_handles s' = file_handles s"
  shows "owners_live s'"
  using assms by (simp add: owners_live_def)

lemma handles_register [simp]:
  "file_handles (snd (lookup_and_register os rel full s w)) = file_handles s"
  by (simp add: lookup_and_register_def Let_def split: sum.splits)

lemma handles_unchanged [dibs_frame]:
  "file_handles (fst (snd (fs_lookup os p n s w))) = file_handles s"
  "file_handles (fst (snd (fs_opendir os i s w))) = file_handles s"
  "file_handles (fst (snd (fs_readdir os full i off s w))) = file_handles s"
  "file_handles (fst (snd (fs_releasedir os k s w))) = file_handles s"
  "file_handles (fst (snd (fs_mkdir os p n m s w))) = file_handles s"
  "file_handles (fst (snd (fs_rmdir os p n s w))) = file_handles s"
  "file_handles (fst (snd (fs_symlink os p n t s w))) = file_handles s"
  by (simp_all add: fs_lookup_def fs_opendir_def fs_readdir_def fs_releasedir_def fs_mkdir_def
      fs_rmdir_def fs_symlink_def Let_def split_beta split: option.splits sum.splits prod.splits)

lemma live_unchanged:
  assumes "owners_live s"
  shows "owners_live (fst (snd (fs_lookup os p n s w)))"
    and "owners_live (fst (snd (fs_opendir os i s w)))"
    and "owners_live (fst (snd (fs_readdir os full i off s w)))"
    and "owners_live (fst (snd (fs_releasedir os k s w)))"
    and "owners_live (fst (snd (fs_mkdir os p n m s w)))"
    and "owners_live (fst (snd (fs_rmdir os p n s w)))"
    and "owners_live (fst (snd (fs_symlink os p n t s w)))"
  by (rule live_same [OF assms]; simp add: dibs_frame)+

text \<open>Adding or changing a handle without changing any path keeps owners live.\<close>

lemma live_acquire:
  assumes "owners_live s" and "h_get (file_handles s) k = Some h" and "h_path h = p"
  shows "owners_live (s\<lparr>cas_table := snd (check_and_acquire_write p k sd hs x now (cas_table s))\<rparr>)"
  using assms by (auto simp: owners_live_def cas_occ split: if_splits)

lemma live_modify:
  assumes "owners_live s" and "\<And>h. h_path (f h) = h_path h"
  shows "owners_live (s\<lparr>file_handles := h_modify k f (file_handles s)\<rparr>)"
  using assms(2) by (intro owners_liveI [OF assms(1)]) (auto simp: handle_lookups)

lemma live_update_reader:
  "owners_live s \<Longrightarrow> owners_live (s\<lparr>cas_table := update_reader sd p x now (cas_table s)\<rparr>)"
  by (simp add: owners_live_def cas_occ)

lemma live_release_write:
  "owners_live s \<Longrightarrow> owners_live (s\<lparr>cas_table := release_write p k (cas_table s)\<rparr>)"
  by (auto simp: owners_live_def cas_occ split: if_splits)

lemma setattr_live:
  assumes "owners_live s" and "path_stable (s, w) (Request (ReqSetattr i m u g sz at mt k fl))"
  shows "owners_live (fst (snd (fs_setattr os i m u g sz at mt k fl s w)))"
proof -
  have "owners_live (fst (snd (setattr_truncate os rel full c sz k s w)))"
    if "get_path (inodes s) i = Some rel" for rel full c
    using assms that live_acquire [OF assms(1)]
    by (auto simp: setattr_truncate_def Let_def split_beta split: option.splits sum.splits prod.splits)
  then show ?thesis
    using setattr_state [of os i m u g sz at mt k fl s w] assms(1) by auto
qed

lemma alloc_live:
  assumes "owners_live s" and "fs_inv s"
  shows "owners_live (s\<lparr>file_handles := snd (h_alloc fd p fl ha sd (file_handles s))\<rparr>)"
  using fresh_not_owner [of "file_handles s" "cas_table s"] assms(2)
  by (intro owners_liveI [OF assms(1)]) (auto simp: handle_lookups fs_inv_def)

lemma open_read_live:
  assumes "owners_live s" and "fs_inv s"
  shows "owners_live (fst (snd (open_read os fd p full fl sd s w)))"
  using alloc_live [OF assms]
  by (auto simp: open_read_def Let_def split_beta owners_live_def cas_occ split: option.splits)

lemma open_write_live:
  assumes "owners_live s" and "fs_inv s"
  shows "owners_live (fst (snd (open_write os fd p fl am sd pre s w)))"
proof (cases pre)
  case None
  then show ?thesis
    using alloc_live [OF assms]
    by (auto simp: open_write_def Let_def split_beta owners_live_def cas_occ split: option.splits)
next
  case (Some actual)
  show ?thesis
  proof (cases "open_admitted p am sd actual (occ_of (cas_table s))")
    case True
    have "\<forall>q. owner_of (cas_table s) q \<noteq> Some (next_fh (file_handles s))"
      using assms(2) fresh_not_owner by (auto simp: fs_inv_def)
    with open_write_granted [OF assms(2) True, of os fd fl w] Some show ?thesis
      using assms(1) by (fastforce simp: owners_live_def with_handle_def handle_lookups)
  next
    case False
    from open_write_rejected [OF assms(2) this, of os fd fl w] Some show ?thesis
      using assms(1) by (auto simp: owners_live_def)
  qed
qed

lemma open_live:
  assumes "owners_live s" and "fs_inv s"
  shows "owners_live (fst (snd (fs_open os pid i fl s w)))"
  using assms open_read_live open_write_live alloc_live
  by (auto simp: fs_open_def Let_def split_beta split: option.splits sum.splits prod.splits)

lemma write_live:
  assumes "owners_live s"
  shows "owners_live (fst (snd (fs_write os i k off d s w)))"
proof -
  have mod: "owners_live (t\<lparr>file_handles := h_modify k (has_written_update f) (file_handles t)\<rparr>)"
    if "owners_live t" for t f
    using that by (rule live_modify) simp
  show ?thesis
    using assms mod [OF assms] mod [OF live_acquire [OF assms]] live_acquire [OF assms]
    by (auto simp: fs_write_def Let_def split_beta split: option.splits sum.splits prod.splits)
qed

lemma flush_live:
  assumes "owners_live s"
  shows "owners_live (fst (snd (fs_flush os i k s w)))"
proof -
  have "owners_live (s\<lparr>file_handles := h_modify k f (file_handles s),
      cas_table := release_write p k (update_reader sd p x now (cas_table s))\<rparr>)"
    if "\<And>h. h_path (f h) = h_path h" for sd p x now f
    using live_release_write [OF live_update_reader [OF live_modify [OF assms that]]] by simp
  then show ?thesis
    using assms live_release_write [OF assms]
    by (auto simp: fs_flush_def Let_def split: option.splits sum.splits)
qed

lemma release_live:
  assumes "owners_live s"
  shows "owners_live (fst (snd (fs_release os k s w)))"
  using assms
  by (fastforce simp: fs_release_def Let_def split_beta owners_live_def cas_occ handle_lookups
      split: option.splits if_splits)

lemma create_live:
  assumes "owners_live s" and "fs_inv s"
  shows "owners_live (fst (snd (fs_create os pid pa n m fl s w)))"
  using assms alloc_live [OF assms]
  by (auto simp: fs_create_def Let_def split_beta owners_live_def cas_occ
      split: option.splits sum.splits prod.splits)

lemma unlink_live:
  assumes "owners_live s"
  shows "owners_live (fst (snd (fs_unlink os pid pa n s w)))"
  using assms
  by (auto simp: fs_unlink_def Let_def split_beta owners_live_def cas_occ
      split: option.splits sum.splits prod.splits if_splits)

lemmas handler_live = live_unchanged setattr_live open_live write_live flush_live release_live
  create_live unlink_live

lemma handle_live:
  assumes "owners_live s" and "fs_inv s" and "path_stable (s, w) (Request r)"
  shows "owners_live (fst (snd (handle os r s w)))"
  using assms by (cases r) (simp_all add: handler_live dibs_frame)

lemma evict_live:
  "owners_live s \<Longrightarrow> owners_live (s\<lparr>cas_table := evict_before cutoff (cas_table s)\<rparr>)"
  "owners_live s \<Longrightarrow> owners_live (s\<lparr>cas_table := evict_entry p (cas_table s)\<rparr>)"
  "owners_live s \<Longrightarrow> owners_live (s\<lparr>cas_table := drop_readers cutoff (cas_table s)\<rparr>)"
  by (auto simp: owners_live_def evict_entry_occ split: if_splits)

interpretation live_machine: invariant_component "fs_step os"
  "\<lambda>sw ev. issues_ok sw ev \<and> path_stable sw ev" "\<lambda>sw. fs_inv (fst sw) \<and> owners_live (fst sw)"
  for os :: "('w, 's, 'm) env_scheme"
proof
  fix sw :: "DibsFs \<times> 'w" and ev :: "'w event"
  assume inv: "fs_inv (fst sw) \<and> owners_live (fst sw)" and ok: "issues_ok sw ev \<and> path_stable sw ev"
  have "fs_inv (fst (fs_step os ev sw))"
    using inv ok by (auto intro: fs_machine.step_invar)
  moreover have "owners_live (fst (fs_step os ev sw))"
    using inv ok by (cases sw; cases ev) (simp_all add: handle_live evict_live)
  ultimately show "fs_inv (fst (fs_step os ev sw)) \<and> owners_live (fst (fs_step os ev sw))" ..
qed

section \<open>No lock is left behind\<close>

lemma mounted_live: "owners_live (fst (mounted os cfg w))"
  by (simp add: owners_live_def mounted_cas occ_new)

text \<open>
  C4: Owners are open handles. After any sequence of requests and evictions from mounting on, in
  which nothing is renamed and \<open>setattr\<close> with a handle is called on an inode that resolves to the very
  path the handle was opened on (not so when another name of the file has been looked up since), each
  path that has a write owner is owned by a handle that is open on that very path. So when all files are closed,
  nothing is locked and \<open>.dibs/status\<close> counts no active writer.
\<close>

theorem owners_are_open_handles:
  assumes "admissible_run (fs_step os) (\<lambda>sw ev. issues_ok sw ev \<and> path_stable sw ev)
      (mounted os cfg w) evs"
    and "fs_run os evs (mounted os cfg w) = (s, w')"
  shows "(\<forall>p. case owner_of (cas_table s) p of None \<Rightarrow> True
      | Some k \<Rightarrow> \<exists>h. h_get (file_handles s) k = Some h \<and> h_path h = p)
    \<and> active_writers (cas_table s) \<le> h_count (file_handles s)"
proof
  have live: "owners_live s"
    using live_machine.run_invar [OF _ assms(1)] assms(2)
    by (simp add: fs_run_def mounted_inv mounted_live)
  then show "\<forall>p. case owner_of (cas_table s) p of None \<Rightarrow> True
      | Some k \<Rightarrow> \<exists>h. h_get (file_handles s) k = Some h \<and> h_path h = p"
    by (auto simp: owners_live_def split: option.splits)
  let ?own = "owner_of (cas_table s)" and ?fh = "dm_get (handles (file_handles s))"
  have "inj_on (\<lambda>p. the (?own p)) (dom ?own)"
    using live unfolding inj_on_def owners_live_def
    by (metis domD option.inject option.sel)
  moreover have "(\<lambda>p. the (?own p)) ` dom ?own \<subseteq> dom ?fh"
    using live by (fastforce simp: owners_live_def h_get_def)
  ultimately show "active_writers (cas_table s) \<le> h_count (file_handles s)"
    by (simp add: active_writers_owned h_count_def dm_len_card card_inj_on_le)
qed

section \<open>The gate of a write\<close>

text \<open>A \<open>write\<close> on an open handle goes ahead if somebody owns the path's write, or if the handle's
  expectation is the current content; a file that cannot be hashed counts as having the empty
  hash.\<close>

definition write_admitted :: "('w, 's, 'm) env_scheme \<Rightarrow> fh \<Rightarrow> HandleState \<Rightarrow> DibsFs \<Rightarrow> 'w \<Rightarrow> bool" where
  "write_admitted os k h s w \<longleftrightarrow> owner_of (cas_table s) (h_path h) \<noteq> None \<or>
     expected (file_handles s) k (h_sid h) (h_path h) (occ_of (cas_table s)) \<in>
       {None, Some (unwrap_or [] (hash_file os (backing_path s (h_path h)) w))}"

lemma write_admitted_acquire:
  assumes "owner_of (cas_table s) (h_path h) = None"
  shows "write_admitted os k h s w \<longleftrightarrow>
    fst (check_and_acquire_write (h_path h) k (h_sid h) (file_handles s)
      (unwrap_or [] (hash_file os (backing_path s (h_path h)) w)) now (cas_table s)) = Inr ()"
  using assms by (auto simp: write_admitted_def acquire_result_occ admits_def)

text \<open>
  A write that passes the gate reaches the file: the data goes to the handle's descriptor at the
  requested offset, the reply is the system's count or error, the handle is marked as having
  written, and if nobody owned the path's write this handle now does.
\<close>

lemma admitted_write_reaches_file:
  assumes "\<not> is_dibs_ino i" and "h_get (file_handles s) k = Some h" and "write_admitted os k h s w"
    and "sys_pwrite os (h_real_fd h) d off w = (r, w1)"
  shows "\<exists>s'. fs_write os i k off d s w =
      (case r of Inl e \<Rightarrow> ReplyError (errno_from os e) | Inr n \<Rightarrow> ReplyWritten (of_nat n), s', w1)
    \<and> h_get (file_handles s') = (h_get (file_handles s))(k \<mapsto> h\<lparr>has_written := True\<rparr>)
    \<and> owner_of (cas_table s') = (if owner_of (cas_table s) (h_path h) = None
        then (owner_of (cas_table s))(h_path h \<mapsto> k) else owner_of (cas_table s))
    \<and> seen_by (cas_table s') = seen_by (cas_table s)"
proof (cases "owner_of (cas_table s) (h_path h) = None")
  case True
  let ?ck = "check_and_acquire_write (h_path h) k (h_sid h) (file_handles s)
      (unwrap_or [] (hash_file os (backing_path s (h_path h)) w)) (utc_now os w) (cas_table s)"
  have "fst ?ck = Inr ()"
    using write_admitted_acquire [OF True, of os k w "utc_now os w"] assms(3) by simp
  moreover from this have "owner_of (snd ?ck) = (owner_of (cas_table s))(h_path h \<mapsto> k)"
    by (simp add: acquire_result_occ cas_occ)
  ultimately show ?thesis
    using assms True
    by (auto simp: fs_write_def has_active_writer_occ Let_def split_beta handle_lookups fun_eq_iff
        cas_occ split: sum.splits)
next
  case False
  then show ?thesis
    using assms
    by (auto simp: fs_write_def has_active_writer_occ Let_def handle_lookups fun_eq_iff
        split: sum.splits)
qed

text \<open>
  A write that does not pass the gate never reaches the file: the reply is \<open>EIO\<close>, the descriptor
  is not written, and the only effect on the world is the copy of the data under the conflict
  directory, if one is configured. Views, owners and handles stay.
\<close>

lemma rejected_write_saved:
  assumes "\<not> is_dibs_ino i" and "h_get (file_handles s) k = Some h" and "\<not> write_admitted os k h s w"
  shows "\<exists>s'. fs_write os i k off d s w =
      (ReplyError EIO, s', save_conflict os (conflict_dir s) (h_path h) d w)
    \<and> occ_of (cas_table s') = occ_track (h_path h) (occ_of (cas_table s))
    \<and> file_handles s' = file_handles s"
proof -
  have none: "owner_of (cas_table s) (h_path h) = None"
    using assms(3) by (simp add: write_admitted_def)
  let ?ck = "check_and_acquire_write (h_path h) k (h_sid h) (file_handles s)
      (unwrap_or [] (hash_file os (backing_path s (h_path h)) w)) (utc_now os w) (cas_table s)"
  have no: "fst ?ck \<noteq> Inr ()"
    using write_admitted_acquire [OF none, of os k w "utc_now os w"] assms(3) by simp
  then obtain e where "fst ?ck = Inl e" by (auto simp: not_Inr_unit)
  then show ?thesis
    using assms(1,2) none cas.rejected_keeps_view [OF no]
    by (simp add: fs_write_def has_active_writer_occ Let_def split_beta)
qed

text \<open>
  C9: The gate of a write. A write through an open handle that passes the gate reaches the file: the
  data goes to the handle's descriptor at the requested offset, the reply is the system's count or
  error, the handle is marked as having written, and if nobody owned the path's write this handle now
  does. A write that does not pass is answered with \<open>EIO\<close>, the descriptor is not written, and the
  only effect on the world is the copy of the data under the conflict directory, if one is configured;
  views, owners and handles stay.
\<close>

theorem write_gate:
  assumes "\<not> is_dibs_ino i" and "h_get (file_handles s) k = Some h"
    and "sys_pwrite os (h_real_fd h) d off w = (r, w1)"
  shows "if write_admitted os k h s w
    then \<exists>s'. fs_write os i k off d s w =
        (case r of Inl e \<Rightarrow> ReplyError (errno_from os e) | Inr n \<Rightarrow> ReplyWritten (of_nat n), s', w1)
      \<and> h_get (file_handles s') = (h_get (file_handles s))(k \<mapsto> h\<lparr>has_written := True\<rparr>)
      \<and> owner_of (cas_table s') = (if owner_of (cas_table s) (h_path h) = None
          then (owner_of (cas_table s))(h_path h \<mapsto> k) else owner_of (cas_table s))
      \<and> seen_by (cas_table s') = seen_by (cas_table s)
    else \<exists>s'. fs_write os i k off d s w =
        (ReplyError EIO, s', save_conflict os (conflict_dir s) (h_path h) d w)
      \<and> occ_of (cas_table s') = occ_track (h_path h) (occ_of (cas_table s))
      \<and> file_handles s' = file_handles s"
  using admitted_write_reaches_file [OF assms(1,2) _ assms(3)] rejected_write_saved [OF assms(1,2)]
  by (cases "write_admitted os k h s w") simp_all

end
