(* ===== verification/Path_Types.thy ===== *)
theory Path_Types
  imports Fs_Steps
begin

text \<open>
  The type discipline of the tables: every path the file system keeps is a sequence of plain names
  below the root. It is what makes the tables' keys, compared component by component in Rust, agree
  with their bytes, and what rules out the failures of the path conversions.
\<close>

named_theorems dibs_typed \<open>what keeps paths plain\<close>

section \<open>Plain paths\<close>

definition plain :: "path \<Rightarrow> bool" where
  "plain p \<longleftrightarrow> p = [] \<or> list_all valid_name (split_sep p)"

lemma plain_names: "plain p \<longleftrightarrow> (\<exists>ns. p = rel_of_names ns \<and> (\<forall>n \<in> set ns. valid_name n))"
proof
  have join_split: "rel_of_names (split_sep q) = q" for q
  proof (induction q)
    case (Cons c cs)
    obtain x xs where "split_sep cs = x # xs" by (cases "split_sep cs") auto
    with Cons show ?case by (cases xs) auto
  qed simp
  assume "plain p"
  then show "\<exists>ns. p = rel_of_names ns \<and> (\<forall>n \<in> set ns. valid_name n)"
    using join_split [of p] unfolding plain_def
    by (metis list.pred_set rel_of_names.simps(1) empty_iff list.set(1))
next
  assume "\<exists>ns. p = rel_of_names ns \<and> (\<forall>n \<in> set ns. valid_name n)"
  then obtain ns where p: "p = rel_of_names ns" and ns: "\<forall>n \<in> set ns. valid_name n" by blast
  show "plain p"
  proof (cases "ns = []")
    case False
    then have "split_sep p = ns" using split_sep_rel [of ns] ns by (simp add: p)
    with ns show ?thesis by (simp add: plain_def list_all_iff)
  qed (simp add: p plain_def)
qed

lemma plain_Nil [simp]: "plain []"
  by (simp add: plain_def)

lemma plain_name: "valid_name n \<Longrightarrow> plain n"
  by (simp add: plain_def split_sep_name valid_name_def)

lemma plain_join [dibs_typed]: "plain p \<Longrightarrow> valid_name n \<Longrightarrow> plain (join p n)"
  unfolding plain_names by (metis Un_iff empty_iff empty_set join_rel list.set_intros(1) set_ConsD set_append)

lemma plain_key: "plain p \<Longrightarrow> plain q \<Longrightarrow> components p = components q \<longleftrightarrow> p = q"
  unfolding plain_names using rel_key_inj by metis

lemma rel_of_names_chars: "set (rel_of_names ns) \<subseteq> insert sep (\<Union> (set ` set ns))"
  by (induction ns rule: rel_of_names.induct) auto

lemma plain_nul_free: "plain p \<Longrightarrow> CHR 0x00 \<notin> set p"
  unfolding plain_names using rel_of_names_chars by (fastforce simp: valid_name_def)

lemma plain_relative: "plain p \<Longrightarrow> \<not> is_absolute p"
  unfolding plain_names using rel_not_absolute by metis

section \<open>Lossy names\<close>

text \<open>Directory listings pass through \<open>to_string_lossy\<close>, which keeps a name a name.\<close>

lemma lossy_chars: "set (to_string_lossy s) \<subseteq> set s \<union> set replacement"
proof (induction s rule: to_string_lossy.induct)
  case (1 s)
  show ?case
  proof (cases "s = []")
    case False
    then show ?thesis
      using 1 by (subst to_string_lossy.simps)
        (auto split: sum.splits dest: in_set_takeD in_set_dropD)
  qed simp
qed

lemma lossy_nonempty: "s \<noteq> [] \<Longrightarrow> to_string_lossy s \<noteq> []"
  by (subst to_string_lossy.simps) (auto simp: replacement_def split: sum.splits dest: utf8_width_pos)

lemma lossy_unchanged: "CHR 0xEF \<notin> set (to_string_lossy s) \<Longrightarrow> to_string_lossy s = s"
proof (induction s rule: to_string_lossy.induct)
  case (1 s)
  show ?case
  proof (cases "s = []")
    case False
    show ?thesis
    proof (cases "utf8_width s")
      case (Inl n)
      then show ?thesis
        using 1 False by (subst (asm) (3) to_string_lossy.simps) (simp add: replacement_def)
    next
      case (Inr n)
      have u: "to_string_lossy s = take n s @ to_string_lossy (drop n s)"
        using False Inr by (subst to_string_lossy.simps) simp
      with 1 False Inr have "to_string_lossy (drop n s) = drop n s" by simp
      with u show ?thesis by simp
    qed
  qed simp
qed

lemma valid_name_lossy [dibs_typed]: "valid_name n \<Longrightarrow> valid_name (to_string_lossy n)"
proof -
  assume n: "valid_name n"
  have chars: "sep \<notin> set (to_string_lossy n)" "CHR 0x00 \<notin> set (to_string_lossy n)"
    using n lossy_chars [of n] by (auto simp: valid_name_def replacement_def)
  have "to_string_lossy n \<noteq> x" if "x = ''.'' \<or> x = ''..''" for x
  proof
    assume x: "to_string_lossy n = x"
    with that have "to_string_lossy n = n" using lossy_unchanged [of n] by auto
    with x that n show False by (auto simp: valid_name_def)
  qed
  with n chars lossy_nonempty show ?thesis by (auto simp: valid_name_def)
qed

section \<open>Typed tables\<close>

definition inodes_typed :: "InodeTable \<Rightarrow> bool" where
  "inodes_typed t \<longleftrightarrow> (\<forall>i p. get_path t i = Some p \<longrightarrow> plain p) \<and> (\<forall>p i. get_ino t p = Some i \<longrightarrow> plain p)"

definition handles_typed :: "HandleTable \<Rightarrow> bool" where
  "handles_typed t \<longleftrightarrow> (\<forall>k h. h_get t k = Some h \<longrightarrow> plain (h_path h))"

definition dirs_typed :: "DirHandleTable \<Rightarrow> bool" where
  "dirs_typed t \<longleftrightarrow> (\<forall>k h. dh_get t k = Some h \<longrightarrow> plain (dh_path h))"

definition cas_typed :: "CasTable \<Rightarrow> bool" where
  "cas_typed t \<longleftrightarrow> (\<forall>p \<in> tracked_in t. plain p) \<and> (\<forall>s p h. seen_by t (s, p) = Some h \<longrightarrow> plain p)"

definition well_typed :: "DibsFs \<Rightarrow> bool" where
  "well_typed s \<longleftrightarrow> CHR 0x00 \<notin> set (backing s) \<and> inodes_typed (inodes s) \<and> handles_typed (file_handles s)
     \<and> dirs_typed (dir_handles s) \<and> cas_typed (cas_table s)"

lemma typed_paths [dest]:
  "inodes_typed t \<Longrightarrow> get_path t i = Some p \<Longrightarrow> plain p"
  "inodes_typed t \<Longrightarrow> get_ino t p = Some i \<Longrightarrow> plain p"
  "handles_typed ht \<Longrightarrow> h_get ht k = Some h \<Longrightarrow> plain (h_path h)"
  by (auto simp: inodes_typed_def handles_typed_def)

lemma new_typed [dibs_typed]:
  "inodes_typed InodeTable_new" "handles_typed HandleTable_new" "dirs_typed DirHandleTable_new"
  by (simp_all add: inodes_typed_def handles_typed_def dirs_typed_def InodeTable_new_def
      DirHandleTable_new_def get_path_def get_ino_def dh_get_def)

lemma inodes_typed_ops [dibs_typed]:
  "inodes_typed t \<Longrightarrow> plain p \<Longrightarrow> inodes_typed (inode_insert i p t)"
  "inodes_typed t \<Longrightarrow> inodes_typed (remove_by_path p t)"
  "inodes_typed t \<Longrightarrow> plain q \<Longrightarrow> inodes_typed (inode_rename p q t)"
  by (auto simp: inodes_typed_def inode_lookups split: if_splits)

lemma handles_typed_ops [dibs_typed]:
  "handles_typed t \<Longrightarrow> plain p \<Longrightarrow> handles_typed (snd (h_alloc fd p fl ha s t))"
  "handles_typed t \<Longrightarrow> handles_typed (snd (h_remove k t))"
  "handles_typed t \<Longrightarrow> handles_typed (h_modify k (has_written_update f) t)"
  "handles_typed t \<Longrightarrow> handles_typed (h_modify k (\<lambda>h. h\<lparr>hash_at_open := x, has_written := b\<rparr>) t)"
  by (auto simp: handles_typed_def handle_lookups split: if_splits)

lemma dirs_typed_ops [dibs_typed]:
  "dirs_typed t \<Longrightarrow> plain p \<Longrightarrow> dirs_typed (snd (dh_alloc fd p t))"
  "dirs_typed t \<Longrightarrow> dirs_typed (snd (dh_remove k t))"
  by (auto simp: dirs_typed_def dh_get_alloc dh_get_remove split: if_splits)

lemma cas_typed_ops [dibs_typed]:
  "cas_typed CasTable_new"
  "cas_typed t \<Longrightarrow> plain p \<Longrightarrow> cas_typed (record_reader p h s now t)"
  "cas_typed t \<Longrightarrow> plain p \<Longrightarrow> cas_typed (update_reader s p h now t)"
  "cas_typed t \<Longrightarrow> plain p \<Longrightarrow> cas_typed (ensure_entry p now t)"
  "cas_typed t \<Longrightarrow> plain p \<Longrightarrow> cas_typed (snd (check_and_acquire_write p k s hs h now t))"
  "cas_typed t \<Longrightarrow> cas_typed (release_write p k t)"
  "cas_typed t \<Longrightarrow> cas_typed (cas_remove p t)"
  "cas_typed t \<Longrightarrow> cas_typed (evict_entry p t)"
  by (auto simp: cas_typed_def cas_occ occ_new evict_entry_occ split: if_splits)

lemma cas_typed_rename [dibs_typed]:
  "cas_typed t \<Longrightarrow> plain q \<Longrightarrow> cas_typed (cas_rename p q t)"
  by (auto simp: cas_typed_def cas_occ occ_move_def split: if_splits)

lemma cas_typed_mono:
  assumes "cas_typed t" and "tracked_in t' \<subseteq> tracked_in t" and "seen_by t' \<subseteq>\<^sub>m seen_by t"
  shows "cas_typed t'"
proof -
  have "seen_by t (s, p) = Some h" if "seen_by t' (s, p) = Some h" for s p h
    using assms(3) that unfolding map_le_def by (metis domI)
  then show ?thesis using assms(1,2) unfolding cas_typed_def by blast
qed

lemma cas_typed_evict [dibs_typed]:
  assumes "cas_typed t"
  shows "cas_typed (evict_before cutoff t)" and "cas_typed (drop_readers cutoff t)"
proof -
  show "cas_typed (evict_before cutoff t)"
    using evict_occ [of t cutoff] by (intro cas_typed_mono [OF assms]) (simp_all add: occ_evicts_def)
  have "seen_by (drop_readers cutoff t) \<subseteq>\<^sub>m seen_by t"
    by (auto simp: map_le_def occ_of_sel(1) drop_readers_get split: option.splits if_splits)
  then show "cas_typed (drop_readers cutoff t)" by (intro cas_typed_mono [OF assms]) simp_all
qed

section \<open>Requests\<close>

text \<open>What the kernel guarantees of a request: the names in it are plain names, and a symlink target
  is a C string. What the standard library guarantees of a directory listing: its entries are plain
  names, without \<open>.\<close> and \<open>..\<close>.\<close>

fun request_typed :: "request \<Rightarrow> bool" where
  "request_typed (ReqLookup p n) \<longleftrightarrow> valid_name n"
| "request_typed (ReqCreate pid p n m fl) \<longleftrightarrow> valid_name n"
| "request_typed (ReqMkdir p n m) \<longleftrightarrow> valid_name n"
| "request_typed (ReqUnlink pid p n) \<longleftrightarrow> valid_name n"
| "request_typed (ReqRmdir p n) \<longleftrightarrow> valid_name n"
| "request_typed (ReqRename pid p n p' n') \<longleftrightarrow> valid_name n \<and> valid_name n'"
| "request_typed (ReqSymlink p n t) \<longleftrightarrow> valid_name n \<and> CHR 0x00 \<notin> set t"
| "request_typed _ \<longleftrightarrow> True"

fun event_typed :: "'w event \<Rightarrow> bool" where
  "event_typed (Request r) \<longleftrightarrow> request_typed r"
| "event_typed _ \<longleftrightarrow> True"

definition listings_typed :: "('w, 's, 'm) env_scheme \<Rightarrow> bool" where
  "listings_typed os \<longleftrightarrow> (\<forall>p w es n. std_read_dir os p w = Inr es \<longrightarrow> Inr n \<in> set es \<longrightarrow> valid_name n)"

lemma resolve_typed [dibs_typed]:
  "well_typed s \<Longrightarrow> valid_name n \<Longrightarrow> plain (fst (resolve_path s pa n))"
  by (cases "get_path (inodes s) pa")
     (auto simp: resolve_path_def Let_def well_typed_def dibs_typed dest: typed_paths)

lemma scan_dir_typed:
  "\<forall>n. Inr n \<in> set es \<longrightarrow> valid_name n \<Longrightarrow> plain rel \<Longrightarrow> inodes_typed t \<Longrightarrow>
   inodes_typed (snd (scan_dir os bk rel w es t))"
  by (induction os bk rel w es t rule: scan_dir.induct)
     (auto simp: Let_def dibs_typed split_beta split: sum.splits)

lemma register_typed [dibs_typed]:
  "well_typed s \<Longrightarrow> plain rel \<Longrightarrow> well_typed (snd (lookup_and_register os rel full s w))"
  by (auto simp: lookup_and_register_def well_typed_def Let_def dibs_typed split: sum.splits)

lemma virtual_plain [dibs_typed]: "plain ''.dibs/virtual''" "plain ''.dibs''"
  by (simp_all add: plain_def valid_name_def)

section \<open>Every handler keeps the types\<close>

lemma lookup_typed:
  "well_typed s \<Longrightarrow> valid_name n \<Longrightarrow> well_typed (fst (snd (fs_lookup os p n s w)))"
  using resolve_typed [of s n p] by (simp add: fs_lookup_def split_beta dibs_typed)

lemma truncate_typed:
  "well_typed s \<Longrightarrow> plain rel \<Longrightarrow> well_typed (fst (snd (setattr_truncate os rel full c sz hnd s w)))"
  by (auto simp: setattr_truncate_def well_typed_def Let_def split_beta dibs_typed
      split: option.splits sum.splits prod.splits)

lemma setattr_typed:
  assumes "well_typed s"
  shows "well_typed (fst (snd (fs_setattr os i m u g sz at mt k fl s w)))"
  using setattr_state [of os i m u g sz at mt k fl s w]
proof (elim disjE exE conjE)
  fix rel assume "get_path (inodes s) i = Some rel"
  then have "plain rel" using assms by (auto simp: well_typed_def)
  moreover assume "fst (snd (fs_setattr os i m u g sz at mt k fl s w)) =
      fst (snd (setattr_truncate os rel (backing_path s rel) (backing_path s rel) sz k s w))"
  ultimately show ?thesis using truncate_typed [OF assms] by simp
qed (use assms in simp)

lemma open_typed: "well_typed s \<Longrightarrow> well_typed (fst (snd (fs_open os pid i fl s w)))"
  by (auto simp: fs_open_def open_read_def open_write_def well_typed_def Let_def split_beta dibs_typed
      split: option.splits sum.splits prod.splits dest: typed_paths)

lemma write_typed: "well_typed s \<Longrightarrow> well_typed (fst (snd (fs_write os i k off d s w)))"
  by (auto simp: fs_write_def well_typed_def Let_def split_beta dibs_typed
      split: option.splits sum.splits prod.splits dest: typed_paths)

lemma flush_typed: "well_typed s \<Longrightarrow> well_typed (fst (snd (fs_flush os i k s w)))"
  by (auto simp: fs_flush_def well_typed_def Let_def dibs_typed split: option.splits sum.splits
      dest: typed_paths)

lemma release_typed: "well_typed s \<Longrightarrow> well_typed (fst (snd (fs_release os k s w)))"
  by (auto simp: fs_release_def well_typed_def Let_def split_beta dibs_typed split: option.splits)

lemma opendir_typed: "well_typed s \<Longrightarrow> well_typed (fst (snd (fs_opendir os i s w)))"
  by (auto simp: fs_opendir_def well_typed_def Let_def split_beta dibs_typed
      split: option.splits sum.splits prod.splits dest: typed_paths)

lemma readdir_typed:
  assumes "well_typed s" and "listings_typed os"
  shows "well_typed (fst (snd (fs_readdir os full i off s w)))"
  using assms
  by (auto simp: fs_readdir_def well_typed_def Let_def split_beta listings_typed_def
      split: option.splits sum.splits intro!: scan_dir_typed dest: typed_paths)

lemma releasedir_typed: "well_typed s \<Longrightarrow> well_typed (fst (snd (fs_releasedir os k s w)))"
  by (auto simp: fs_releasedir_def well_typed_def Let_def split_beta dibs_typed split: option.splits)

lemma create_typed:
  assumes "well_typed s" and "valid_name n"
  shows "well_typed (fst (snd (fs_create os pid p n m fl s w)))"
  using assms resolve_typed [OF assms, of p]
  by (auto simp: fs_create_def well_typed_def Let_def split_beta dibs_typed
      split: option.splits sum.splits prod.splits)

lemma mkdir_typed:
  assumes "well_typed s" and "valid_name n"
  shows "well_typed (fst (snd (fs_mkdir os p n m s w)))"
  using assms resolve_typed [OF assms, of p]
  by (auto simp: fs_mkdir_def Let_def split_beta dibs_typed split: option.splits sum.splits prod.splits)

lemma unlink_typed: "well_typed s \<Longrightarrow> well_typed (fst (snd (fs_unlink os pid p n s w)))"
  by (auto simp: fs_unlink_def well_typed_def Let_def split_beta dibs_typed
      split: option.splits sum.splits prod.splits)

lemma rmdir_typed: "well_typed s \<Longrightarrow> well_typed (fst (snd (fs_rmdir os p n s w)))"
  by (auto simp: fs_rmdir_def well_typed_def Let_def split_beta dibs_typed
      split: option.splits sum.splits prod.splits)

lemma rename_typed:
  assumes "well_typed s" and "valid_name n'"
  shows "well_typed (fst (snd (fs_rename os pid p n p' n' s w)))"
  using assms resolve_typed [OF assms, of p']
  by (auto simp: fs_rename_def well_typed_def Let_def split_beta dibs_typed
      split: option.splits sum.splits prod.splits)

lemma symlink_typed:
  assumes "well_typed s" and "valid_name n"
  shows "well_typed (fst (snd (fs_symlink os p n t s w)))"
  using assms resolve_typed [OF assms, of p]
  by (auto simp: fs_symlink_def Let_def split_beta dibs_typed
      split: option.splits sum.splits prod.splits)

lemmas handler_typed = lookup_typed setattr_typed open_typed write_typed flush_typed release_typed
  opendir_typed readdir_typed releasedir_typed create_typed mkdir_typed unlink_typed rmdir_typed
  rename_typed symlink_typed

lemma handle_typed:
  assumes "well_typed s" and "listings_typed os" and "request_typed r"
  shows "well_typed (fst (snd (handle os r s w)))"
  using assms by (cases r) (simp_all add: handler_typed dibs_frame)

lemma evict_typed:
  "well_typed s \<Longrightarrow> well_typed (s\<lparr>cas_table := evict_before cutoff (cas_table s)\<rparr>)"
  "well_typed s \<Longrightarrow> well_typed (s\<lparr>cas_table := evict_entry p (cas_table s)\<rparr>)"
  "well_typed s \<Longrightarrow> well_typed (s\<lparr>cas_table := drop_readers cutoff (cas_table s)\<rparr>)"
  by (simp_all add: well_typed_def dibs_typed)

interpretation typed_machine: invariant_component "fs_step os" "\<lambda>_ ev. listings_typed os \<and> event_typed ev"
  "\<lambda>sw. well_typed (fst sw)"
  for os :: "('w, 's, 'm) env_scheme"
proof
  fix sw :: "DibsFs \<times> 'w" and ev :: "'w event"
  assume "well_typed (fst sw)" and "listings_typed os \<and> event_typed ev"
  then show "well_typed (fst (fs_step os ev sw))"
    by (cases sw; cases ev) (simp_all add: handle_typed evict_typed)
qed

lemma mounted_typed: "CHR 0x00 \<notin> set (cfg_backing cfg) \<Longrightarrow> well_typed (fst (mounted os cfg w))"
  by (simp add: mounted_def DibsFs_new_def fs_init_def Let_def split_beta well_typed_def dibs_typed)

section \<open>Type soundness\<close>

text \<open>All the paths a state holds.\<close>

definition held_paths :: "DibsFs \<Rightarrow> path set" where
  "held_paths s = ran (get_path (inodes s)) \<union> dom (get_ino (inodes s))
     \<union> h_path ` ran (h_get (file_handles s)) \<union> dh_path ` ran (dh_get (dir_handles s))
     \<union> tracked_in (cas_table s) \<union> snd ` dom (seen_by (cas_table s))"

lemma well_typed_held: "well_typed s \<Longrightarrow> p \<in> held_paths s \<Longrightarrow> plain p"
  unfolding well_typed_def held_paths_def inodes_typed_def handles_typed_def dirs_typed_def
    cas_typed_def ran_def dom_def
  by auto blast

lemma backing_path_cstring:
  "well_typed s \<Longrightarrow> plain rel \<Longrightarrow> path_to_cstring (backing_path s rel) = Inr (backing_path s rel)"
  by (auto simp: backing_path_def join_def well_typed_def dest: plain_nul_free)

lemma resolve_cstring:
  "well_typed s \<Longrightarrow> valid_name n \<Longrightarrow>
   path_to_cstring (snd (resolve_path s pa n)) = Inr (snd (resolve_path s pa n))"
  using resolve_typed [of s n pa] backing_path_cstring [of s "fst (resolve_path s pa n)"]
  by (simp add: resolve_path_def Let_def)

lemma held_cstring:
  "well_typed s \<Longrightarrow> get_path (inodes s) i = Some rel \<Longrightarrow>
   path_to_cstring (backing_path s rel) = Inr (backing_path s rel)"
  by (rule backing_path_cstring) (auto simp: well_typed_def)

text \<open>
  What fuser and the system document of errors: an OS error is passed on with its code, an invalid
  input becomes \<open>EINVAL\<close>, and a system call fails with an OS error. The standard library's functions
  on paths, which convert the path themselves, do so for every path without a NUL byte. As \<open>errno\<close>
  keeps codes passed on apart from named ones, a reply of \<open>EINVAL\<close> is then the sign of a failed
  conversion.
\<close>

fun os_error :: "io_error \<Rightarrow> bool" where
  "os_error (OsError n) \<longleftrightarrow> True"
| "os_error (InvalidInput m) \<longleftrightarrow> False"

definition errno_documented :: "('w, 's, 'm) env_scheme \<Rightarrow> bool" where
  "errno_documented os \<longleftrightarrow> (\<forall>n. errno_from os (OsError n) = Errno n) \<and> (\<forall>m. errno_from os (InvalidInput m) = EINVAL)"

definition observing_calls_documented :: "('w, 's, 'm) env_scheme \<Rightarrow> bool" where
  "observing_calls_documented os \<longleftrightarrow>
     (\<forall>p w e. sys_lstat os p w = Inl e \<longrightarrow> os_error e) \<and> (\<forall>fd w e. sys_fstat os fd w = Inl e \<longrightarrow> os_error e)
     \<and> (\<forall>p m w e. sys_access os p m w = Some e \<longrightarrow> os_error e)
     \<and> (\<forall>p w e. sys_statfs os p w = Inl e \<longrightarrow> os_error e)
     \<and> (\<forall>fd n off w e. sys_pread os fd n off w = Inl e \<longrightarrow> os_error e)
     \<and> (\<forall>p w e. CHR 0x00 \<notin> set p \<longrightarrow> std_read_dir os p w = Inl e \<longrightarrow> os_error e)
     \<and> (\<forall>p w e. CHR 0x00 \<notin> set p \<longrightarrow> std_read_link os p w = Inl e \<longrightarrow> os_error e)"

definition changing_calls_documented :: "('w, 's, 'm) env_scheme \<Rightarrow> bool" where
  "changing_calls_documented os \<longleftrightarrow>
     (\<forall>p fl m w e. fst (sys_open os p fl m w) = Inl e \<longrightarrow> os_error e)
     \<and> (\<forall>fd d off w e. fst (sys_pwrite os fd d off w) = Inl e \<longrightarrow> os_error e)
     \<and> (\<forall>fd n w e. fst (sys_ftruncate os fd n w) = Some e \<longrightarrow> os_error e)
     \<and> (\<forall>p n w e. fst (sys_truncate os p n w) = Some e \<longrightarrow> os_error e)
     \<and> (\<forall>p m w e. fst (sys_chmod os p m w) = Some e \<longrightarrow> os_error e)
     \<and> (\<forall>p u g w e. fst (sys_chown os p u g w) = Some e \<longrightarrow> os_error e)
     \<and> (\<forall>p a m w e. fst (sys_utimensat os p a m w) = Some e \<longrightarrow> os_error e)
     \<and> (\<forall>p f w e. fst (sys_chflags os p f w) = Some e \<longrightarrow> os_error e)
     \<and> (\<forall>p m w e. fst (sys_mkdir os p m w) = Some e \<longrightarrow> os_error e)
     \<and> (\<forall>p w e. fst (sys_unlink os p w) = Some e \<longrightarrow> os_error e)
     \<and> (\<forall>p w e. fst (sys_rmdir os p w) = Some e \<longrightarrow> os_error e)
     \<and> (\<forall>p q w e. fst (sys_rename os p q w) = Some e \<longrightarrow> os_error e)
     \<and> (\<forall>p q w e. fst (sys_symlink os p q w) = Some e \<longrightarrow> os_error e)
     \<and> (\<forall>p w e. fst (sys_opendir os p w) = Inl e \<longrightarrow> os_error e)"

definition errors_documented :: "('w, 's, 'm) env_scheme \<Rightarrow> bool" where
  "errors_documented os \<longleftrightarrow>
     errno_documented os \<and> observing_calls_documented os \<and> changing_calls_documented os"

text \<open>The code replied for an error is not \<open>EINVAL\<close>.\<close>

lemma os_error_code: "errors_documented os \<Longrightarrow> os_error e \<Longrightarrow> errno_from os e \<noteq> EINVAL"
  by (cases e) (simp_all add: errors_documented_def errno_documented_def)

lemma observing_codes:
  assumes "errors_documented os"
  shows "sys_fstat os fd w = Inl e \<Longrightarrow> errno_from os e \<noteq> EINVAL"
    and "sys_access os p am w = Some e \<Longrightarrow> errno_from os e \<noteq> EINVAL"
    and "sys_statfs os p w = Inl e \<Longrightarrow> errno_from os e \<noteq> EINVAL"
    and "sys_pread os fd n off w = Inl e \<Longrightarrow> errno_from os e \<noteq> EINVAL"
    and "CHR 0x00 \<notin> set p \<Longrightarrow> std_read_dir os p w = Inl e \<Longrightarrow> errno_from os e \<noteq> EINVAL"
    and "CHR 0x00 \<notin> set p \<Longrightarrow> std_read_link os p w = Inl e \<Longrightarrow> errno_from os e \<noteq> EINVAL"
    and "CHR 0x00 \<notin> set p \<Longrightarrow> lstat os p w = Inl e \<Longrightarrow> errno_from os e \<noteq> EINVAL"
  using assms os_error_code [OF assms]
  by (simp_all add: errors_documented_def observing_calls_documented_def lstat_def path_to_cstring_def)

lemma changing_codes:
  assumes "errors_documented os"
  shows "fst (sys_open os p fl m w) = Inl e \<Longrightarrow> errno_from os e \<noteq> EINVAL"
    and "fst (sys_pwrite os fd d off' w) = Inl e \<Longrightarrow> errno_from os e \<noteq> EINVAL"
    and "fst (sys_ftruncate os fd n w) = Some e \<Longrightarrow> errno_from os e \<noteq> EINVAL"
    and "fst (sys_truncate os p n w) = Some e \<Longrightarrow> errno_from os e \<noteq> EINVAL"
    and "fst (sys_chmod os p pm w) = Some e \<Longrightarrow> errno_from os e \<noteq> EINVAL"
    and "fst (sys_chown os p u g w) = Some e \<Longrightarrow> errno_from os e \<noteq> EINVAL"
    and "fst (sys_utimensat os p at mt w) = Some e \<Longrightarrow> errno_from os e \<noteq> EINVAL"
    and "fst (sys_chflags os p f w) = Some e \<Longrightarrow> errno_from os e \<noteq> EINVAL"
    and "fst (sys_mkdir os p pm w) = Some e \<Longrightarrow> errno_from os e \<noteq> EINVAL"
    and "fst (sys_unlink os p w) = Some e \<Longrightarrow> errno_from os e \<noteq> EINVAL"
    and "fst (sys_rmdir os p w) = Some e \<Longrightarrow> errno_from os e \<noteq> EINVAL"
    and "fst (sys_rename os p q w) = Some e \<Longrightarrow> errno_from os e \<noteq> EINVAL"
    and "fst (sys_symlink os p q w) = Some e \<Longrightarrow> errno_from os e \<noteq> EINVAL"
    and "fst (sys_opendir os p w) = Inl e \<Longrightarrow> errno_from os e \<noteq> EINVAL"
  using assms os_error_code [OF assms]
  by (simp_all add: errors_documented_def changing_calls_documented_def)

lemma run_calls_error: "fst (run_calls cs w) = Some e \<Longrightarrow> \<exists>c \<in> set cs. \<exists>w. fst (c w) = Some e"
proof (induction cs w rule: run_calls.induct)
  case (2 c cs w)
  obtain r w1 where c: "c w = (r, w1)" by force
  show ?case
  proof (cases r)
    case None
    then show ?thesis using 2 c by simp
  next
    case (Some x)
    with 2 c have "fst (c w) = Some e" by simp
    then show ?thesis by auto
  qed
qed simp

lemma meta_code:
  assumes "errors_documented os" and "fst (setattr_meta os c m u g at mt fl w) = Some e"
  shows "errno_from os e \<noteq> EINVAL"
  using run_calls_error [OF assms(2) [unfolded setattr_meta_def]] changing_codes [OF assms(1)]
  by (auto split: option.splits if_splits)

lemma attr_reply_einval:
  "errors_documented os \<Longrightarrow> CHR 0x00 \<notin> set full \<Longrightarrow> fst (attr_reply os full i s w) \<noteq> ReplyError EINVAL"
  using observing_codes(7) [of os full] by (auto simp: attr_reply_def split: sum.splits)

lemma register_einval:
  "errors_documented os \<Longrightarrow> CHR 0x00 \<notin> set full \<Longrightarrow>
   fst (entry_reply os (lookup_and_register os rel full s w) w') \<noteq> ReplyError EINVAL"
  using observing_codes(7) [of os full]
  by (auto simp: entry_reply_def lookup_and_register_def Let_def split: sum.splits)

lemma truncate_einval:
  "errors_documented os \<Longrightarrow> fst (setattr_truncate os rel full c sz k s w) \<noteq> Some EINVAL"
  using changing_codes(3,4) [of os]
  by (auto simp: setattr_truncate_def Let_def split_beta split: option.splits sum.splits)

lemma held_nul_free:
  "well_typed s \<Longrightarrow> get_path (inodes s) i = Some rel \<Longrightarrow> CHR 0x00 \<notin> set (backing_path s rel)"
  using held_cstring by fastforce

lemma backing_nul_free: "well_typed s \<Longrightarrow> CHR 0x00 \<notin> set (backing s)"
  "well_typed s \<Longrightarrow> CHR 0x00 \<notin> set (backing_path s [])"
  using backing_path_cstring [OF _ plain_Nil, of s] by (auto simp: well_typed_def)

lemma setattr_einval:
  assumes "well_typed s" and "errors_documented os"
  shows "fst (fs_setattr os i m u g sz at mt k fl s w) \<noteq> ReplyError EINVAL"
proof (cases "get_path (inodes s) i")
  case (Some rel)
  let ?full = "backing_path s rel"
  have nul: "CHR 0x00 \<notin> set ?full" using held_nul_free [OF assms(1) Some] .
  obtain r s1 w1 where t: "setattr_truncate os rel ?full ?full sz k s w = (r, s1, w1)"
    by (cases "setattr_truncate os rel ?full ?full sz k s w") auto
  then have "r \<noteq> Some EINVAL"
    using truncate_einval [OF assms(2), of rel ?full ?full sz k s w] by simp
  then show ?thesis
    using Some nul t attr_reply_einval [OF assms(2) nul] meta_code [OF assms(2)]
    by (auto simp: fs_setattr_def path_to_cstring_def Let_def split_beta split: option.splits)
qed (simp add: fs_setattr_def)

lemma inode_requests_einval:
  assumes "well_typed s" and "errors_documented os"
  shows "fst (fs_getattr os i s w) \<noteq> ReplyError EINVAL"
    and "fst (fs_open os pid i ofl s w) \<noteq> ReplyError EINVAL"
    and "fst (fs_opendir os i s w) \<noteq> ReplyError EINVAL"
    and "fst (fs_access os i am s w) \<noteq> ReplyError EINVAL"
    and "fst (fs_statfs os s w) \<noteq> ReplyError EINVAL"
    and "fst (fs_readlink os i s w) \<noteq> ReplyError EINVAL"
    and "fst (fs_readdir os full i off s w) \<noteq> ReplyError EINVAL"
proof -
  note nul = held_nul_free [OF assms(1)] backing_nul_free [OF assms(1)]
  note codes = observing_codes [OF assms(2)] changing_codes [OF assms(2)]
  show "fst (fs_getattr os i s w) \<noteq> ReplyError EINVAL"
    using attr_reply_einval [OF assms(2)] nul by (auto simp: fs_getattr_def split: option.splits)
  show "fst (fs_open os pid i ofl s w) \<noteq> ReplyError EINVAL"
    using nul codes(8)
    by (auto simp: fs_open_def open_read_def open_write_def path_to_cstring_def Let_def split_beta
        split: option.splits sum.splits)
  show "fst (fs_opendir os i s w) \<noteq> ReplyError EINVAL"
    using nul codes(21)
    by (auto simp: fs_opendir_def path_to_cstring_def Let_def split_beta split: option.splits sum.splits)
  show "fst (fs_access os i am s w) \<noteq> ReplyError EINVAL"
    using nul codes(2) by (auto simp: fs_access_def path_to_cstring_def split: option.splits sum.splits)
  show "fst (fs_statfs os s w) \<noteq> ReplyError EINVAL"
    using nul codes(3) by (auto simp: fs_statfs_def path_to_cstring_def split: sum.splits)
  show "fst (fs_readlink os i s w) \<noteq> ReplyError EINVAL"
    using nul(1) [of i] codes(6) by (fastforce simp: fs_readlink_def split: option.splits sum.splits)
  show "fst (fs_readdir os full i off s w) \<noteq> ReplyError EINVAL"
    using codes(5) [OF nul(1)] codes(5) [OF nul(3)]
    by (auto simp: fs_readdir_def dir_reply_def Let_def split_beta split: option.splits sum.splits)
qed

lemma name_requests_einval:
  assumes "well_typed s" and "errors_documented os" and "valid_name n"
  shows "fst (fs_lookup os pa n s w) \<noteq> ReplyError EINVAL"
    and "fst (fs_create os pid pa n m fl s w) \<noteq> ReplyError EINVAL"
    and "fst (fs_mkdir os pa n m s w) \<noteq> ReplyError EINVAL"
    and "fst (fs_unlink os pid pa n s w) \<noteq> ReplyError EINVAL"
    and "fst (fs_rmdir os pa n s w) \<noteq> ReplyError EINVAL"
    and "CHR 0x00 \<notin> set t \<Longrightarrow> fst (fs_symlink os pa n t s w) \<noteq> ReplyError EINVAL"
    and "valid_name n' \<Longrightarrow> fst (fs_rename os pid pa n pa' n' s w) \<noteq> ReplyError EINVAL"
proof -
  have c: "CHR 0x00 \<notin> set (snd (resolve_path s q x))" if "valid_name x" for q x
    using resolve_cstring [OF assms(1) that] by simp
  note nul = c [OF assms(3)]
  note reg = register_einval [OF assms(2) nul]
  note codes = observing_codes(1) [OF assms(2)] changing_codes [OF assms(2)]
  note ds = path_to_cstring_def Let_def split_beta
  show "fst (fs_lookup os pa n s w) \<noteq> ReplyError EINVAL"
    using reg by (simp add: fs_lookup_def ds)
  show "fst (fs_create os pid pa n m fl s w) \<noteq> ReplyError EINVAL"
    using nul codes(1,2) by (auto simp: fs_create_def fstat_def ds split: sum.splits)
  show "fst (fs_mkdir os pa n m s w) \<noteq> ReplyError EINVAL"
    using nul reg codes(10) by (auto simp: fs_mkdir_def ds split: option.splits)
  show "fst (fs_unlink os pid pa n s w) \<noteq> ReplyError EINVAL"
    using nul codes(11) by (auto simp: fs_unlink_def ds split: option.splits)
  show "fst (fs_rmdir os pa n s w) \<noteq> ReplyError EINVAL"
    using nul codes(12) by (auto simp: fs_rmdir_def ds split: option.splits)
  show "CHR 0x00 \<notin> set t \<Longrightarrow> fst (fs_symlink os pa n t s w) \<noteq> ReplyError EINVAL"
    using nul reg codes(14) by (auto simp: fs_symlink_def ds split: option.splits)
  show "valid_name n' \<Longrightarrow> fst (fs_rename os pid pa n pa' n' s w) \<noteq> ReplyError EINVAL"
    using nul c [of n' pa'] codes(13) by (auto simp: fs_rename_def ds split: option.splits)
qed

lemma data_requests_einval:
  assumes "errors_documented os"
  shows "fst (fs_read os i k off n s w) \<noteq> ReplyError EINVAL"
    and "fst (fs_write os i k off d s w) \<noteq> ReplyError EINVAL"
    and "fst (fs_flush os i k s w) \<noteq> ReplyError EINVAL"
    and "fst (fs_release os k s w) \<noteq> ReplyError EINVAL"
    and "fst (fs_releasedir os k s w) \<noteq> ReplyError EINVAL"
    and "fst (fs_link s w) \<noteq> ReplyError EINVAL"
  using observing_codes(4) [OF assms] changing_codes(2) [OF assms]
  by (auto simp: fs_read_def slice_reply_def fs_write_def fs_flush_def fs_release_def fs_releasedir_def
      fs_link_def Let_def split_beta split: option.splits sum.splits)

lemma handle_einval:
  assumes "well_typed s" and "request_typed r" and "errors_documented os"
  shows "fst (handle os r s w) \<noteq> ReplyError EINVAL"
  using assms
  by (cases r) (simp_all add: setattr_einval inode_requests_einval name_requests_einval data_requests_einval)

text \<open>
  C7: Type soundness of paths. If the kernel sends plain names and directory listings contain plain
  names, then from mounting on every path in the inode table, in the handles and in the conflict
  table is a sequence of plain names below the root. So two keys of the tables, which Rust compares
  component by component, are equal exactly if their bytes are; every path can be handed to the
  system as a C string; and, with errors as fuser and the system document them, no further request is
  answered with the \<open>EINVAL\<close> that stands for a failed conversion of a path, in a handler, in \<open>lstat\<close> or
  in the standard library.
\<close>

theorem paths_type_sound:
  assumes "CHR 0x00 \<notin> set (cfg_backing cfg)" and "listings_typed os"
    and "list_all event_typed evs" and "fs_run os evs (mounted os cfg w) = (s, w')"
  shows "(\<forall>p \<in> held_paths s. plain p \<and> (\<forall>q \<in> held_paths s. components p = components q \<longleftrightarrow> p = q)
      \<and> path_to_cstring (backing_path s p) = Inr (backing_path s p))
    \<and> (request_typed r \<longrightarrow> errors_documented os \<longrightarrow> fst (handle os r s w') \<noteq> ReplyError EINVAL)"
proof -
  have "admissible_run (fs_step os) (\<lambda>_ ev. listings_typed os \<and> event_typed ev) sw evs" for sw
    using assms(2,3) by (simp add: admissible_run_const list_all_iff)
  then have "well_typed (fst (fold (fs_step os) evs (mounted os cfg w)))"
    by (intro typed_machine.run_invar [OF mounted_typed [OF assms(1)]])
  then have typed: "well_typed s" using assms(4) by (simp add: fs_run_def)
  then have "\<forall>p \<in> held_paths s. plain p \<and> (\<forall>q \<in> held_paths s. components p = components q \<longleftrightarrow> p = q)
      \<and> path_to_cstring (backing_path s p) = Inr (backing_path s p)"
    using well_typed_held plain_key backing_path_cstring by blast
  then show ?thesis by (intro conjI impI handle_einval [OF typed])
qed

end
