(* ===== verification/Namespace.thy ===== *)
theory Namespace
  imports Path_Types
begin

text \<open>
  The name space the file system shows: paths stay below the backing directory, lookups and
  directory listings register the inodes that later requests use, listings can be read in pages,
  and the files of the virtual \<open>.dibs\<close> directory show the conflict table.
\<close>

section \<open>Paths stay below the backing directory\<close>

lemma split_sep_append_gen: "split_sep (b @ sep # r) = split_sep b @ split_sep r"
  by (induction b) (auto split: list.splits)

lemma components_join:
  assumes "b \<noteq> []" and "last b \<noteq> sep" and "r \<noteq> []" and "\<not> is_absolute r"
    and "hd (split_sep r) \<noteq> ''.''"
  shows "components (join b r) = components b @ components r"
  using assms
  by (simp add: components_def join_def split_sep_append_gen is_absolute_def hd_append)

lemma rel_head: "ns \<noteq> [] \<Longrightarrow> (\<And>m. m \<in> set ns \<Longrightarrow> valid_name m) \<Longrightarrow>
    hd (split_sep (rel_of_names ns)) \<noteq> ''.''"
  using split_sep_rel [of ns] by (cases ns) (auto simp: valid_name_def)

text \<open>
  C19: Every request names a file below the backing directory: for a parent directory registered under
  a path of plain names (or the root) and a plain name, the resolved path is that parent's child,
  and the real path is the backing directory's followed by exactly these names. No request of
  that form leaves the backing directory.
\<close>

theorem resolve_stays_below:
  assumes "pa = 1 \<and> ns = [] \<or> pa \<noteq> 1 \<and> get_path (inodes s) pa = Some (rel_of_names ns)"
    and "\<forall>m \<in> set ns. valid_name m" and "valid_name n"
    and "backing s \<noteq> []" and "last (backing s) \<noteq> sep"
  shows "fst (resolve_path s pa n) = rel_of_names (ns @ [n])
    \<and> parent (fst (resolve_path s pa n)) = Some (rel_of_names ns)
    \<and> components (snd (resolve_path s pa n)) = components (backing s) @ map Normal (ns @ [n])"
proof -
  have valid: "\<And>m. m \<in> set (ns @ [n]) \<Longrightarrow> valid_name m" using assms(2,3) by auto
  have rel: "fst (resolve_path s pa n) = rel_of_names (ns @ [n])"
    using assms(1) join_rel [of ns n] assms(2,3) by (auto simp: resolve_path_def Let_def)
  have "parent (rel_of_names (ns @ [n])) = Some (rel_of_names ns)"
    using parent_rel [of "ns @ [n]", OF valid] by simp
  moreover have "rel_of_names (ns @ [n]) \<noteq> []"
    using rel_of_names_snoc_last [of "ns @ [n]", OF _ valid] by simp
  then have "components (join (backing s) (rel_of_names (ns @ [n]))) =
      components (backing s) @ components (rel_of_names (ns @ [n]))"
    using rel_not_absolute [of "ns @ [n]", OF valid] rel_head [of "ns @ [n]", OF _ valid]
    by (intro components_join [OF assms(4,5)]) auto
  ultimately show ?thesis
    using rel components_rel [of "ns @ [n]", OF valid]
    by (simp add: resolve_path_def backing_path_def Let_def)
qed

section \<open>Attributes\<close>

text \<open>
  A time survives the way through the file system: what \<open>stat\<close> reports, converted for the kernel
  and converted back when the kernel sets it, is the same seconds and nanoseconds, for every time
  from 1970 on.
\<close>

lemma time_roundtrip:
  assumes "0 \<le> sint sec" and "0 \<le> sint nsec" and "sint nsec < 10 ^ 9"
  shows "to_timespec (Some (SpecificTime (system_time_from_parts sec nsec))) =
    \<lparr>tv_sec = sint sec, tv_nsec = sint nsec\<rparr>"
proof -
  have self: "uint x = sint x" if "0 \<le> sint x" for x :: i64
    using that sint_lt [of x] by (simp add: uint_sint take_bit_int_eq_self)
  have "uint (ucast nsec :: u32) = take_bit 32 (uint nsec)"
    by (simp add: unsigned_ucast_eq)
  also have "\<dots> = sint nsec"
    using assms(2,3) by (simp add: self take_bit_int_eq_self)
  finally show ?thesis
    using assms by (simp add: to_timespec_def system_time_from_parts_def duration_new_def
        UNIX_EPOCH_def self)
qed

section \<open>Lookup\<close>

lemma lookup_registers:
  assumes "fs_lookup os pa n s w = (ReplyEntry attr, s', w')" and "\<not> is_dibs_ino pa"
    and "\<not> (pa = 1 \<and> is_dibs_name n)" and "fst (resolve_path s pa n) = rel" and "rel \<noteq> []"
  obtains st where "lstat os (backing_path s rel) w = Inr st" and "attr = stat_to_file_attr st" and "w' = w"
    and "s' = s\<lparr>inodes := inode_insert (fa_ino attr) rel (inodes s)\<rparr>"
proof -
  have r: "resolve_path s pa n = (rel, backing_path s rel)"
    using assms(4) by (auto simp: resolve_path_def Let_def)
  have "pa \<noteq> DIBS_DIR_INO" using assms(2) by (auto simp: is_dibs_ino_def is_synthetic_def DIBS_DIR_INO_def)
  with assms(1,3,5) r show thesis
    by (auto simp: fs_lookup_def entry_reply_def lookup_and_register_def Let_def
        intro: that split: sum.splits if_splits prod.splits)
qed

text \<open>
  C20: The inode a lookup hands to the kernel is good for later requests, unless the number the backing
  file system gave the file is that of the root or one reserved for the virtual directory: it resolves
  to the path that was looked up, and in an unchanged world \<open>getattr\<close> of it gives the same attributes.
\<close>

theorem lookup_then_getattr:
  assumes "fs_lookup os pa n s w = (ReplyEntry attr, s', w')" and "\<not> is_dibs_ino pa"
    and "\<not> (pa = 1 \<and> is_dibs_name n)" and "fst (resolve_path s pa n) \<noteq> []"
    and "fa_ino attr \<noteq> 1" and "\<not> is_dibs_ino (fa_ino attr)"
  shows "get_path (inodes s') (fa_ino attr) = Some (fst (resolve_path s pa n))
    \<and> fs_getattr os (fa_ino attr) s' w' = (ReplyAttr attr, s', w')"
proof -
  obtain st where "lstat os (backing_path s (fst (resolve_path s pa n))) w = Inr st"
    and "attr = stat_to_file_attr st" and "w' = w"
    and "s' = s\<lparr>inodes := inode_insert (fa_ino attr) (fst (resolve_path s pa n)) (inodes s)\<rparr>"
    by (rule lookup_registers [OF assms(1-3) refl assms(4)])
  then show ?thesis
    using assms(5,6)
    by (auto simp: inode_lookups fs_getattr_def attr_reply_def backing_path_def is_dibs_ino_def
        is_synthetic_def synthetic_inos)
qed

text \<open>
  An inode stays valid across a rename: the number the kernel holds for the old path resolves to
  the new path afterwards.
\<close>

lemma rename_keeps_inode:
  assumes "fs_rename os pid pa n pa' n' s w = (ReplyOk, s', w')"
    and "get_ino (inodes s) (fst (resolve_path s pa n)) = Some i"
  shows "get_path (inodes s') i = Some (fst (resolve_path s pa' n'))
    \<and> get_ino (inodes s') (fst (resolve_path s pa' n')) = Some i"
  using assms
  by (auto simp: fs_rename_def Let_def inode_lookups split: if_splits sum.splits prod.splits option.splits)

section \<open>Directory listings\<close>

lemma scan_dir_fold:
  "snd (scan_dir os bk rel w es t) =
     fold (\<lambda>(i, p). inode_insert i p)
       (map (\<lambda>(i, kind, name). (i, join rel name)) (fst (scan_dir os bk rel w es t))) t"
  by (induction os bk rel w es t rule: scan_dir.induct)
     (auto simp: Let_def split_beta split: sum.splits)

text \<open>What one entry of the backing directory contributes to a listing.\<close>

definition dir_entry ::
  "('w, 's, 'm) env_scheme \<Rightarrow> path \<Rightarrow> path \<Rightarrow> 'w \<Rightarrow> io_error + string \<Rightarrow> (u64 \<times> FileType \<times> string) option"
where
  "dir_entry os bk rel w e = (case e of
       Inl _ \<Rightarrow> None
     | Inr raw \<Rightarrow> (if to_string_lossy raw = ''.dibs-conflicts'' then None
         else case lstat os (join bk (join rel (to_string_lossy raw))) w of
           Inl _ \<Rightarrow> None
         | Inr st \<Rightarrow> Some (st_ino st, mode_to_filetype (ucast (st_mode st)), to_string_lossy raw)))"

lemma scan_dir_found:
  "fst (scan_dir os bk rel w es t) = List.map_filter (dir_entry os bk rel w) es"
  by (induction os bk rel w es t rule: scan_dir.induct)
     (auto simp: Let_def split_beta map_filter_simps stat_to_file_attr_def dir_entry_def
       split: sum.splits)

lemma dir_entry_name:
  "dir_entry os bk rel w e = Some (j, kind, name) \<Longrightarrow> \<exists>raw. e = Inr raw \<and> name = to_string_lossy raw"
  by (auto simp: dir_entry_def split: sum.splits if_splits)

lemma dir_entry_hides: "dir_entry os bk rel w e = Some (j, kind, name) \<Longrightarrow> name \<noteq> ''.dibs-conflicts''"
  by (auto simp: dir_entry_def split: sum.splits if_splits)

text \<open>
  What a listing shows can be used: after \<open>readdir\<close> of a real directory whose entries have
  different inodes, every inode it read resolves to the entry's path below that directory. The
  internal directory \<open>.dibs-conflicts\<close> is never among the entries.
\<close>

lemma readdir_registers:
  assumes "fs_inv s" and "\<not> is_dibs_ino i"
    and "(if i = 1 then Some [] else get_path (inodes s) i) = Some rel"
    and "std_read_dir os (backing_path s rel) w = Inr es"
    and "found = List.map_filter (dir_entry os (backing s) rel w) es"
    and "distinct (map fst found)" and "distinct (map (\<lambda>(j, kind, name). join rel name) found)"
    and "(j, kind, name) \<in> set found"
  shows "get_path (inodes (fst (snd (fs_readdir os full i off s w)))) j = Some (join rel name)
    \<and> name \<noteq> ''.dibs-conflicts''"
proof
  let ?t = "snd (scan_dir os (backing s) rel w es (inodes s))"
  have "get_path ?t j = Some (join rel name)"
    unfolding scan_dir_fold scan_dir_found assms(5) [symmetric]
  proof (rule ino_index.path_of_fold_insert)
    show "inodes_consistent (inodes s)" using assms(1) by (simp add: fs_inv_def)
    show "(j, join rel name) \<in> set (map (\<lambda>(i, kind, name). (i, join rel name)) found)"
      using assms(8) by force
    show "distinct (map fst (map (\<lambda>(i, kind, name). (i, join rel name)) found))"
      using assms(6) by (simp add: split_beta o_def)
    have "map snd (map (\<lambda>(i, kind, name). (i, join rel name)) found) =
        map (\<lambda>(j, kind, name). join rel name) found"
      by auto
    then show "distinct (map snd (map (\<lambda>(i, kind, name). (i, join rel name)) found))"
      using assms(7) by (simp only:)
  qed
  moreover have "i \<noteq> DIBS_DIR_INO" "i \<noteq> DIBS_CONFLICTS_DIR_INO"
    using assms(2) by (auto simp: is_dibs_ino_def is_synthetic_def synthetic_inos)
  ultimately show "get_path (inodes (fst (snd (fs_readdir os full i off s w)))) j = Some (join rel name)"
    using assms(3,4) by (simp add: fs_readdir_def Let_def split_beta)
  show "name \<noteq> ''.dibs-conflicts''"
    using assms(8) dir_entry_hides [of os "backing s" rel w _ j kind name]
    unfolding assms(5) by (auto simp: List.map_filter_def)
qed

subsection \<open>Paging\<close>

lemma add_entries_prefix: "\<exists>n. add_entries full acc es = acc @ take n es \<and> n \<le> length es"
proof (induction full acc es rule: add_entries.induct)
  case (1 full acc)
  show ?case by simp
next
  case (2 full acc e es)
  show ?case
  proof (cases "full acc e")
    case True
    then show ?thesis by (auto intro: exI [of _ 0])
  next
    case False
    with 2 obtain n where "add_entries full (acc @ [e]) es = (acc @ [e]) @ take n es" "n \<le> length es"
      by auto
    with False show ?thesis by (auto intro!: exI [of _ "Suc n"])
  qed
qed

lemma add_entries_progress:
  assumes "es \<noteq> []" and "\<not> full [] (hd es)"
  shows "\<exists>n > 0. add_entries full [] es = take n es \<and> n \<le> length es"
proof -
  obtain e es' where es: "es = e # es'" using assms(1) by (cases es) auto
  obtain n where "add_entries full [e] es' = [e] @ take n es'" "n \<le> length es'"
    using add_entries_prefix by blast
  then show ?thesis using es assms(2) by (auto intro!: exI [of _ "Suc n"])
qed

lemma length_numbered [simp]: "length (numbered es) = length es"
  by (simp add: numbered_def)

lemma numbered_offset: "i < length es \<Longrightarrow> de_offset (numbered es ! i) = of_nat (i + 1)"
  by (simp add: numbered_def split_beta)

text \<open>A client that reads a directory page by page, going on after the last entry it got. Each page is
  read from the state the page before has left.\<close>

fun read_pages ::
  "('w, 's, 'm) env_scheme \<Rightarrow> (dirent list \<Rightarrow> dirent \<Rightarrow> bool) \<Rightarrow> u64 \<Rightarrow> nat \<Rightarrow> u64 \<Rightarrow> DibsFs \<times> 'w \<Rightarrow>
   dirent list"
where
  "read_pages os full i 0 off sw = []"
| "read_pages os full i (Suc fuel) off (s, w) = (case fs_readdir os full i off s w of
     (ReplyDirectory ds, sw') \<Rightarrow>
       if ds = [] then [] else ds @ read_pages os full i fuel (de_offset (last ds)) sw'
   | _ \<Rightarrow> [])"

text \<open>If every page is a page of the same listing, the pages put together are the listing.\<close>

lemma read_pages_from:
  assumes "\<And>e. \<not> full [] e" and "length es < 2 ^ 64"
    and step: "\<And>s off. P s \<Longrightarrow> \<exists>s'. fs_readdir os full i off s w = (dir_reply full off es, s', w) \<and> P s'"
  shows "P s \<Longrightarrow> k \<le> length es \<Longrightarrow> length es - k < fuel \<Longrightarrow>
    read_pages os full i fuel (of_nat k) (s, w) = drop k (numbered es)"
proof (induction fuel arbitrary: k s)
  case 0
  then show ?case by simp
next
  case (Suc fuel)
  have k: "unat (of_nat k :: u64) = k"
    using Suc.prems(2) assms(2) by (simp add: unat_of_nat take_bit_nat_eq_self)
  obtain s' where s': "fs_readdir os full i (of_nat k) s w = (dir_reply full (of_nat k) es, s', w)" "P s'"
    using step [OF Suc.prems(1)] by blast
  show ?case
  proof (cases "k = length es")
    case True
    then show ?thesis using k s' by (simp add: dir_reply_def)
  next
    case False
    then have "drop k (numbered es) \<noteq> []" using Suc.prems(2) by simp
    from add_entries_progress [of _ full, OF this] assms(1) obtain n where n: "0 < n"
      "add_entries full [] (drop k (numbered es)) = take n (drop k (numbered es))"
      "n \<le> length es - k"
      by (metis length_drop length_numbered)
    then have len: "length (take n (drop k (numbered es))) = n" by simp
    then have "last (take n (drop k (numbered es))) = numbered es ! (k + n - 1)"
      using n by (subst last_conv_nth) (auto simp: nth_take)
    then have "de_offset (last (take n (drop k (numbered es)))) = of_nat (k + n)"
      using numbered_offset [of "k + n - 1" es] n by simp
    moreover have "take n (drop k (numbered es)) \<noteq> []" using n len by auto
    ultimately show ?thesis
      using Suc.IH [OF s'(2), of "k + n"] Suc.prems n k s'(1)
        append_take_drop_id [of n "drop k (numbered es)"]
      by (simp add: dir_reply_def add.commute)
  qed
qed

text \<open>Registering entries leaves alone what does not concern them.\<close>

lemma fold_insert_path:
  "get_path (fold (\<lambda>(i, p). inode_insert i p) es t) j = Some q \<Longrightarrow>
   q \<in> snd ` set es \<or> get_path t j = Some q"
  by (induction es arbitrary: t) (fastforce simp: inode_lookups split: if_splits)+

lemma fold_insert_ino:
  "q \<notin> snd ` set es \<Longrightarrow> \<forall>j \<in> fst ` set es. get_path t j \<noteq> Some q \<Longrightarrow>
   get_ino (fold (\<lambda>(i, p). inode_insert i p) es t) q = get_ino t q"
proof (induction es arbitrary: t)
  case (Cons e es)
  have "\<forall>j \<in> fst ` set es. get_path (inode_insert (fst e) (snd e) t) j \<noteq> Some q"
    using Cons.prems by (auto simp: inode_lookups)
  then show ?case using Cons.IH [of "inode_insert (fst e) (snd e) t"] Cons.prems
    by (auto simp: split_beta inode_lookups)
qed simp

text \<open>A directory whose listing does not disturb it: it is registered under its path, and no entry
  carries an inode number by which the table knows the directory or its parent.\<close>

definition dir_undisturbed ::
  "u64 \<Rightarrow> path \<Rightarrow> (u64 \<times> FileType \<times> string) list \<Rightarrow> DibsFs \<Rightarrow> bool"
where
  "dir_undisturbed i rel found s \<longleftrightarrow> (if i = 1 then Some [] else get_path (inodes s) i) = Some rel \<and>
     (i \<noteq> 1 \<longrightarrow> (\<forall>(j, kind, name) \<in> set found.
        get_path (inodes s) j \<notin> {Some rel, Some (option_or [] (parent rel))}))"

lemma child_not_above:
  assumes "plain rel" and "valid_name n"
  shows "join rel n \<noteq> rel" and "join rel n \<noteq> option_or [] (parent rel)"
proof -
  obtain ns where ns: "rel = rel_of_names ns" "\<forall>m \<in> set ns. valid_name m" using assms(1) plain_names by blast
  then have valid: "\<forall>m \<in> set (ns @ [n]). valid_name m" using assms(2) by auto
  have child: "join rel n = rel_of_names (ns @ [n])" using join_rel [of ns n] ns assms(2) by auto
  have inj: "rel_of_names (ns @ [n]) \<noteq> rel_of_names ms" if "length ms \<le> length ns" "set ms \<subseteq> set ns" for ms
  proof
    assume "rel_of_names (ns @ [n]) = rel_of_names ms"
    then have "map Normal (ns @ [n]) = map Normal ms"
      using components_rel [of "ns @ [n]"] components_rel [of ms] valid that(2) by fastforce
    then have "length (ns @ [n]) = length ms" by (metis length_map)
    with that(1) show False by simp
  qed
  show "join rel n \<noteq> rel" using inj [of ns] ns(1) child by simp
  show "join rel n \<noteq> option_or [] (parent rel)"
  proof (cases "ns = []")
    case True
    then have "option_or [] (parent rel) = []"
      using ns(1) by (simp add: parent_def components_def is_absolute_def)
    then show ?thesis using inj [of "[]"] child by simp
  next
    case False
    then show ?thesis
      using inj [of "butlast ns"] parent_rel [of ns] ns child by (auto dest: in_set_butlastD)
  qed
qed

lemma readdir_undisturbed:
  assumes "fs_inv s" and "plain rel" and "dir_undisturbed i rel found s" and "\<not> is_dibs_ino i"
    and "std_read_dir os (backing_path s rel) w = Inr es"
    and "found = List.map_filter (dir_entry os (backing s) rel w) es"
    and "\<forall>(j, kind, name) \<in> set found. valid_name name"
  shows "\<exists>s'. fs_readdir os full i off s w = (dir_reply full off ([(i, Directory, ''.''),
        (parent_ino_of s i rel, Directory, ''..'')]
      @ (if i = 1 then [(DIBS_DIR_INO, Directory, DIBS_DIR_NAME)] else []) @ found), s', w)
    \<and> fs_inv s' \<and> backing s' = backing s \<and> dir_undisturbed i rel found s'
    \<and> parent_ino_of s' i rel = parent_ino_of s i rel"
proof -
  let ?es = "map (\<lambda>(i, kind, name). (i, join rel name)) found"
  let ?t = "fold (\<lambda>(i, p). inode_insert i p) ?es (inodes s)" and ?up = "option_or [] (parent rel)"
  have t: "snd (scan_dir os (backing s) rel w es (inodes s)) = ?t"
    by (simp add: scan_dir_fold scan_dir_found assms(6))
  have "i \<noteq> DIBS_DIR_INO" "i \<noteq> DIBS_CONFLICTS_DIR_INO"
    using assms(4) by (auto simp: is_dibs_ino_def is_synthetic_def synthetic_inos)
  then have rd: "fs_readdir os full i off s w = (dir_reply full off ([(i, Directory, ''.''),
        (parent_ino_of s i rel, Directory, ''..'')]
      @ (if i = 1 then [(DIBS_DIR_INO, Directory, DIBS_DIR_NAME)] else []) @ found), s\<lparr>inodes := ?t\<rparr>, w)"
    using assms(3,5,6) t by (simp add: fs_readdir_def dir_undisturbed_def Let_def split_beta scan_dir_found)
  have inv: "fs_inv (s\<lparr>inodes := ?t\<rparr>)"
    using readdir_inv [OF assms(1), of os full i off w] rd by simp
  have above: "rel \<notin> snd ` set ?es" "?up \<notin> snd ` set ?es"
    using child_not_above [OF assms(2)] assms(7) by fastforce+
  show ?thesis
  proof (cases "i = 1")
    case True
    then show ?thesis using rd inv assms(3) by (simp add: dir_undisturbed_def parent_ino_of_def)
  next
    case False
    have other: "get_path (inodes s) j \<notin> {Some rel, Some ?up}" if "j \<in> fst ` set ?es" for j
      using assms(3) False that by (fastforce simp: dir_undisturbed_def)
    have "i \<notin> fst ` set ?es"
      using other [of i] assms(3) False by (auto simp: dir_undisturbed_def)
    then have "get_path ?t i = Some rel"
      using ino_index.path_of_fold_insert_other [of "inodes s" i ?es rel] assms(1,3) above False
      by (simp add: fs_inv_def dir_undisturbed_def)
    moreover have "get_path ?t j \<notin> {Some rel, Some ?up}" if "j \<in> fst ` set ?es" for j
      using fold_insert_path [of ?es "inodes s" j] above other [OF that] by blast
    ultimately have "dir_undisturbed i rel found (s\<lparr>inodes := ?t\<rparr>)"
      using False by (force simp: dir_undisturbed_def)
    moreover have "get_ino ?t ?up = get_ino (inodes s) ?up"
      using fold_insert_ino [of ?up ?es "inodes s"] above other by blast
    then have "parent_ino_of (s\<lparr>inodes := ?t\<rparr>) i rel = parent_ino_of s i rel"
      by (simp add: parent_ino_of_def Let_def)
    ultimately show ?thesis using rd inv by auto
  qed
qed

text \<open>
  C21: Directories can be read in pages of any size, each page from the state the page before has left.
  If the reply buffer takes at least one entry, and while the directory does not change, a client that
  asks for offset 0 and then goes on from the offset of the last entry it got sees every entry of the
  listing exactly once and in order, with at most one request per entry and a final empty one. The
  listing is \<open>.\<close>, \<open>..\<close>, in the root the virtual directory, and the entries of the backing directory that
  can be read. No entry may carry an inode number by which the table knows the directory itself or its
  parent, as it can be on a nested mount: reading the first page would then redirect that inode.
\<close>

theorem readdir_pages_complete:
  assumes "fs_inv s" and "well_typed s" and "listings_typed os" and "\<forall>e. \<not> full [] e"
    and "\<not> is_dibs_ino i" and "std_read_dir os (backing_path s rel) w = Inr es"
    and "found = List.map_filter (dir_entry os (backing s) rel w) es" and "dir_undisturbed i rel found s"
    and "listing = [(i, Directory, ''.''), (parent_ino_of s i rel, Directory, ''..'')]
      @ (if i = 1 then [(DIBS_DIR_INO, Directory, DIBS_DIR_NAME)] else []) @ found"
    and "length listing < 2 ^ 64"
  shows "read_pages os full i (Suc (length listing)) 0 (s, w) = numbered listing"
proof -
  let ?P = "\<lambda>s'. fs_inv s' \<and> backing s' = backing s \<and> dir_undisturbed i rel found s'
    \<and> parent_ino_of s' i rel = parent_ino_of s i rel"
  have plain: "plain rel"
    using assms(2,8) by (auto simp: dir_undisturbed_def well_typed_def split: if_splits)
  have "valid_name name" if "(j, kind, name) \<in> set found" for j kind name
  proof -
    from that obtain e where e: "e \<in> set es" "dir_entry os (backing s) rel w e = Some (j, kind, name)"
      by (auto simp: assms(7) List.map_filter_def)
    obtain raw where "e = Inr raw" "name = to_string_lossy raw" using dir_entry_name [OF e(2)] by auto
    moreover have "valid_name raw"
      using assms(3,6) e(1) \<open>e = Inr raw\<close> unfolding listings_typed_def by blast
    ultimately show ?thesis using valid_name_lossy by simp
  qed
  then have names: "\<forall>(j, kind, name) \<in> set found. valid_name name" by auto
  have step: "\<exists>s2. fs_readdir os full i off s1 w = (dir_reply full off listing, s2, w) \<and> ?P s2"
    if "?P s1" for s1 off
    using readdir_undisturbed [of s1 rel i found os w es full off] that plain assms(5,6,7,9) names
    by (simp add: backing_path_def)
  show ?thesis
    using read_pages_from [where P = ?P and k = 0, of full listing os i w s, OF _ assms(10) step] assms(1,4,8)
    by (simp del: read_pages.simps)
qed

section \<open>The virtual directory\<close>

text \<open>
  Requests that carry an inode of the virtual directory, its files and subdirectory change nothing:
  those that would change, create, delete or move something are answered with \<open>EACCES\<close>.
\<close>

lemma dibs_inodes_protected:
  assumes "is_dibs_ino i"
  shows "fs_setattr os i m u g sz at mt k fl s w = (ReplyError EACCES, s, w)"
    and "fs_write os i h off d s w = (ReplyError EACCES, s, w)"
    and "fs_create os pid i n cm cfl s w = (ReplyError EACCES, s, w)"
    and "fs_mkdir os i n cm s w = (ReplyError EACCES, s, w)"
    and "fs_unlink os pid i n s w = (ReplyError EACCES, s, w)"
    and "fs_rmdir os i n s w = (ReplyError EACCES, s, w)"
    and "fs_symlink os i n tgt s w = (ReplyError EACCES, s, w)"
    and "fs_rename os pid i n j n' s w = (ReplyError EACCES, s, w)"
    and "fs_rename os pid j n' i n s w = (ReplyError EACCES, s, w)"
  using assms
  by (simp_all add: fs_setattr_def fs_write_def fs_create_def fs_mkdir_def fs_unlink_def fs_rmdir_def
      fs_symlink_def fs_rename_def)

fun reply_bytes :: "reply \<Rightarrow> bytes" where
  "reply_bytes (ReplyData d) = d"
| "reply_bytes _ = []"

lemma slice_window:
  "reply_bytes (slice_reply bs off sz) = take (unat sz) (drop (unat off) bs)"
  by (simp add: slice_reply_def Let_def min_def)

lemma concat_windows: "concat (map (\<lambda>i. take n (drop (i * n) bs)) [0 ..< m]) = take (m * n) bs"
  by (induction m) (simp_all add: take_add add.commute [of n])

text \<open>
  C22: A virtual file read in consecutive windows of \<open>n\<close> bytes comes out whole: the replies put
  together are the JSON text, and reads past its end are empty.
\<close>

theorem virtual_read_whole:
  assumes "0 < n" and "n < 2 ^ 32" and "m * n < 2 ^ 64" and "length (locks_json os s) \<le> m * n"
  shows "concat (map (\<lambda>i. reply_bytes (fst (fs_read os DIBS_LOCKS_INO k (of_nat (i * n)) (of_nat n) s w)))
      [0 ..< m]) = bytes_of (locks_json os s)"
proof -
  have "reply_bytes (fst (fs_read os DIBS_LOCKS_INO k (of_nat (i * n)) (of_nat n) s w)) =
      take n (drop (i * n) (bytes_of (locks_json os s)))" if "i < m" for i
  proof -
    have "i * n < 2 ^ 64" using that assms(3) by (meson le_less_trans less_imp_le mult_le_mono1)
    then have "unat (of_nat (i * n) :: u64) = i * n"
      by (simp add: unat_of_nat take_bit_nat_eq_self del: of_nat_mult)
    moreover have "unat (of_nat n :: u32) = n"
      using assms(2) by (simp add: unat_of_nat take_bit_nat_eq_self)
    ultimately show ?thesis
      by (simp add: fs_read_def synthetic_inos slice_window del: of_nat_mult)
  qed
  then have "concat (map (\<lambda>i. reply_bytes (fst (fs_read os DIBS_LOCKS_INO k (of_nat (i * n)) (of_nat n) s w)))
      [0 ..< m]) = concat (map (\<lambda>i. take n (drop (i * n) (bytes_of (locks_json os s)))) [0 ..< m])"
    by (intro arg_cong [where f = concat] map_cong) auto
  then show ?thesis
    using assms(4) by (simp add: concat_windows bytes_of_def)
qed

text \<open>The entries of the table in the order the iteration yields them.\<close>

lemma all_entries_listing:
  obtains ps where "distinct ps" and "set ps = tracked_in t"
    and "map (\<lambda>e. (fi_path e, fi_write_owner e)) (all_entries fmt t) =
      map (\<lambda>p. (to_string_lossy p, owner_of t p)) ps"
proof
  let ?ps = "map fst (dm_iter (entries t))"
  show dist: "distinct ?ps" by (rule DAList.impl_of_distinct)
  show "set ?ps = tracked_in t" by (auto simp: occ_of_sel dom_def dm_iter_iff [symmetric] intro: rev_image_eqI)
  have "(\<lambda>e. (fi_path e, fi_write_owner e)) (case x of (path, st) \<Rightarrow> \<lparr>fi_path = to_string_lossy path,
      fi_write_owner = write_owner st, fi_last_access = fmt (last_access st)\<rparr>) =
      (to_string_lossy (fst x), owner_of t (fst x))" if "x \<in> set (dm_iter (entries t))" for x
    using that by (simp add: split_beta occ_of_sel) (metis dm_iter_iff Option.bind.bind_lunit prod.collapse)
  then show "map (\<lambda>e. (fi_path e, fi_write_owner e)) (all_entries fmt t) =
      map (\<lambda>p. (to_string_lossy p, owner_of t p)) ?ps"
    by (simp add: all_entries_def)
qed

text \<open>
  C14: What the files of the virtual directory show is the conflict table. Whoever reads \<open>.dibs/status\<close>
  with a large enough buffer gets the number of tracked files and the number of files being written,
  whoever reads \<open>.dibs/locks\<close> gets one record per tracked file with its path and the handle that owns
  its write; and in an unchanged state the sizes \<open>getattr\<close> reports are those of the texts read.
\<close>

theorem status_files_exact:
  assumes "length (status_json os s w) \<le> unat n" and "length (locks_json os s) \<le> unat n"
  shows "\<exists>ps infos status locks. distinct ps \<and> set ps = tracked_in (cas_table s)
    \<and> map (\<lambda>e. (fi_path e, fi_write_owner e)) infos =
        map (\<lambda>p. (to_string_lossy p, owner_of (cas_table s) p)) ps
    \<and> status = json_status os (length ps) (length (filter (\<lambda>p. owner_of (cas_table s) p \<noteq> None) ps))
        (instant_now os w - start_time s) (cfg_session_id (config s))
    \<and> locks = (case json_locks os infos of Some j \<Rightarrow> j | None \<Rightarrow> ''[]'')
    \<and> fs_read os DIBS_STATUS_INO k 0 n s w = (ReplyData (bytes_of status), s, w)
    \<and> fs_read os DIBS_LOCKS_INO k 0 n s w = (ReplyData (bytes_of locks), s, w)
    \<and> fs_getattr os DIBS_STATUS_INO s w =
        (ReplyAttr (dibs_file_attr os DIBS_STATUS_INO (of_nat (length status)) w), s, w)
    \<and> fs_getattr os DIBS_LOCKS_INO s w =
        (ReplyAttr (dibs_file_attr os DIBS_LOCKS_INO (of_nat (length locks)) w), s, w)"
proof -
  let ?t = "cas_table s" and ?infos = "all_entries (to_rfc3339 os) (cas_table s)"
  obtain ps where ps: "distinct ps" "set ps = tracked_in ?t"
    "map (\<lambda>e. (fi_path e, fi_write_owner e)) ?infos = map (\<lambda>p. (to_string_lossy p, owner_of ?t p)) ps"
    by (rule all_entries_listing)
  have "card (tracked_in ?t) = length ps" using ps(1,2) distinct_card by metis
  moreover have "dom (owner_of ?t) = set (filter (\<lambda>p. owner_of ?t p \<noteq> None) ps)"
    using ps(2) by (auto simp: occ_of_sel bind_eq_Some_conv)
  then have "card (dom (owner_of ?t)) = length (filter (\<lambda>p. owner_of ?t p \<noteq> None) ps)"
    using ps(1) distinct_card distinct_filter by metis
  ultimately have "status_json os s w = json_status os (length ps)
      (length (filter (\<lambda>p. owner_of ?t p \<noteq> None) ps)) (instant_now os w - start_time s) (cfg_session_id (config s))"
    by (simp add: status_json_def cas_len_tracked active_writers_owned)
  moreover have "locks_json os s = (case json_locks os ?infos of Some j \<Rightarrow> j | None \<Rightarrow> ''[]'')"
    by (simp add: locks_json_def split: option.splits)
  moreover have "slice_reply (bytes_of x) 0 n = ReplyData (bytes_of x)" if "length x \<le> unat n" for x
    using that by (cases x) (simp_all add: slice_reply_def bytes_of_def Let_def min_def)
  ultimately show ?thesis
    using ps assms
    by (intro exI [of _ ps] exI [of _ ?infos] exI [of _ "status_json os s w"] exI [of _ "locks_json os s"])
       (simp add: fs_read_def fs_getattr_def synthetic_inos)
qed

end
