(* ===== verification/Bounds.thy ===== *)
theory Bounds
  imports Dibs_Fs
begin

text \<open>
  Numbers that cross the interface: byte counts and times between the kernel, the file system and
  the system, and the conversions between their widths.
\<close>

section \<open>Byte counts\<close>

text \<open>What POSIX promises of \<open>pread\<close> and \<open>pwrite\<close>: never more bytes than asked for.\<close>

definition io_calls_bounded :: "('w, 's, 'm) env_scheme \<Rightarrow> bool" where
  "io_calls_bounded os \<longleftrightarrow> (\<forall>fd n off w b. sys_pread os fd n off w = Inr b \<longrightarrow> length b \<le> n)
     \<and> (\<forall>fd d off w n w'. sys_pwrite os fd d off w = (Inr n, w') \<longrightarrow> n \<le> length d)"

lemma pwrite_bounded: "io_calls_bounded os \<Longrightarrow> sys_pwrite os fd d off w = (Inr n, w') \<Longrightarrow> n \<le> length d"
  unfolding io_calls_bounded_def by blast

lemma slice_bounded: "slice_reply bs off sz = ReplyData b \<Longrightarrow> length b \<le> unat sz"
  by (auto simp: slice_reply_def Let_def split: if_splits)

lemma read_bounded:
  assumes "io_calls_bounded os" and "fs_read os i k off sz s w = (ReplyData b, s', w')"
  shows "length b \<le> unat sz"
  using assms slice_bounded
  by (auto simp: fs_read_def io_calls_bounded_def split: if_splits option.splits sum.splits)

lemma write_counts:
  assumes "io_calls_bounded os" and "length d < 2 ^ 32"
    and "fs_write os i k off d s w = (ReplyWritten n, s', w')"
  shows "\<exists>h. h_get (file_handles s) k = Some h \<and> sys_pwrite os (h_real_fd h) d off w = (Inr (unat n), w')"
proof -
  obtain h where h: "h_get (file_handles s) k = Some h"
    using assms(3) by (auto simp: fs_write_def split: if_splits option.splits)
  obtain r w1 where p: "sys_pwrite os (h_real_fd h) d off w = (r, w1)" by force
  obtain m where m: "r = Inr m" "w1 = w'" "n = of_nat m"
    using assms(3) h p
    by (auto simp: fs_write_def Let_def split_beta split: if_splits sum.splits)
  have "m \<le> length d" using pwrite_bounded [OF assms(1)] p m by simp
  then have "m < 2 ^ 32" using assms(2) by simp
  then have "unat n = m" by (simp add: m unat_of_nat take_bit_nat_eq_self)
  then show ?thesis using h p m by simp
qed

text \<open>
  C24: Byte counts are honest. A read never returns more bytes than were asked for, from a real file
  or a virtual one; and the 32-bit count a write reports is the number of bytes the system took, not
  a truncation of it, and at most the number of bytes sent.
\<close>

theorem byte_counts_bounded:
  assumes "io_calls_bounded os" and "length d < 2 ^ 32"
  shows "(\<forall>b s' w'. fs_read os i k off sz s w = (ReplyData b, s', w') \<longrightarrow> length b \<le> unat sz)
    \<and> (\<forall>n s' w'. fs_write os i k off d s w = (ReplyWritten n, s', w') \<longrightarrow> unat n \<le> length d \<and>
        (\<exists>h. h_get (file_handles s) k = Some h
          \<and> sys_pwrite os (h_real_fd h) d off w = (Inr (unat n), w')))"
proof (intro conjI allI impI)
  fix b s' w' assume "fs_read os i k off sz s w = (ReplyData b, s', w')"
  with assms(1) show "length b \<le> unat sz" by (rule read_bounded)
next
  fix n s' w' assume "fs_write os i k off d s w = (ReplyWritten n, s', w')"
  then show "\<exists>h. h_get (file_handles s) k = Some h \<and> sys_pwrite os (h_real_fd h) d off w = (Inr (unat n), w')"
    by (rule write_counts [OF assms])
  then show "unat n \<le> length d" using pwrite_bounded [OF assms(1)] by blast
qed

section \<open>Times\<close>

text \<open>A \<open>timespec\<close> the system accepts: a number of nanoseconds below one second, or one of the two
  special values.\<close>

definition timespec_ok :: "timespec \<Rightarrow> bool" where
  "timespec_ok ts \<longleftrightarrow> 0 \<le> tv_nsec ts \<and> tv_nsec ts < 10 ^ 9 \<or> tv_nsec ts = UTIME_NOW \<or> tv_nsec ts = UTIME_OMIT"

lemma to_timespec_ok: "timespec_ok (to_timespec t)"
  by (auto simp: to_timespec_def timespec_ok_def Let_def split: option.splits TimeOrNow.splits)

lemma uint_nonneg: "0 \<le> sint n \<Longrightarrow> uint n = sint n" for n :: i64
proof -
  assume "0 \<le> sint n"
  moreover have "sint n < 2 ^ 64" using sint_lt [of n] by simp
  moreover have "take_bit 64 (sint n) = uint n"
    using uint_lt2p [of n]
    by (simp add: sint_uint take_bit_signed_take_bit take_bit_int_eq_self)
  ultimately show ?thesis by (simp add: take_bit_int_eq_self)
qed

lemma system_time_value:
  assumes "0 \<le> sint sec" and "0 \<le> sint nsec" and "sint nsec < 10 ^ 9"
  shows "system_time_from_parts sec nsec = sint sec * 10 ^ 9 + sint nsec"
proof -
  note sec = uint_nonneg [OF assms(1)] and ns = uint_nonneg [OF assms(2)]
  have "uint (ucast nsec :: u32) = sint nsec"
    using assms(2,3) by (simp add: ns unsigned_ucast_eq take_bit_int_eq_self)
  then show ?thesis using assms(1) by (simp add: system_time_from_parts_def duration_new_def UNIX_EPOCH_def sec)
qed

text \<open>
  Times survive the round trip. What \<open>setattr\<close> passes to the system is always a valid \<open>timespec\<close>;
  setting the modification time a \<open>stat\<close> reported gives the system exactly the seconds and
  nanoseconds it came from, for every time from 1970 on, and an earlier time becomes the start of
  1970.
\<close>

lemma times_roundtrip:
  assumes "0 \<le> sint (st_mtime_nsec st)" and "sint (st_mtime_nsec st) < 10 ^ 9"
  shows "timespec_ok (to_timespec t)
    \<and> to_timespec (Some (SpecificTime (fa_mtime (stat_to_file_attr st)))) =
      (if 0 \<le> sint (st_mtime st) then \<lparr>tv_sec = sint (st_mtime st), tv_nsec = sint (st_mtime_nsec st)\<rparr>
       else \<lparr>tv_sec = 0, tv_nsec = 0\<rparr>)"
proof (intro conjI to_timespec_ok, cases "0 \<le> sint (st_mtime st)")
  case True
  have "fa_mtime (stat_to_file_attr st) = sint (st_mtime st) * 10 ^ 9 + sint (st_mtime_nsec st)"
    using system_time_value [OF True assms] by (simp add: stat_to_file_attr_def)
  then show "to_timespec (Some (SpecificTime (fa_mtime (stat_to_file_attr st)))) =
      (if 0 \<le> sint (st_mtime st) then \<lparr>tv_sec = sint (st_mtime st), tv_nsec = sint (st_mtime_nsec st)\<rparr>
       else \<lparr>tv_sec = 0, tv_nsec = 0\<rparr>)"
    using True assms by (simp add: to_timespec_def Let_def)
qed (simp_all add: to_timespec_def stat_to_file_attr_def system_time_from_parts_def UNIX_EPOCH_def Let_def)

end
