(* ===== verification/Shutdown.thy ===== *)
theory Shutdown
  imports Handles
begin

text \<open>
  The parts of \<open>src/main.rs\<close> that decide: the two-phase wait for a shutdown, the unmount command and
  the test for a stale mount. What the program observes of the system (signals, the state of the
  FUSE session, the outcome of \<open>umount\<close>) is input, what it prints and runs is output.
\<close>

section \<open>Waiting for a shutdown\<close>

datatype ShutdownAction = ForceUnmount | ExternalUnmount

text \<open>The lines printed to standard error.\<close>

datatype notice =
    ForceUnmounting
  | UnmountingOnSignal
  | BusyProcesses
  | BusyFiles nat
  | OpenFile path sid
  | AndMore nat
  | CloseOrAgain
  | AllClear

text \<open>What one round of the loop may observe: whether \<open>poll\<close> reported the signal pipe readable,
  whether the FUSE session has finished, whether \<open>umount\<close> would succeed, and the open handles.\<close>

record observation =
  ob_signal :: bool
  ob_finished :: bool
  ob_umount :: bool
  ob_handles :: HandleTable

definition display_cap :: nat where
  "display_cap = 10"

definition busy_report :: "OpenFileInfo list \<Rightarrow> notice list" where
  "busy_report open_files =
     (if open_files = [] then [BusyProcesses]
      else BusyFiles (length open_files)
        # map (\<lambda>f. OpenFile (of_path f) (of_sid f)) (take display_cap open_files)
        @ (if display_cap < length open_files then [AndMore (length open_files - display_cap)] else []))
     @ [CloseOrAgain]"

text \<open>The loop, over the observations of its rounds; \<open>None\<close> means that it is still waiting after
  them.\<close>

fun wait_loop :: "bool \<Rightarrow> u32 \<Rightarrow> observation list \<Rightarrow> ShutdownAction option \<times> notice list" where
  "wait_loop first_signal_received poll_ticks [] = (None, [])"
| "wait_loop first_signal_received poll_ticks (ob # obs) =
     (if ob_signal ob then
        (if first_signal_received then (Some ForceUnmount, [ForceUnmounting])
         else if ob_finished ob then (Some ExternalUnmount, [])
         else if ob_umount ob then (Some ExternalUnmount, [UnmountingOnSignal])
         else let (r, out) = wait_loop True poll_ticks obs
              in (r, busy_report (list_open (ob_handles ob)) @ out))
      else if ob_finished ob then (Some ExternalUnmount, [])
      else if first_signal_received then
        (let ticks = poll_ticks + 1 in
         if ticks mod 5 = 0 \<and> ob_umount ob then (Some ExternalUnmount, [AllClear])
         else wait_loop True ticks obs)
      else wait_loop False poll_ticks obs)"

definition wait_for_shutdown :: "observation list \<Rightarrow> ShutdownAction option \<times> notice list" where
  "wait_for_shutdown obs = wait_loop False 0 obs"

section \<open>Running commands\<close>

text \<open>The outcome of \<open>Command::output\<close>: an error, or the status with both outputs.\<close>

record cmd_output =
  o_success :: bool
  o_stdout :: string
  o_stderr :: string

text \<open>\<open>str::contains\<close>.\<close>

fun contains :: "string \<Rightarrow> string \<Rightarrow> bool" where
  "contains [] sub \<longleftrightarrow> sub = []"
| "contains (c # cs) sub \<longleftrightarrow> take (length sub) (c # cs) = sub \<or> contains cs sub"

text \<open>\<open>str::lines\<close>: pieces ended by a line feed, a carriage return before it dropped, no empty piece
  after a final line feed.\<close>

fun split_lf :: "string \<Rightarrow> string list" where
  "split_lf [] = []"
| "split_lf (c # cs) = (if c = CHR 0x0A then [] # split_lf cs
     else case split_lf cs of
       [] \<Rightarrow> [[c]]
     | l # ls \<Rightarrow> (c # l) # ls)"

definition chomp_cr :: "string \<Rightarrow> string" where
  "chomp_cr l = (if l \<noteq> [] \<and> last l = CHR 0x0D then butlast l else l)"

definition str_lines :: "string \<Rightarrow> string list" where
  "str_lines s = map chomp_cr (split_lf s)"

definition try_unmount :: "(unit + bool) \<Rightarrow> bool" where
  "try_unmount status = unwrap_or False status"

text \<open>\<open>mount_out\<close> is the output of \<open>mount\<close>, \<open>readable\<close> whether the directory can be read.\<close>

definition is_stale_fuse_mount :: "(unit + cmd_output) \<Rightarrow> bool \<Rightarrow> path \<Rightarrow> bool" where
  "is_stale_fuse_mount mount_out readable path = (case mount_out of
       Inl _ \<Rightarrow> False
     | Inr res \<Rightarrow>
         (let stdout = to_string_lossy (o_stdout res);
              path_str = to_string_lossy path;
              is_fuse_mount = list_ex (\<lambda>line. contains line path_str \<and>
                (contains line ''fuse'' \<or> contains line ''macfuse'')) (str_lines stdout)
          in if \<not> is_fuse_mount then False else \<not> readable))"

datatype unmount_command = Umount | DiskutilUnmount | UmountForce

datatype unmount_result = Unmounted | UnmountedForced | ExitNoMountpoint | ExitBusy | ExitFailed

text \<open>The unmount command: what \<open>canonicalize\<close> says and what each of the three commands would
  return; the result is what was run and how the program ends.\<close>

definition unmount ::
  "(unit + path) \<Rightarrow> (unit + cmd_output) \<Rightarrow> (unit + cmd_output) \<Rightarrow> (unit + bool) \<Rightarrow>
   unmount_command list \<times> unmount_result"
where
  "unmount canonical umount_out diskutil_out force_status = (case canonical of
       Inl _ \<Rightarrow> ([], ExitNoMountpoint)
     | Inr _ \<Rightarrow>
         if (case umount_out of Inr res \<Rightarrow> o_success res | Inl _ \<Rightarrow> False) then ([Umount], Unmounted)
         else if (case umount_out of
               Inr res \<Rightarrow> contains (to_string_lossy (o_stderr res)) ''busy'' | Inl _ \<Rightarrow> False)
         then ([Umount], ExitBusy)
         else if (case diskutil_out of Inr res \<Rightarrow> o_success res | Inl _ \<Rightarrow> False)
         then ([Umount, DiskutilUnmount], Unmounted)
         else if (case diskutil_out of
               Inr res \<Rightarrow> contains (to_string_lossy (o_stderr res)) ''busy'' \<or>
                 contains (to_string_lossy (o_stdout res)) ''busy'' | Inl _ \<Rightarrow> False)
         then ([Umount, DiskutilUnmount], ExitBusy)
         else if unwrap_or False force_status
         then ([Umount, DiskutilUnmount, UmountForce], UnmountedForced)
         else ([Umount, DiskutilUnmount, UmountForce], ExitFailed))"

section \<open>Properties of the wait\<close>

abbreviation quiet :: "observation \<Rightarrow> bool" where
  "quiet ob \<equiv> \<not> ob_signal ob \<and> \<not> ob_finished ob"

lemma wait_quiet: "list_all quiet obs \<Longrightarrow> wait_loop False n (obs @ rest) = wait_loop False n rest"
  by (induction obs) auto

lemma wait_busy:
  "list_all (\<lambda>ob. quiet ob \<and> \<not> ob_umount ob) obs \<Longrightarrow>
   wait_loop True n (obs @ rest) = wait_loop True (n + of_nat (length obs)) rest"
  by (induction obs arbitrary: n) (auto simp: add.assoc)

text \<open>
  The program does not unmount on its own: without a signal and while the session runs it waits,
  and prints nothing.
\<close>

lemma no_shutdown_without_cause:
  assumes "list_all quiet obs"
  shows "wait_for_shutdown obs = (None, [])"
  using wait_quiet [OF assms, of 0 "[]"] by (simp add: wait_for_shutdown_def)

text \<open>
  Two-phase interrupt. If the mount is busy at the first signal the open files are reported and
  the mount stays; if it remains busy, a second signal, however much later, forces the unmount.
\<close>

lemma second_signal_forces:
  assumes "list_all quiet before"
    and "ob_signal first" and "\<not> ob_finished first" and "\<not> ob_umount first"
    and "list_all (\<lambda>ob. quiet ob \<and> \<not> ob_umount ob) between"
  shows "wait_for_shutdown (before @ first # between) =
      (None, busy_report (list_open (ob_handles first)))
    \<and> (ob_signal second \<longrightarrow> wait_for_shutdown (before @ first # between @ second # rest) =
      (Some ForceUnmount, busy_report (list_open (ob_handles first)) @ [ForceUnmounting]))"
  using wait_quiet [OF assms(1)] wait_busy [OF assms(5), of 0 "[]"]
    wait_busy [OF assms(5), of 0 "second # rest"] assms(2-4)
  by (simp add: wait_for_shutdown_def)

text \<open>
  A mount that is not busy is unmounted at the first signal: if \<open>umount\<close> succeeds then, the wait
  ends with a clean unmount, and nothing is forced.
\<close>

lemma first_signal_unmounts:
  assumes "list_all quiet before" and "ob_signal first" and "\<not> ob_finished first" and "ob_umount first"
  shows "wait_for_shutdown (before @ first # rest) = (Some ExternalUnmount, [UnmountingOnSignal])"
  using wait_quiet [OF assms(1), of 0 "first # rest"] assms(2-4) by (simp add: wait_for_shutdown_def)

lemma ticks_mod: "unat n + 5 < 2 ^ 32 \<Longrightarrow> j \<le> 5 \<Longrightarrow>
    ((n + of_nat j) mod 5 = (0 :: u32)) = ((unat n + j) mod 5 = 0)"
proof -
  assume "unat n + 5 < 2 ^ 32" "j \<le> 5"
  then have "unat (n + of_nat j) = unat n + j"
    by (simp add: unat_word_ariths unat_of_nat take_bit_nat_eq_self)
  moreover have "((n + of_nat j) mod 5 = 0) = (unat ((n + of_nat j) mod 5) = 0)"
    by (simp add: unat_eq_0)
  ultimately show ?thesis by (simp add: unat_mod)
qed

lemma wait_released:
  assumes "list_all (\<lambda>ob. \<not> ob_signal ob \<and> ob_umount ob) obs"
  shows "j < length obs \<Longrightarrow> (n + of_nat (Suc j)) mod 5 = 0 \<Longrightarrow>
    fst (wait_loop True n obs) = Some ExternalUnmount"
  using assms
proof (induction obs arbitrary: n j)
  case Nil
  then show ?case by simp
next
  case (Cons ob obs)
  show ?case
  proof (cases j)
    case 0
    then show ?thesis using Cons.prems by (simp add: Let_def)
  next
    case (Suc i)
    then have "fst (wait_loop True (n + 1) obs) = Some ExternalUnmount"
      using Cons.IH [of i "n + 1"] Cons.prems by (simp add: add.assoc)
    then show ?thesis using Cons.prems by (simp add: Let_def)
  qed
qed

text \<open>
  C27: After the first signal a mount that is released is noticed: once \<open>umount\<close> would succeed and no
  further signal arrives, the wait ends within five rounds of 200 ms, with a clean unmount.
\<close>

theorem released_mount_unmounted:
  assumes "unat ticks + 5 < 2 ^ 32" and "length obs = 5"
    and "list_all (\<lambda>ob. \<not> ob_signal ob \<and> ob_umount ob) obs"
  shows "fst (wait_loop True ticks (obs @ rest)) = Some ExternalUnmount"
proof -
  let ?j = "4 - unat ticks mod 5"
  have "(unat ticks + Suc ?j) mod 5 = 0" by presburger
  then have "(ticks + of_nat (Suc ?j)) mod 5 = 0"
    using ticks_mod [OF assms(1), of "Suc ?j"] by simp
  then have "fst (wait_loop True ticks obs) = Some ExternalUnmount"
    using wait_released [OF assms(3), of ?j ticks] assms(2) by simp
  moreover have "fst (wait_loop b n obs) \<noteq> None \<Longrightarrow>
      fst (wait_loop b n (obs @ rest)) = fst (wait_loop b n obs)" for b n
    by (induction b n obs rule: wait_loop.induct) (auto simp: Let_def split_beta split: if_splits)
  ultimately show ?thesis by simp
qed

text \<open>
  The end of the FUSE session ends the wait: if in some round the session has finished and no
  signal is pending, the loop has returned by then.
\<close>

lemma session_end_noticed:
  assumes "ob \<in> set obs" and "ob_finished ob" and "\<not> ob_signal ob"
  shows "fst (wait_for_shutdown obs) \<noteq> None"
proof -
  have "fst (wait_loop b n obs) \<noteq> None" for b n
    using assms
    by (induction b n obs rule: wait_loop.induct) (auto simp: Let_def split_beta)
  then show ?thesis by (simp add: wait_for_shutdown_def)
qed

section \<open>Properties of the unmount command\<close>

text \<open>
  C28: The unmount command never forces a busy mount: \<open>umount -f\<close> is run only if neither \<open>umount\<close> nor
  \<open>diskutil\<close> succeeded or complained that the mount is busy, and then always.
\<close>

theorem unmount_never_forces_busy:
  "UmountForce \<in> set (fst (unmount c u d f)) \<longleftrightarrow> (\<exists>p. c = Inr p) \<and>
     (case u of Inl _ \<Rightarrow> True
      | Inr res \<Rightarrow> \<not> o_success res \<and> \<not> contains (to_string_lossy (o_stderr res)) ''busy'') \<and>
     (case d of Inl _ \<Rightarrow> True
      | Inr res \<Rightarrow> \<not> o_success res \<and> \<not> contains (to_string_lossy (o_stderr res)) ''busy''
          \<and> \<not> contains (to_string_lossy (o_stdout res)) ''busy'')"
  by (cases c; cases u; cases d) (simp_all add: unmount_def)

lemma contains_iff: "contains s sub \<longleftrightarrow> (\<exists>a b. s = a @ sub @ b)"
proof (induction s)
  case Nil
  then show ?case by simp
next
  case (Cons c cs)
  have "take (length sub) (c # cs) = sub \<longleftrightarrow> (\<exists>b. c # cs = sub @ b)"
    by (metis append_eq_conv_conj append_take_drop_id)
  then show ?case using Cons by (auto simp: Cons_eq_append_conv)
qed

text \<open>
  A mount is called stale only if it is one: \<open>mount\<close> lists a line that names the path and a fuse
  file system, and the directory cannot be read. A mount point that can be read, or a failing
  \<open>mount\<close> command, never stops a start.
\<close>

lemma stale_mount_exact:
  "is_stale_fuse_mount mount_out readable path \<longleftrightarrow> \<not> readable \<and> (\<exists>res. mount_out = Inr res \<and>
     (\<exists>line \<in> set (str_lines (to_string_lossy (o_stdout res))).
        (\<exists>a b. line = a @ to_string_lossy path @ b) \<and> (\<exists>a b. line = a @ ''fuse'' @ b)))"
proof -
  have "contains line ''macfuse'' \<Longrightarrow> contains line ''fuse''" for line
    unfolding contains_iff by (metis append.assoc append_Cons append_Nil)
  then show ?thesis
    unfolding contains_iff [symmetric]
    by (auto simp: is_stale_fuse_mount_def Let_def list_ex_iff split: sum.splits)
qed

section \<open>Witnesses\<close>

abbreviation ob :: "bool \<Rightarrow> bool \<Rightarrow> observation" where
  "ob sig free \<equiv> \<lparr>ob_signal = sig, ob_finished = False, ob_umount = free, ob_handles = HandleTable_new\<rparr>"

theorem released_mount_unmounted_witness:
  "fst (wait_loop True 3 (replicate 5 (ob False True) @ [])) = Some ExternalUnmount"
  by (rule released_mount_unmounted) (simp_all add: list_all_iff)

end
