(* ===== verification/Signals.thy ===== *)
theory Signals
  imports Shutdown
begin

text \<open>
  The self-pipe of \<open>src/main.rs\<close>: the signal handler writes a byte to the pipe, the wait for a
  shutdown polls the pipe and takes one byte per round. This theory runs the wait of
  \<open>Shutdown\<close> on the signals themselves and shows that none of them is lost.
\<close>

section \<open>The handler and the pipe\<close>

text \<open>\<open>SIGNAL_PIPE\<close> and the bytes written to the pipe and not yet read. A pipe holds tens of
  thousands of bytes, so that \<open>write\<close> of one byte is taken to succeed.\<close>

record sig_state =
  SIGNAL_PIPE :: int
  pipe_bytes :: nat

definition signal_handler :: "sig_state \<Rightarrow> sig_state" where
  "signal_handler st =
     (let fd = SIGNAL_PIPE st in if 0 \<le> fd then st\<lparr>pipe_bytes := pipe_bytes st + 1\<rparr> else st)"

definition install_pipe :: "int \<Rightarrow> sig_state" where
  "install_pipe write_end = \<lparr>SIGNAL_PIPE = write_end, pipe_bytes = 0\<rparr>"

definition remove_pipe :: "sig_state \<Rightarrow> sig_state" where
  "remove_pipe st = st\<lparr>SIGNAL_PIPE := - 1\<rparr>"

text \<open>What happens in one round of the loop: how many signals are handled up to the end of the
  \<open>poll\<close>, whether one of them interrupted it (it then returns -1 although the pipe may hold a byte),
  and what the program sees of the session, of \<open>umount\<close> and of the open files.\<close>

record round =
  rd_arrivals :: nat
  rd_interrupted :: bool
  rd_finished :: bool
  rd_umount :: bool
  rd_handles :: HandleTable

definition poll_ready :: "round \<Rightarrow> sig_state \<Rightarrow> bool" where
  "poll_ready r st \<longleftrightarrow> \<not> rd_interrupted r \<and> 0 < pipe_bytes st"

definition observe :: "round \<Rightarrow> sig_state \<Rightarrow> observation \<times> sig_state" where
  "observe r st =
     (let st1 = (signal_handler ^^ rd_arrivals r) st
      in (\<lparr>ob_signal = poll_ready r st1, ob_finished = rd_finished r, ob_umount = rd_umount r,
           ob_handles = rd_handles r\<rparr>,
          if poll_ready r st1 then st1\<lparr>pipe_bytes := pipe_bytes st1 - 1\<rparr> else st1))"

fun observations :: "round list \<Rightarrow> sig_state \<Rightarrow> observation list" where
  "observations [] st = []"
| "observations (r # rs) st = (let (ob, st') = observe r st in ob # observations rs st')"

definition shutdown_on_signals :: "int \<Rightarrow> round list \<Rightarrow> ShutdownAction option \<times> notice list" where
  "shutdown_on_signals write_end rs = wait_for_shutdown (observations rs (install_pipe write_end))"

section \<open>No signal is lost\<close>

lemma signal_handler_pow:
  "(signal_handler ^^ n) st = (if 0 \<le> SIGNAL_PIPE st then st\<lparr>pipe_bytes := pipe_bytes st + n\<rparr> else st)"
  by (induction n) (auto simp: signal_handler_def)

lemma observe_installed:
  assumes "0 \<le> SIGNAL_PIPE st"
  shows "SIGNAL_PIPE (snd (observe r st)) = SIGNAL_PIPE st"
    and "ob_signal (fst (observe r st)) \<longleftrightarrow> \<not> rd_interrupted r \<and> 0 < pipe_bytes st + rd_arrivals r"
    and "pipe_bytes (snd (observe r st)) + (if ob_signal (fst (observe r st)) then 1 else 0) =
      pipe_bytes st + rd_arrivals r"
    and "ob_finished (fst (observe r st)) = rd_finished r"
    and "ob_umount (fst (observe r st)) = rd_umount r"
    and "ob_handles (fst (observe r st)) = rd_handles r"
  using assms by (auto simp: observe_def Let_def signal_handler_pow poll_ready_def)

abbreviation busy :: "round \<Rightarrow> bool" where
  "busy r \<equiv> \<not> rd_finished r \<and> \<not> rd_umount r"

abbreviation arrived :: "round list \<Rightarrow> nat" where
  "arrived rs \<equiv> sum_list (map rd_arrivals rs)"

text \<open>How many more signals the loop needs before it forces the unmount.\<close>

abbreviation missing :: "bool \<Rightarrow> nat" where
  "missing first_signal_received \<equiv> if first_signal_received then 1 else 2"

lemma calm_rounds_force:
  assumes "list_all (\<lambda>r. busy r \<and> \<not> rd_interrupted r) calm" and "missing first \<le> length calm"
    and "0 \<le> SIGNAL_PIPE st" and "missing first \<le> pipe_bytes st"
  shows "fst (wait_loop first n (observations (calm @ rest) st)) = Some ForceUnmount"
  using assms
proof (induction calm arbitrary: first st n)
  case Nil
  then show ?case by (simp split: if_splits)
next
  case (Cons r calm)
  obtain ob st' where o: "observe r st = (ob, st')" by force
  have ob: "ob_signal ob" "\<not> ob_finished ob" "\<not> ob_umount ob"
    using observe_installed [OF Cons.prems(3), of r] Cons.prems o by (auto split: if_splits)
  show ?case
  proof (cases first)
    case False
    have "0 \<le> SIGNAL_PIPE st'" "1 \<le> pipe_bytes st'"
      using observe_installed [OF Cons.prems(3), of r] Cons.prems o False ob by auto
    then have "fst (wait_loop True n (observations (calm @ rest) st')) = Some ForceUnmount"
      using Cons.IH [of True st' n] Cons.prems False by simp
    then show ?thesis using False ob o by (simp add: split_beta)
  qed (simp add: o ob)
qed

lemma busy_rounds_force:
  assumes "list_all busy rs" and "list_all (\<lambda>r. busy r \<and> \<not> rd_interrupted r) calm"
    and "length calm = 2" and "0 \<le> SIGNAL_PIPE st" and "missing first \<le> pipe_bytes st + arrived rs"
  shows "fst (wait_loop first n (observations (rs @ calm @ rest) st)) = Some ForceUnmount"
  using assms
proof (induction rs arbitrary: first st n)
  case Nil
  then show ?case using calm_rounds_force [of calm first st n rest] by simp
next
  case (Cons r rs)
  obtain ob st' where o: "observe r st = (ob, st')" by force
  note obs = observe_installed [OF Cons.prems(4), of r, unfolded o fst_conv snd_conv]
  have pipe: "0 \<le> SIGNAL_PIPE st'" using obs(1) Cons.prems(4) by simp
  show ?case
  proof (cases "ob_signal ob")
    case True
    show ?thesis
    proof (cases first)
      case False
      have "fst (wait_loop True n (observations (rs @ calm @ rest) st')) = Some ForceUnmount"
        using Cons.IH [OF _ _ _ pipe, of True n] Cons.prems False True obs(3) by simp
      then show ?thesis using False True o obs Cons.prems(1) by (simp add: split_beta)
    qed (use True o in simp)
  next
    case False
    have "fst (wait_loop first m (observations (rs @ calm @ rest) st')) = Some ForceUnmount" for m
      using Cons.IH [OF _ _ _ pipe, of first m] Cons.prems False obs(3) by simp
    then show ?thesis
      using False o obs(4,5) Cons.prems(1) by (cases first) (simp_all add: Let_def)
  qed
qed

text \<open>
  However the signals fall on the rounds of the wait, several in one round, one interrupting the
  \<open>poll\<close>, or one while an earlier one is being handled, two of them on a mount that stays busy force
  the unmount: at the latest after two further rounds whose \<open>poll\<close> is not interrupted.
\<close>

lemma two_signals_force:
  assumes "0 \<le> write_end" and "list_all busy rs" and "2 \<le> arrived rs"
    and "list_all (\<lambda>r. busy r \<and> \<not> rd_interrupted r) calm" and "length calm = 2"
  shows "fst (shutdown_on_signals write_end (rs @ calm @ rest)) = Some ForceUnmount"
  using busy_rounds_force [OF assms(2,4,5), of "install_pipe write_end" False 0 rest] assms(1,3)
  by (simp add: shutdown_on_signals_def wait_for_shutdown_def install_pipe_def)

text \<open>A signal that arrives after the wait is dropped: the handler stays installed, and the pipe is
  gone. The unmount that follows cannot be interrupted.\<close>

lemma signal_after_wait: "(signal_handler ^^ n) (remove_pipe st) = remove_pipe st"
  by (simp add: signal_handler_pow remove_pipe_def)

end
