(* ===== verification/Eviction.thy ===== *)
theory Eviction
  imports Hash_Table
begin

text \<open>
  \<open>src/state/eviction.rs\<close>: the background thread that evicts idle entries once a minute. The thread
  is a machine that advances from one load of the shutdown flag to the next; what it does in
  between, sleeping and evicting, is its output, and the table it shares with the request threads is
  part of its state.
\<close>

section \<open>Definitions\<close>

text \<open>Where the thread is about to load the flag: in the condition of the outer loop, in the inner
  loop with the given number of seconds remaining, or after the inner loop. A thread that has left
  its loop is stopped; one whose eviction pass panicked is gone as well.\<close>

datatype ev_pc = WhileCheck | Tick nat | AfterSleep | Stopped | Panicked

text \<open>A pass is recorded with the time it was made at.\<close>

datatype ev_action = Sleep nat | EvictPass DateTime

definition check_interval :: nat where
  "check_interval = 60"

text \<open>The eviction duration in seconds; the multiplication wraps in a release build.\<close>

definition eviction_duration :: "u64 \<Rightarrow> u64" where
  "eviction_duration eviction_minutes = eviction_minutes * 60"

text \<open>The condition of the inner loop.\<close>

definition enter_sleep :: "nat \<Rightarrow> ev_pc" where
  "enter_sleep remaining = (if 0 < remaining then Tick remaining else AfterSleep)"

text \<open>From one load of the flag to the next, on the shared table. \<open>from_std\<close> and \<open>dt_sub\<close> are
  chrono's conversion and subtraction; a pass whose cutoff is not representable panics before it has
  touched the table. A pass is one step here; how its stages interleave with requests is the subject of
  \<open>Races\<close>.\<close>

fun ev_step ::
  "(nat \<Rightarrow> int option) \<Rightarrow> (DateTime \<Rightarrow> int \<Rightarrow> DateTime option) \<Rightarrow> u64 \<Rightarrow> bool \<Rightarrow> DateTime \<Rightarrow>
   ev_pc \<times> CasTable \<Rightarrow> (ev_pc \<times> CasTable) \<times> ev_action list"
where
  "ev_step from_std dt_sub minutes shutdown now (WhileCheck, t) =
     ((if shutdown then Stopped else enter_sleep check_interval, t), [])"
| "ev_step from_std dt_sub minutes shutdown now (Tick remaining, t) =
     (if shutdown then ((AfterSleep, t), [])
      else let sleep_time = min remaining 1
           in ((enter_sleep (remaining - sleep_time), t), [Sleep sleep_time]))"
| "ev_step from_std dt_sub minutes shutdown now (AfterSleep, t) =
     (if shutdown then ((Stopped, t), [])
      else case evict_older_than from_std dt_sub (unat (eviction_duration minutes)) now t of
        None \<Rightarrow> ((Panicked, t), [])
      | Some t' \<Rightarrow> ((WhileCheck, t'), [EvictPass now]))"
| "ev_step from_std dt_sub minutes shutdown now (Stopped, t) = ((Stopped, t), [])"
| "ev_step from_std dt_sub minutes shutdown now (Panicked, t) = ((Panicked, t), [])"

text \<open>What a load of the flag finds: the flag, the time, and what the other threads have done to the
  table since the load before.\<close>

record ev_load =
  ld_shutdown :: bool
  ld_now :: DateTime
  ld_others :: "CasTable \<Rightarrow> CasTable"

fun ev_run ::
  "(nat \<Rightarrow> int option) \<Rightarrow> (DateTime \<Rightarrow> int \<Rightarrow> DateTime option) \<Rightarrow> u64 \<Rightarrow> ev_load list \<Rightarrow>
   ev_pc \<times> CasTable \<Rightarrow> (ev_pc \<times> CasTable) \<times> ev_action list"
where
  "ev_run from_std dt_sub minutes [] st = (st, [])"
| "ev_run from_std dt_sub minutes (l # ls) (pc, t) =
     (let (st', out) = ev_step from_std dt_sub minutes (ld_shutdown l) (ld_now l) (pc, ld_others l t);
          (st'', outs) = ev_run from_std dt_sub minutes ls st'
      in (st'', out @ outs))"

section \<open>Properties\<close>

abbreviation running_load :: "ev_load \<Rightarrow> bool" where
  "running_load l \<equiv> \<not> ld_shutdown l"

lemma ev_run_append:
  "ev_run from_std dt_sub minutes (ls @ ms) st =
     (let (st', out) = ev_run from_std dt_sub minutes ls st;
          (st'', outs) = ev_run from_std dt_sub minutes ms st'
      in (st'', out @ outs))"
proof (induction ls arbitrary: st)
  case (Cons l ls)
  then show ?case by (cases st) (simp add: split_beta Let_def)
qed simp

lemma ev_ticks:
  "list_all running_load ls \<Longrightarrow>
   ev_run from_std dt_sub minutes ls (enter_sleep (length ls), t) =
     ((AfterSleep, fold ld_others ls t), replicate (length ls) (Sleep 1))"
proof (induction ls arbitrary: t)
  case Nil
  then show ?case by (simp add: enter_sleep_def)
next
  case (Cons l ls)
  then show ?case by (simp add: enter_sleep_def [of "Suc (length ls)"])
qed

abbreviation cutoff_at ::
  "(nat \<Rightarrow> int option) \<Rightarrow> (DateTime \<Rightarrow> int \<Rightarrow> DateTime option) \<Rightarrow> u64 \<Rightarrow> DateTime \<Rightarrow> DateTime option"
where
  "cutoff_at from_std dt_sub minutes now \<equiv>
     evict_cutoff from_std dt_sub (unat (eviction_duration minutes)) now"

text \<open>One minute: 62 loads of the flag, sixty sleeps and a pass at the end.\<close>

lemma ev_minute:
  assumes "length m = 62" and "list_all running_load m"
    and "cutoff_at from_std dt_sub minutes (ld_now (last m)) = Some c"
  shows "ev_run from_std dt_sub minutes m (WhileCheck, t) =
    ((WhileCheck, evict_before c (fold ld_others m t)), replicate 60 (Sleep 1) @ [EvictPass (ld_now (last m))])"
proof -
  obtain l ls where l: "m = l # ls" using assms(1) by (cases m) auto
  then have ls: "ls \<noteq> []" "length (butlast ls) = 60" using assms(1) by auto
  define tk e where "tk = butlast ls" and "e = last ls"
  have m: "m = l # tk @ [e]" using ls by (simp add: l tk_def e_def)
  have "list_all running_load tk" "running_load l" "running_load e" using assms(2) by (simp_all add: m)
  moreover have "length tk = 60" using ls by (simp add: tk_def)
  ultimately show ?thesis
    using ev_ticks [of tk from_std dt_sub minutes "ld_others l t"] assms(3)
    by (simp add: m check_interval_def ev_run_append evict_older_than_def)
qed

lemma ev_minutes:
  assumes "list_all (\<lambda>m. length m = 62 \<and> list_all running_load m) mins"
    and "map (\<lambda>m. cutoff_at from_std dt_sub minutes (ld_now (last m))) mins = map Some cutoffs"
  shows "ev_run from_std dt_sub minutes (concat mins) (WhileCheck, t) =
    ((WhileCheck, fold (\<lambda>(m, c) t. evict_before c (fold ld_others m t)) (zip mins cutoffs) t),
     concat (map (\<lambda>m. replicate 60 (Sleep 1) @ [EvictPass (ld_now (last m))]) mins))"
  using assms
proof (induction mins arbitrary: cutoffs t)
  case (Cons m mins)
  then obtain c cs where c: "cutoffs = c # cs" by (cases cutoffs) auto
  then show ?case
    using Cons.IH [of cs] Cons.prems ev_minute [of m from_std dt_sub minutes c t]
    by (simp add: ev_run_append)
qed simp

lemma ev_ended:
  "pc = Stopped \<or> pc = Panicked \<Longrightarrow>
   ev_run from_std dt_sub minutes ls (pc, t) = ((pc, fold ld_others ls t), [])"
  by (induction ls arbitrary: t) auto

lemma ev_stops:
  assumes "pc \<noteq> Panicked" and "ld_shutdown l" and "ld_shutdown l'"
  shows "ev_run from_std dt_sub minutes (l # l' # ls) (pc, t) =
    ((Stopped, fold ld_others (l # l' # ls) t), [])"
  using assms by (cases pc) (simp_all add: ev_ended)

text \<open>
  C25: The life of the eviction thread, whatever the other threads do to the table. While the flag is
  not set it evicts once for every sixty one-second sleeps, a pass taking 62 loads of the flag, for as
  long as the cutoffs are representable, and each pass works on the table the others have left. Once
  the flag is set the thread ends: wherever it is, after two more loads it has stopped, without
  another sleep and without another eviction, so shutdown waits at most for the one-second sleep under
  way. A pass whose cutoff is not representable kills the thread: it does nothing to the table, then or
  later.
\<close>

theorem eviction_thread_life:
  assumes "list_all (\<lambda>m. length m = 62 \<and> list_all running_load m) mins"
    and "map (\<lambda>m. cutoff_at from_std dt_sub minutes (ld_now (last m))) mins = map Some cutoffs"
    and "ld_shutdown stop" and "ld_shutdown stop'"
  shows "ev_run from_std dt_sub minutes (concat mins @ stop # stop' # rest) (WhileCheck, t) =
      ((Stopped, fold ld_others (stop # stop' # rest)
          (fold (\<lambda>(m, c) t. evict_before c (fold ld_others m t)) (zip mins cutoffs) t)),
       concat (map (\<lambda>m. replicate 60 (Sleep 1) @ [EvictPass (ld_now (last m))]) mins))
    \<and> (pc \<noteq> Panicked \<longrightarrow> ev_run from_std dt_sub minutes (stop # stop' # rest) (pc, t) =
      ((Stopped, fold ld_others (stop # stop' # rest) t), []))
    \<and> (running_load l \<and> cutoff_at from_std dt_sub minutes (ld_now l) = None \<longrightarrow>
      ev_run from_std dt_sub minutes (l # rest) (AfterSleep, t) =
        ((Panicked, fold ld_others (l # rest) t), []))"
proof (intro conjI impI)
  show "ev_run from_std dt_sub minutes (concat mins @ stop # stop' # rest) (WhileCheck, t) =
      ((Stopped, fold ld_others (stop # stop' # rest)
          (fold (\<lambda>(m, c) t. evict_before c (fold ld_others m t)) (zip mins cutoffs) t)),
       concat (map (\<lambda>m. replicate 60 (Sleep 1) @ [EvictPass (ld_now (last m))]) mins))"
    using ev_stops [of WhileCheck stop stop' from_std dt_sub minutes rest] assms(3,4)
    by (simp add: ev_run_append ev_minutes [OF assms(1,2)] del: ev_run.simps)
next
  assume "pc \<noteq> Panicked"
  then show "ev_run from_std dt_sub minutes (stop # stop' # rest) (pc, t) =
      ((Stopped, fold ld_others (stop # stop' # rest) t), [])"
    by (rule ev_stops) (fact assms)+
qed (simp add: ev_ended evict_older_than_def)

text \<open>An hour of idle time, a table that two sessions have read, and three passes; and a clock whose
  arithmetic fails.\<close>

abbreviation quiet_minute :: "DateTime \<Rightarrow> ev_load list" where
  "quiet_minute now \<equiv> replicate 62 \<lparr>ld_shutdown = False, ld_now = now, ld_others = id\<rparr>"

abbreviation stop_load :: ev_load where
  "stop_load \<equiv> \<lparr>ld_shutdown = True, ld_now = 7000, ld_others = id\<rparr>"

theorem eviction_thread_life_witness:
  "fst (ev_run (\<lambda>d. Some (int d)) (\<lambda>now d. Some (now - d)) 60
      (concat [quiet_minute 5000, quiet_minute 6000] @ [stop_load, stop_load])
      (WhileCheck, record_reader ''f'' [1] 10 2000 CasTable_new)) =
     (Stopped, evict_before 2400 (evict_before 1400 (record_reader ''f'' [1] 10 2000 CasTable_new)))
   \<and> fst (ev_run (\<lambda>d. Some (int d)) (\<lambda>now d. Some (now - d)) 60 [stop_load, stop_load] (Tick 30, CasTable_new)) =
     (Stopped, CasTable_new)
   \<and> fst (ev_run (\<lambda>d. Some (int d)) (\<lambda>now d. None) 60
      [\<lparr>ld_shutdown = False, ld_now = 0, ld_others = id\<rparr>] (AfterSleep, CasTable_new)) =
     (Panicked, CasTable_new)"
proof -
  have last: "last (replicate 62 x) = x" for x :: ev_load by (simp add: last_replicate)
  have cut: "cutoff_at (\<lambda>d. Some (int d)) (\<lambda>now d. Some (now - d)) 60 now = Some (now - 3600)" for now
    by (simp add: evict_cutoff_def eviction_duration_def)
  have none: "cutoff_at (\<lambda>d. Some (int d)) (\<lambda>now d. None) 60 now = None" for now
    by (simp add: evict_cutoff_def)
  have id: "fold ld_others (quiet_minute n) t = t" for n t
    by (simp add: fold_replicate)
  show ?thesis
    using eviction_thread_life [of "[quiet_minute 5000, quiet_minute 6000]" "\<lambda>d. Some (int d)"
        "\<lambda>now d. Some (now - d)" 60 "[1400, 2400]" stop_load stop_load "[]"
        "record_reader ''f'' [1] 10 2000 CasTable_new"]
      eviction_thread_life [of "[]" "\<lambda>d. Some (int d)" "\<lambda>now d. Some (now - d)" 60 "[]" stop_load stop_load
        "[]" CasTable_new "Tick 30"]
      eviction_thread_life [of "[]" "\<lambda>d. Some (int d)" "\<lambda>now d. None" 60 "[]" stop_load stop_load
        "[]" CasTable_new Stopped "\<lparr>ld_shutdown = False, ld_now = 0, ld_others = id\<rparr>"]
    by (simp add: last cut none id list_all_iff del: ev_run.simps)
qed

text \<open>
  However long the thread runs, it never takes away a write: the owners of all paths change only as the
  other threads change them.
\<close>

lemma ev_step_keeps_owners:
  "owner_of (snd (fst (ev_step from_std dt_sub minutes shutdown now st))) = owner_of (snd st)"
  by (cases "(from_std, dt_sub, minutes, shutdown, now, st)" rule: ev_step.cases)
     (auto simp: Let_def evict_older_than_def split: option.splits)

lemma eviction_thread_keeps_owners:
  assumes "list_all (\<lambda>l. \<forall>t. owner_of (ld_others l t) = owner_of t) ls"
  shows "owner_of (snd (fst (ev_run from_std dt_sub minutes ls st))) = owner_of (snd st)"
  using assms
proof (induction ls arbitrary: st)
  case (Cons l ls)
  obtain pc t where st: "st = (pc, t)" by force
  let ?st = "fst (ev_step from_std dt_sub minutes (ld_shutdown l) (ld_now l) (pc, ld_others l t))"
  have "owner_of (snd ?st) = owner_of t" using Cons.prems by (simp add: ev_step_keeps_owners)
  then show ?case using Cons.IH [of ?st] Cons.prems by (simp add: st split_beta)
qed simp

text \<open>The duration is the number of minutes asked for unless it overflows.\<close>

lemma eviction_duration_exact:
  assumes "unat m < 2 ^ 64 div 60"
  shows "unat (eviction_duration m) = unat m * 60"
  using assms by (simp add: eviction_duration_def unat_word_ariths)

end
