(* ===== verification/Startup.thy ===== *)
theory Startup
  imports Signals Eviction Fs_Steps
begin

text \<open>
  \<open>main\<close> of \<open>src/main.rs\<close>: what happens between the parsed command line and the wait for a shutdown,
  while the program runs, and after the wait. What the program asks of the system on the way is input.
  The \<open>DibsFs\<close> values it makes live in a store; an \<open>Arc\<close> that points into one of them is its position
  in the store.
\<close>

section \<open>Mounting\<close>

datatype start_error = NoBacking | BackingNotDir | CannotCreateMountpoint | NoMountpoint | StaleMount
  | MountFailed

datatype SessionACL = AclAll | AclOwner

datatype MountOption = FSName string | AutoUnmount | DefaultPermissions

text \<open>The answers of the system, in the order they are asked for: the canonical backing directory and
  whether it is a directory, whether the mount point exists and can be created, its canonical path,
  the output of \<open>mount\<close> and whether the mount point can be read, the process id, and fuser's attempt
  to mount for the given users. A failed mount is its OS error code, if any, and its message.\<close>

record 'w startup =
  su_backing :: "io_error + path"
  su_is_dir :: bool
  su_exists :: bool
  su_create :: "io_error option"
  su_mountpoint :: "io_error + path"
  su_mount_list :: "unit + cmd_output"
  su_readable :: bool
  su_pid :: u32
  su_spawn :: "SessionACL \<Rightarrow> 'w \<Rightarrow> ((i32 option \<times> string) + unit) \<times> 'w"

text \<open>The running program: where it logs, its mount options, its configuration and who may use the
  mount; every \<open>DibsFs\<close> made so far, and which of them the session serves, into which the eviction
  thread's \<open>cas_arc\<close> points and into which \<open>file_handles_arc\<close> points; the eviction thread, the
  shutdown flag and the world.\<close>

record 'w started =
  sd_log :: "path \<times> string"
  sd_options :: "MountOption list"
  sd_config :: DibsConfig
  sd_acl :: SessionACL
  sd_store :: "DibsFs list"
  sd_session :: nat
  sd_cas_arc :: nat
  sd_file_handles_arc :: nat
  sd_thread :: ev_pc
  sd_shutdown :: bool
  sd_world :: 'w

definition EPERM :: i32 where
  "EPERM = 1"

definition default_session_id :: "u32 \<Rightarrow> string" where
  "default_session_id pid = ''dibs-'' @ show_nat (unat pid)"

text \<open>The directory and the file name the log goes to.\<close>

definition log_location :: "path \<Rightarrow> path \<times> string" where
  "log_location log_file =
     (option_or ''/tmp'' (parent log_file), option_or ''dibs.log'' (file_name log_file))"

definition mount_options :: "MountOption list" where
  "mount_options = [FSName ''dibs'', AutoUnmount, DefaultPermissions]"

definition mount_config :: "MountArgs \<Rightarrow> path \<Rightarrow> path \<Rightarrow> string \<Rightarrow> DibsConfig" where
  "mount_config args bk mountpoint sid = \<lparr>cfg_backing = bk, cfg_mountpoint = mountpoint,
     cfg_session_id = sid, cfg_log_file = arg_log_file args,
     cfg_eviction_minutes = arg_eviction_minutes args, cfg_save_conflicts = arg_save_conflicts args,
     cfg_readonly_fallback = arg_readonly_fallback args, cfg_foreground = arg_foreground args\<rparr>"

definition may_retry :: "i32 option \<times> string \<Rightarrow> bool" where
  "may_retry err \<longleftrightarrow> fst err = Some EPERM \<or> contains (snd err) ''allow_other''"

text \<open>\<open>DibsFs::new\<close>, put into the store.\<close>

definition new_dibsfs ::
  "('w, 's, 'm) env_scheme \<Rightarrow> DibsConfig \<Rightarrow> DibsFs list \<times> 'w \<Rightarrow> nat \<times> DibsFs list \<times> 'w"
where
  "new_dibsfs os cfg = (\<lambda>(store, w). let (s, w1) = DibsFs_new os cfg w in (length store, store @ [s], w1))"

text \<open>fuser's \<open>spawn_mount2\<close> of the \<open>DibsFs\<close> at a position: a session that has been mounted begins
  with the \<open>init\<close> of the file system moved into it.\<close>

definition spawn_mount2 ::
  "'w startup \<Rightarrow> SessionACL \<Rightarrow> nat \<Rightarrow> DibsFs list \<times> 'w \<Rightarrow>
   ((i32 option \<times> string) + unit) \<times> DibsFs list \<times> 'w"
where
  "spawn_mount2 su acl n = (\<lambda>(store, w). case su_spawn su acl w of
       (Inl err, w1) \<Rightarrow> (Inl err, store, w1)
     | (Inr _, w1) \<Rightarrow> (Inr (), store[n := fs_init (store ! n)], w1))"

text \<open>From the first \<open>DibsFs::new\<close> to a mounted session. The eviction thread is started on the
  conflict table of the first \<open>DibsFs\<close>; a retry makes a second one with the same configuration, and of
  the two clones of an \<open>Arc\<close> only \<open>file_handles_arc\<close> is assigned again.\<close>

definition spawn_session ::
  "('w, 's, 'm) env_scheme \<Rightarrow> 'w startup \<Rightarrow> DibsConfig \<Rightarrow> 'w \<Rightarrow> start_error + 'w started"
where
  "spawn_session os su cfg w =
     (let (dibsfs, st) = new_dibsfs os cfg ([], w);
          cas_arc = dibsfs;
          file_handles_arc = dibsfs;
          started = (\<lambda>acl session file_handles_arc (store, w).
            \<lparr>sd_log = log_location (cfg_log_file cfg), sd_options = mount_options, sd_config = cfg,
             sd_acl = acl, sd_store = store, sd_session = session, sd_cas_arc = cas_arc,
             sd_file_handles_arc = file_handles_arc, sd_thread = WhileCheck, sd_shutdown = False,
             sd_world = w\<rparr>)
      in case spawn_mount2 su AclAll dibsfs st of
           (Inr _, st1) \<Rightarrow> Inr (started AclAll dibsfs file_handles_arc st1)
         | (Inl err, st1) \<Rightarrow>
             if may_retry err then
               (let (retry_dibsfs, st2) = new_dibsfs os cfg st1;
                    file_handles_arc = retry_dibsfs
                in case spawn_mount2 su AclOwner retry_dibsfs st2 of
                     (Inr _, st3) \<Rightarrow> Inr (started AclOwner retry_dibsfs file_handles_arc st3)
                   | (Inl _, _) \<Rightarrow> Inl MountFailed)
             else Inl MountFailed)"

definition main_mount ::
  "('w, 's, 'm) env_scheme \<Rightarrow> MountArgs \<Rightarrow> 'w startup \<Rightarrow> 'w \<Rightarrow> start_error + 'w started"
where
  "main_mount os args su w = (case su_backing su of
       Inl _ \<Rightarrow> Inl NoBacking
     | Inr bk \<Rightarrow>
         if \<not> su_is_dir su then Inl BackingNotDir
         else if \<not> su_exists su \<and> su_create su \<noteq> None then Inl CannotCreateMountpoint
         else (case su_mountpoint su of
             Inl _ \<Rightarrow> Inl NoMountpoint
           | Inr mountpoint \<Rightarrow>
               if is_stale_fuse_mount (su_mount_list su) (su_readable su) mountpoint then Inl StaleMount
               else (let sid = option_or (default_session_id (su_pid su)) (arg_session_id args)
                     in spawn_session os su (mount_config args bk mountpoint sid) w)))"

section \<open>Running\<close>

text \<open>What happens while the program runs: the session serves a request, the eviction thread goes on to
  its next load of the flag, the main thread sets the flag, or something outside changes the world.\<close>

datatype 'w prog_event = Serve request | ThreadLoad | StoreShutdown | Outside 'w

fun prog_step ::
  "('w, 's, 'm) env_scheme \<Rightarrow> (nat \<Rightarrow> int option) \<Rightarrow> (DateTime \<Rightarrow> int \<Rightarrow> DateTime option) \<Rightarrow>
   'w prog_event \<Rightarrow> 'w started \<Rightarrow> 'w started"
where
  "prog_step os from_std dt_sub (Serve r) st =
     (let (_, s, w) = handle os r (sd_store st ! sd_session st) (sd_world st)
      in st\<lparr>sd_store := (sd_store st)[sd_session st := s], sd_world := w\<rparr>)"
| "prog_step os from_std dt_sub ThreadLoad st =
     (let s = sd_store st ! sd_cas_arc st;
          ((pc, ct), _) = ev_step from_std dt_sub (cfg_eviction_minutes (sd_config st)) (sd_shutdown st)
            (utc_now os (sd_world st)) (sd_thread st, cas_table s)
      in st\<lparr>sd_thread := pc, sd_store := (sd_store st)[sd_cas_arc st := s\<lparr>cas_table := ct\<rparr>]\<rparr>)"
| "prog_step os from_std dt_sub StoreShutdown st = st\<lparr>sd_shutdown := True\<rparr>"
| "prog_step os from_std dt_sub (Outside w) st = st\<lparr>sd_world := w\<rparr>"

definition prog_run ::
  "('w, 's, 'm) env_scheme \<Rightarrow> (nat \<Rightarrow> int option) \<Rightarrow> (DateTime \<Rightarrow> int \<Rightarrow> DateTime option) \<Rightarrow>
   'w prog_event list \<Rightarrow> 'w started \<Rightarrow> 'w started"
where
  "prog_run os from_std dt_sub evs st = fold (prog_step os from_std dt_sub) evs st"

text \<open>The file system that is mounted, and the handle table the main thread reports from.\<close>

definition session_fs :: "'w started \<Rightarrow> DibsFs" where
  "session_fs st = sd_store st ! sd_session st"

definition watched_handles :: "'w started \<Rightarrow> HandleTable" where
  "watched_handles st = file_handles (sd_store st ! sd_file_handles_arc st)"

text \<open>The rounds of the wait: between two rounds the program runs on, and each round sees the handle
  table behind \<open>file_handles_arc\<close>.\<close>

fun wait_rounds ::
  "('w, 's, 'm) env_scheme \<Rightarrow> (nat \<Rightarrow> int option) \<Rightarrow> (DateTime \<Rightarrow> int \<Rightarrow> DateTime option) \<Rightarrow>
   'w started \<Rightarrow> ('w prog_event list \<times> round) list \<Rightarrow> round list"
where
  "wait_rounds os from_std dt_sub st [] = []"
| "wait_rounds os from_std dt_sub st ((evs, r) # rs) =
     (let st' = prog_run os from_std dt_sub evs st
      in r\<lparr>rd_handles := watched_handles st'\<rparr> # wait_rounds os from_std dt_sub st' rs)"

section \<open>After the wait\<close>

datatype final_call = StopEviction | UmountAndJoin | JoinSession | RunUmountForce

text \<open>The eviction thread is stopped first; only a failing forced unmount falls back to \<open>umount -f\<close>.\<close>

definition finish :: "ShutdownAction \<Rightarrow> bool \<Rightarrow> final_call list" where
  "finish action umount_ok = StopEviction # (case action of
       ForceUnmount \<Rightarrow> UmountAndJoin # (if umount_ok then [] else [RunUmountForce])
     | ExternalUnmount \<Rightarrow> [JoinSession])"

section \<open>The program\<close>

text \<open>How a run of the program stands: the start failed, it is still waiting for a shutdown, it has
  ended after the final calls, or it was the unmount command.\<close>

datatype 'w program_state =
    StartFailed start_error
  | Waiting "'w started"
  | Ended "'w started" "final_call list"
  | RanUnmount "unmount_command list" unmount_result

text \<open>\<open>rounds\<close> are the rounds of the wait so far, each with what happened before it, \<open>write_end\<close> the
  descriptor of the signal pipe, \<open>umount_ok\<close> whether \<open>umount_and_join\<close> succeeds, and the last argument
  what the unmount command observes. The program as it was started is part of the result.\<close>

definition main_program ::
  "('w, 's, 'm) env_scheme \<Rightarrow> (nat \<Rightarrow> int option) \<Rightarrow> (DateTime \<Rightarrow> int \<Rightarrow> DateTime option) \<Rightarrow>
   command \<Rightarrow> 'w startup \<Rightarrow> 'w \<Rightarrow> int \<Rightarrow> ('w prog_event list \<times> round) list \<Rightarrow> bool \<Rightarrow>
   (unit + path) \<times> (unit + cmd_output) \<times> (unit + cmd_output) \<times> (unit + bool) \<Rightarrow> 'w program_state"
where
  "main_program os from_std dt_sub cmd su w write_end rounds umount_ok um = (case cmd of
       Mount args \<Rightarrow> (case main_mount os args su w of
           Inl e \<Rightarrow> StartFailed e
         | Inr st \<Rightarrow> (case fst (shutdown_on_signals write_end (wait_rounds os from_std dt_sub st rounds)) of
             None \<Rightarrow> Waiting st
           | Some action \<Rightarrow> Ended st (finish action umount_ok)))
     | Unmount mountpoint \<Rightarrow> (case um of (canonical, umount_out, diskutil_out, force_status) \<Rightarrow>
         (case unmount canonical umount_out diskutil_out force_status of (cmds, r) \<Rightarrow> RanUnmount cmds r)))"

section \<open>Properties\<close>

text \<open>Where the log goes by default, and for a bare file name.\<close>

lemma default_log: "log_location ''/tmp/dibs.log'' = (''/tmp'', ''dibs.log'')"
  by (simp add: log_location_def parent_def file_name_def components_def is_absolute_def to_component_def
      from_components_def join_def)

lemma bare_log: "valid_name n \<Longrightarrow> log_location n = ([], n)"
  using components_rel [of "[n]"]
  by (simp add: log_location_def parent_def file_name_def from_components_def)

subsection \<open>The mounted file system is a run of the handlers\<close>

text \<open>What the mounted file system sees of an event: requests and outside changes, and a pass of the
  eviction thread if the thread's \<open>Arc\<close> points into it.\<close>

fun session_event ::
  "('w, 's, 'm) env_scheme \<Rightarrow> (nat \<Rightarrow> int option) \<Rightarrow> (DateTime \<Rightarrow> int \<Rightarrow> DateTime option) \<Rightarrow>
   'w started \<Rightarrow> 'w prog_event \<Rightarrow> 'w event list"
where
  "session_event os from_std dt_sub st (Serve r) = [Request r]"
| "session_event os from_std dt_sub st ThreadLoad =
     (if sd_cas_arc st = sd_session st \<and> sd_thread st = AfterSleep \<and> \<not> sd_shutdown st
      then (case cutoff_at from_std dt_sub (cfg_eviction_minutes (sd_config st)) (utc_now os (sd_world st)) of
          None \<Rightarrow> []
        | Some cutoff \<Rightarrow> [Evict cutoff])
      else [])"
| "session_event os from_std dt_sub st StoreShutdown = []"
| "session_event os from_std dt_sub st (Outside w) = [External w]"

fun session_events ::
  "('w, 's, 'm) env_scheme \<Rightarrow> (nat \<Rightarrow> int option) \<Rightarrow> (DateTime \<Rightarrow> int \<Rightarrow> DateTime option) \<Rightarrow>
   'w started \<Rightarrow> 'w prog_event list \<Rightarrow> 'w event list"
where
  "session_events os from_std dt_sub st [] = []"
| "session_events os from_std dt_sub st (ev # evs) =
     session_event os from_std dt_sub st ev
       @ session_events os from_std dt_sub (prog_step os from_std dt_sub ev st) evs"

text \<open>The references are never changed and stay within the store.\<close>

definition refs_ok :: "'w started \<Rightarrow> bool" where
  "refs_ok st \<longleftrightarrow> sd_session st < length (sd_store st) \<and> sd_cas_arc st < length (sd_store st)
     \<and> sd_file_handles_arc st = sd_session st"

lemma prog_step_refs [simp]:
  "sd_session (prog_step os from_std dt_sub ev st) = sd_session st"
  "sd_cas_arc (prog_step os from_std dt_sub ev st) = sd_cas_arc st"
  "sd_file_handles_arc (prog_step os from_std dt_sub ev st) = sd_file_handles_arc st"
  "length (sd_store (prog_step os from_std dt_sub ev st)) = length (sd_store st)"
  "sd_config (prog_step os from_std dt_sub ev st) = sd_config st"
  by (cases ev; simp add: Let_def split_beta)+

lemma prog_run_refs [simp]:
  "sd_session (prog_run os from_std dt_sub evs st) = sd_session st"
  "sd_cas_arc (prog_run os from_std dt_sub evs st) = sd_cas_arc st"
  "sd_file_handles_arc (prog_run os from_std dt_sub evs st) = sd_file_handles_arc st"
  "length (sd_store (prog_run os from_std dt_sub evs st)) = length (sd_store st)"
  "sd_config (prog_run os from_std dt_sub evs st) = sd_config st"
  unfolding prog_run_def by (induction evs arbitrary: st) simp_all

lemma refs_ok_step [simp]: "refs_ok (prog_step os from_std dt_sub ev st) = refs_ok st"
  by (simp add: refs_ok_def)

lemma ev_step_table:
  "snd (fst (ev_step from_std dt_sub minutes sdn now (pc, t))) =
     (if pc = AfterSleep \<and> \<not> sdn
      then (case cutoff_at from_std dt_sub minutes now of None \<Rightarrow> t | Some cutoff \<Rightarrow> evict_before cutoff t)
      else t)"
  by (cases pc) (auto simp: Let_def evict_older_than_def split: option.splits)

lemma session_step:
  assumes "refs_ok st"
  shows "(session_fs (prog_step os from_std dt_sub ev st), sd_world (prog_step os from_std dt_sub ev st)) =
    fs_run os (session_event os from_std dt_sub st ev) (session_fs st, sd_world st)"
  using assms
  by (cases ev) (auto simp: session_fs_def fs_run_def refs_ok_def split_beta Let_def ev_step_table
      nth_list_update split: option.splits)

lemma session_run:
  "refs_ok st \<Longrightarrow>
   (session_fs (prog_run os from_std dt_sub evs st), sd_world (prog_run os from_std dt_sub evs st)) =
    fs_run os (session_events os from_std dt_sub st evs) (session_fs st, sd_world st)"
proof (induction evs arbitrary: st)
  case (Cons ev evs)
  then show ?case
    using session_step [OF Cons.prems, of os from_std dt_sub ev]
    by (simp add: prog_run_def fs_run_def)
qed (simp add: prog_run_def fs_run_def)

subsection \<open>What a start leaves behind\<close>

lemma spawn_session_fields:
  assumes "spawn_session os su cfg w = Inr st"
  shows "sd_config st = cfg" and "sd_log st = log_location (cfg_log_file cfg)"
    and "sd_acl st = AclAll \<longleftrightarrow> fst (su_spawn su AclAll (snd (DibsFs_new os cfg w))) = Inr ()"
  using assms
  by (auto simp: spawn_session_def new_dibsfs_def spawn_mount2_def Let_def split_beta
      split: sum.splits prod.splits if_splits)

text \<open>Either the first \<open>DibsFs\<close> is mounted and everything points into it, or a second one is, with the
  handle table reported from but not with the eviction thread.\<close>

lemma spawn_session_cases:
  assumes "spawn_session os su cfg w = Inr st"
  obtains (direct) "sd_acl st = AclAll" "sd_store st = [fst (mounted os cfg w)]" "sd_session st = 0"
      "sd_cas_arc st = 0" "sd_file_handles_arc st = 0"
    | (retried) w1 where "sd_acl st = AclOwner"
      "sd_store st = [fst (DibsFs_new os cfg w), fst (mounted os cfg w1)]" "sd_session st = 1"
      "sd_cas_arc st = 0" "sd_file_handles_arc st = 1"
  using assms
  by (fastforce simp: spawn_session_def new_dibsfs_def spawn_mount2_def mounted_def Let_def split_beta
      split: sum.splits prod.splits if_splits)

lemma main_mount_started:
  assumes "main_mount os args su w = Inr st"
  obtains bk mountpoint where "su_backing su = Inr bk" "su_is_dir su" "su_exists su \<or> su_create su = None"
    "su_mountpoint su = Inr mountpoint"
    "\<not> is_stale_fuse_mount (su_mount_list su) (su_readable su) mountpoint"
    "spawn_session os su (mount_config args bk mountpoint
       (option_or (default_session_id (su_pid su)) (arg_session_id args))) w = Inr st"
  using assms by (auto simp: main_mount_def Let_def split: sum.splits if_splits)

lemma started_refs:
  assumes "main_mount os args su w = Inr st"
  shows "refs_ok st" and "\<exists>w1. session_fs st = fst (mounted os (sd_config st) w1)"
proof -
  obtain cfg where cfg: "spawn_session os su cfg w = Inr st" using main_mount_started [OF assms] by blast
  note f = spawn_session_fields(1) [OF cfg]
  show "refs_ok st" using spawn_session_cases [OF cfg] by cases (simp_all add: refs_ok_def)
  show "\<exists>w1. session_fs st = fst (mounted os (sd_config st) w1)"
    using spawn_session_cases [OF cfg] by cases (auto simp: session_fs_def f)
qed

lemma started_run:
  assumes "main_mount os args su w = Inr st"
  shows "\<exists>w1. (session_fs (prog_run os from_std dt_sub evs st), sd_world (prog_run os from_std dt_sub evs st)) =
    fs_run os (External (sd_world st) # session_events os from_std dt_sub st evs) (mounted os (sd_config st) w1)"
proof -
  obtain w1 where "session_fs st = fst (mounted os (sd_config st) w1)" using started_refs [OF assms] by blast
  then have "fs_step os (External (sd_world st)) (mounted os (sd_config st) w1) = (session_fs st, sd_world st)"
    by (cases "mounted os (sd_config st) w1") simp
  then show ?thesis
    using session_run [OF started_refs(1) [OF assms], of os from_std dt_sub evs]
    by (intro exI [of _ w1]) (simp add: fs_run_def)
qed

lemma watched_run:
  "refs_ok st \<Longrightarrow> watched_handles (prog_run os from_std dt_sub evs st) =
     file_handles (session_fs (prog_run os from_std dt_sub evs st))"
  by (simp add: watched_handles_def session_fs_def refs_ok_def)

text \<open>
  C29: A successful start leads to a file system that runs as the handlers say. The backing path is a
  directory, the mount point exists or could be created and is not a stale mount; the configuration
  carries the canonical paths and every option of the user, with the process id as session id, an hour
  as eviction time and \<open>/tmp/dibs.log\<close> as log where none was given. From then on, whatever requests are
  served, whatever the eviction thread does and whether or not the mount had to be retried, the mounted
  file system is in a state reached from mounting by the requests, the passes over its own table and
  the outside changes, so that everything shown of such runs holds of the program; and the handle table
  the main thread reports open files from is that of the mounted file system.
\<close>

theorem start_checked:
  assumes "main_mount os (mount_args bk mp opts) su w = Inr st"
    and "st' = prog_run os from_std dt_sub evs st"
  shows "\<exists>b m w1. su_backing su = Inr b \<and> su_is_dir su \<and> (su_exists su \<or> su_create su = None)
    \<and> su_mountpoint su = Inr m \<and> \<not> is_stale_fuse_mount (su_mount_list su) (su_readable su) m
    \<and> sd_config st = \<lparr>cfg_backing = b, cfg_mountpoint = m,
        cfg_session_id = (case opt_session_id opts of Some sid \<Rightarrow> sid | None \<Rightarrow> default_session_id (su_pid su)),
        cfg_log_file = (case opt_log_file opts of Some f \<Rightarrow> f | None \<Rightarrow> ''/tmp/dibs.log''),
        cfg_eviction_minutes = (case opt_eviction_minutes opts of Some n \<Rightarrow> n | None \<Rightarrow> 60),
        cfg_save_conflicts = opt_save_conflicts opts, cfg_readonly_fallback = opt_readonly_fallback opts,
        cfg_foreground = opt_foreground opts\<rparr>
    \<and> sd_log st = (case opt_log_file opts of Some f \<Rightarrow> log_location f | None \<Rightarrow> (''/tmp'', ''dibs.log''))
    \<and> (session_fs st', sd_world st') =
        fs_run os (External (sd_world st) # session_events os from_std dt_sub st evs)
          (mounted os (sd_config st) w1)
    \<and> watched_handles st' = file_handles (session_fs st')"
proof -
  obtain b m where start: "su_backing su = Inr b" "su_is_dir su" "su_exists su \<or> su_create su = None"
    "su_mountpoint su = Inr m" "\<not> is_stale_fuse_mount (su_mount_list su) (su_readable su) m"
    "spawn_session os su (mount_config (mount_args bk mp opts) b m
       (option_or (default_session_id (su_pid su)) (opt_session_id opts))) w = Inr st"
    using main_mount_started [OF assms(1)] by (auto simp: mount_args_def)
  obtain w1 where run: "(session_fs st', sd_world st') =
      fs_run os (External (sd_world st) # session_events os from_std dt_sub st evs) (mounted os (sd_config st) w1)"
    using started_run [OF assms(1)] assms(2) by blast
  have "watched_handles st' = file_handles (session_fs st')"
    using watched_run [OF started_refs(1) [OF assms(1)]] assms(2) by simp
  with start(1-5) run spawn_session_fields(1,2) [OF start(6)] show ?thesis
    by (intro exI [of _ b] exI [of _ m] exI [of _ w1])
       (simp add: mount_config_def mount_args_def default_log split: option.splits)
qed

subsection \<open>The eviction thread after a retry\<close>

text \<open>What remains for the mounted file system when the eviction thread works elsewhere.\<close>

fun served_event :: "'w prog_event \<Rightarrow> 'w event list" where
  "served_event (Serve r) = [Request r]"
| "served_event (Outside w) = [External w]"
| "served_event _ = []"

lemma session_events_unevicted:
  "sd_cas_arc st \<noteq> sd_session st \<Longrightarrow>
   session_events os from_std dt_sub st evs = concat (map served_event evs)"
proof (induction evs arbitrary: st)
  case (Cons ev evs)
  then have "session_events os from_std dt_sub (prog_step os from_std dt_sub ev st) evs =
      concat (map served_event evs)"
    by (intro Cons.IH) simp
  with Cons.prems show ?case by (cases ev) (simp_all del: prog_step.simps)
qed simp

lemma evict_before_new: "evict_before cutoff CasTable_new = CasTable_new"
  by (simp add: evict_before_def evict_collect_def drop_readers_def CasTable_new_def dm_new_empty)

lemma unserved_stays_new:
  assumes "refs_ok st" and "sd_cas_arc st \<noteq> sd_session st"
    and "cas_table (sd_store st ! sd_cas_arc st) = CasTable_new"
  shows "cas_table (sd_store (prog_run os from_std dt_sub evs st) ! sd_cas_arc st) = CasTable_new"
  using assms unfolding prog_run_def
proof (induction evs arbitrary: st)
  case (Cons ev evs)
  let ?st = "prog_step os from_std dt_sub ev st"
  have "cas_table (sd_store ?st ! sd_cas_arc st) = CasTable_new"
    using Cons.prems
    by (cases ev) (auto simp: refs_ok_def split_beta Let_def ev_step_table evict_before_new split: option.splits)
  then show ?case using Cons.IH [of ?st] Cons.prems by simp
qed simp

text \<open>
  C37: When mounting for all users fails and is retried for the owner alone, eviction no longer works.
  The eviction thread keeps the conflict table of the first \<open>DibsFs\<close>, which no request ever reaches and
  which stays empty, while the mounted file system runs through requests and outside changes only:
  however long the program runs, no entry and no view of the table in use is ever evicted. Without a
  retry the table the thread works on is the one in use.
\<close>

theorem retry_leaves_eviction_behind:
  assumes "main_mount os args su w = Inr st" and "st' = prog_run os from_std dt_sub evs st"
  shows "(sd_acl st = AclAll \<longleftrightarrow> fst (su_spawn su AclAll (snd (DibsFs_new os (sd_config st) w))) = Inr ())
    \<and> (sd_acl st = AclAll \<longrightarrow> sd_store st' ! sd_cas_arc st' = session_fs st')
    \<and> (sd_acl st = AclOwner \<longrightarrow> cas_table (sd_store st' ! sd_cas_arc st') = CasTable_new
      \<and> (\<exists>w1. (session_fs st', sd_world st') =
        fs_run os (External (sd_world st) # concat (map served_event evs)) (mounted os (sd_config st) w1)))"
proof -
  obtain cfg where cfg: "spawn_session os su cfg w = Inr st" using main_mount_started [OF assms(1)] by blast
  note refs = started_refs(1) [OF assms(1)] and run = started_run [OF assms(1), of from_std dt_sub evs]
  show ?thesis
  proof (cases rule: spawn_session_cases [OF cfg, case_names direct retried])
    case direct
    then show ?thesis
      using spawn_session_fields [OF cfg] assms(2) by (simp add: session_fs_def)
  next
    case (retried w1)
    then have "sd_cas_arc st \<noteq> sd_session st" and "cas_table (sd_store st ! sd_cas_arc st) = CasTable_new"
      by (simp_all add: DibsFs_new_def Let_def split_beta)
    then have "cas_table (sd_store st' ! sd_cas_arc st') = CasTable_new"
      and "session_events os from_std dt_sub st evs = concat (map served_event evs)"
      using unserved_stays_new [OF refs, of os from_std dt_sub evs] assms(2)
      by (simp_all add: session_events_unevicted)
    then show ?thesis
      using run spawn_session_fields [OF cfg] retried(1) assms(2) by (simp only:) auto
  qed
qed

subsection \<open>The end\<close>

text \<open>The eviction thread is stopped before the session is joined, and \<open>umount -f\<close> is only run after
  a second signal whose unmount failed.\<close>

lemma finish_forces_only_when_asked:
  "hd (finish action umount_ok) = StopEviction \<and>
   (RunUmountForce \<in> set (finish action umount_ok) \<longleftrightarrow> action = ForceUnmount \<and> \<not> umount_ok)"
  by (cases action) (simp_all add: finish_def)

lemma wait_rounds_append:
  "wait_rounds os from_std dt_sub st (xs @ ys) =
     wait_rounds os from_std dt_sub st xs
       @ wait_rounds os from_std dt_sub (prog_run os from_std dt_sub (concat (map fst xs)) st) ys"
  by (induction os from_std dt_sub st xs rule: wait_rounds.induct) (simp_all add: prog_run_def Let_def)

text \<open>What the rounds see of signals, session and \<open>umount\<close> does not depend on the handle table.\<close>

lemma wait_rounds_frame [simp]:
  "list_all busy (wait_rounds os from_std dt_sub st rs) = list_all busy (map snd rs)"
  "list_all (\<lambda>r. \<not> rd_finished r \<and> \<not> rd_umount r \<and> \<not> rd_interrupted r) (wait_rounds os from_std dt_sub st rs) =
     list_all (\<lambda>r. \<not> rd_finished r \<and> \<not> rd_umount r \<and> \<not> rd_interrupted r) (map snd rs)"
  "arrived (wait_rounds os from_std dt_sub st rs) = arrived (map snd rs)"
  "length (wait_rounds os from_std dt_sub st rs) = length rs"
  by (induction os from_std dt_sub st rs rule: wait_rounds.induct) (simp_all add: Let_def)

text \<open>
  C26: No signal is lost. After a successful start, whatever the program does meanwhile and however the
  signals fall on the rounds of the wait, several in one round, one interrupting the \<open>poll\<close>, or one
  while an earlier one is being handled, two of them on a mount that stays busy end the program: at the
  latest after two further rounds whose \<open>poll\<close> is not interrupted, the eviction thread is stopped and
  then the unmount is forced, with \<open>umount -f\<close> if the session's own unmount fails.
\<close>

theorem two_signals_end_program:
  assumes "main_mount os args su w = Inr st" and "0 \<le> write_end"
    and "list_all busy (map snd rs)" and "2 \<le> arrived (map snd rs)"
    and "list_all (\<lambda>r. busy r \<and> \<not> rd_interrupted r) (map snd calm)" and "length calm = 2"
  shows "main_program os from_std dt_sub (Mount args) su w write_end (rs @ calm @ rest) umount_ok um =
    Ended st (StopEviction # UmountAndJoin # (if umount_ok then [] else [RunUmountForce]))"
proof -
  let ?run = "\<lambda>rs st. prog_run os from_std dt_sub (concat (map fst rs)) st"
  let ?rounds = "wait_rounds os from_std dt_sub"
  have "fst (shutdown_on_signals write_end (?rounds st rs @ ?rounds (?run rs st) calm
      @ ?rounds (?run calm (?run rs st)) rest)) = Some ForceUnmount"
    by (rule two_signals_force) (use assms in simp_all)
  then show ?thesis
    using assms(1) by (simp add: main_program_def finish_def wait_rounds_append)
qed

end
