(* ===== verification/Mem_World.thy ===== *)
theory Mem_World
  imports Conflict
begin

text \<open>
  A concrete world to evaluate the handlers in: an in-memory file system with names, inodes and
  file descriptors, sessions identified with processes, and a digest that is the content itself.
  It is an instance of the system parameter for the examples and witnesses of the development;
  no general statement refers to it.
\<close>

section \<open>The world\<close>

record mem =
  m_names :: "path \<Rightarrow> nat option"
  m_data :: "nat \<Rightarrow> bytes option"
  m_fds :: "nat \<Rightarrow> nat option"
  m_next_ino :: nat
  m_next_fd :: nat
  m_clock :: int

abbreviation enoent :: io_error where
  "enoent \<equiv> OsError 2"

abbreviation enosys :: io_error where
  "enosys \<equiv> OsError 78"

definition m_content :: "path \<Rightarrow> mem \<Rightarrow> bytes option" where
  "m_content p w = Option.bind (m_names w p) (m_data w)"

definition m_new_fd :: "nat \<Rightarrow> mem \<Rightarrow> (io_error + nat) \<times> mem" where
  "m_new_fd i w = (Inr (m_next_fd w),
     w\<lparr>m_fds := (m_fds w)(m_next_fd w \<mapsto> i), m_next_fd := Suc (m_next_fd w)\<rparr>)"

definition m_open :: "path \<Rightarrow> i32 \<Rightarrow> u32 option \<Rightarrow> mem \<Rightarrow> (io_error + nat) \<times> mem" where
  "m_open p fl mode w = (case m_names w p of
       Some i \<Rightarrow> m_new_fd i
         (if fl AND O_TRUNC \<noteq> 0 then w\<lparr>m_data := (m_data w)(i \<mapsto> [])\<rparr> else w)
     | None \<Rightarrow>
         if fl AND O_CREAT \<noteq> 0 then
           m_new_fd (m_next_ino w)
             (w\<lparr>m_names := (m_names w)(p \<mapsto> m_next_ino w),
                m_data := (m_data w)(m_next_ino w \<mapsto> []), m_next_ino := Suc (m_next_ino w)\<rparr>)
         else (Inl enoent, w))"

definition m_close :: "int \<Rightarrow> mem \<Rightarrow> mem" where
  "m_close fd w = w\<lparr>m_fds := (m_fds w)(nat fd := None)\<rparr>"

definition m_stat_ino :: "nat \<Rightarrow> mem \<Rightarrow> io_error + stat" where
  "m_stat_ino i w = (case m_data w i of
       None \<Rightarrow> Inl enoent
     | Some c \<Rightarrow> Inr \<lparr>st_ino = of_nat i, st_size = of_nat (length c), st_blocks = 1,
         st_atime = 0, st_atime_nsec = 0, st_mtime = 0, st_mtime_nsec = 0,
         st_ctime = 0, st_ctime_nsec = 0, st_birthtime = 0, st_birthtime_nsec = 0,
         st_mode = 0x81A4, st_nlink = 1, st_uid = 0, st_gid = 0, st_rdev = 0,
         st_blksize = 4096, st_flags = 0\<rparr>)"

definition m_lstat :: "path \<Rightarrow> mem \<Rightarrow> io_error + stat" where
  "m_lstat p w = (case m_names w p of None \<Rightarrow> Inl enoent | Some i \<Rightarrow> m_stat_ino i w)"

definition m_fstat :: "int \<Rightarrow> mem \<Rightarrow> io_error + stat" where
  "m_fstat fd w = (case m_fds w (nat fd) of None \<Rightarrow> Inl enoent | Some i \<Rightarrow> m_stat_ino i w)"

text \<open>A file is read at once when it fits the buffer, byte by byte otherwise.\<close>

definition m_file_open :: "path \<Rightarrow> mem \<Rightarrow> io_error + file_obj" where
  "m_file_open p w = (case m_content p w of
       None \<Rightarrow> Inl enoent
     | Some c \<Rightarrow> Inr (\<lambda>n. if length c \<le> n then [Inr c] else map (\<lambda>b. Inr [b]) c))"

definition m_len :: "path \<Rightarrow> mem \<Rightarrow> io_error + u64" where
  "m_len p w = (case m_content p w of None \<Rightarrow> Inl enoent | Some c \<Rightarrow> Inr (of_nat (length c)))"

definition m_pread :: "int \<Rightarrow> nat \<Rightarrow> i64 \<Rightarrow> mem \<Rightarrow> io_error + bytes" where
  "m_pread fd n off w = (case Option.bind (m_fds w (nat fd)) (m_data w) of
       None \<Rightarrow> Inl enoent
     | Some c \<Rightarrow> Inr (take n (drop (unat off) c)))"

definition overlay :: "bytes \<Rightarrow> nat \<Rightarrow> bytes \<Rightarrow> bytes" where
  "overlay c off d = take off (c @ replicate (off - length c) 0) @ d @ drop (off + length d) c"

definition m_pwrite :: "int \<Rightarrow> bytes \<Rightarrow> i64 \<Rightarrow> mem \<Rightarrow> (io_error + nat) \<times> mem" where
  "m_pwrite fd d off w = (case m_fds w (nat fd) of
       None \<Rightarrow> (Inl enoent, w)
     | Some i \<Rightarrow> (case m_data w i of
         None \<Rightarrow> (Inl enoent, w)
       | Some c \<Rightarrow> (Inr (length d), w\<lparr>m_data := (m_data w)(i \<mapsto> overlay c (unat off) d)\<rparr>)))"

definition m_resize :: "nat \<Rightarrow> nat \<Rightarrow> mem \<Rightarrow> io_error option \<times> mem" where
  "m_resize i n w = (case m_data w i of
       None \<Rightarrow> (Some enoent, w)
     | Some c \<Rightarrow> (None, w\<lparr>m_data := (m_data w)(i \<mapsto> take n (c @ replicate (n - length c) 0))\<rparr>))"

definition m_ftruncate :: "int \<Rightarrow> i64 \<Rightarrow> mem \<Rightarrow> io_error option \<times> mem" where
  "m_ftruncate fd n w = (case m_fds w (nat fd) of
     None \<Rightarrow> (Some enoent, w) | Some i \<Rightarrow> m_resize i (unat n) w)"

definition m_truncate :: "path \<Rightarrow> i64 \<Rightarrow> mem \<Rightarrow> io_error option \<times> mem" where
  "m_truncate p n w = (case m_names w p of
     None \<Rightarrow> (Some enoent, w) | Some i \<Rightarrow> m_resize i (unat n) w)"

definition m_unlink :: "path \<Rightarrow> mem \<Rightarrow> io_error option \<times> mem" where
  "m_unlink p w = (case m_names w p of
     None \<Rightarrow> (Some enoent, w) | Some i \<Rightarrow> (None, w\<lparr>m_names := (m_names w)(p := None)\<rparr>))"

definition m_rename :: "path \<Rightarrow> path \<Rightarrow> mem \<Rightarrow> io_error option \<times> mem" where
  "m_rename p q w = (case m_names w p of
     None \<Rightarrow> (Some enoent, w)
   | Some i \<Rightarrow> (None, w\<lparr>m_names := ((m_names w)(p := None))(q \<mapsto> i)\<rparr>))"

definition m_fs_write :: "path \<Rightarrow> bytes \<Rightarrow> mem \<Rightarrow> io_error option \<times> mem" where
  "m_fs_write p d w = (case m_names w p of
     Some i \<Rightarrow> (None, w\<lparr>m_data := (m_data w)(i \<mapsto> d)\<rparr>)
   | None \<Rightarrow> (None, w\<lparr>m_names := (m_names w)(p \<mapsto> m_next_ino w),
       m_data := (m_data w)(m_next_ino w \<mapsto> d), m_next_ino := Suc (m_next_ino w)\<rparr>))"

definition mem_env :: "(mem, bytes) env" where
  "mem_env = \<lparr>
     sys_getsid = (\<lambda>pid _. pid), sys_getuid = (\<lambda>_. 0), sys_getgid = (\<lambda>_. 0),
     sys_lstat = m_lstat, sys_fstat = m_fstat, sys_access = (\<lambda>_ _ _. None),
     sys_statfs = (\<lambda>_ _. Inl enosys), sys_pread = m_pread,
     std_metadata_len = m_len, std_file_open = m_file_open,
     std_read_dir = (\<lambda>_ _. Inr []), std_read_link = (\<lambda>_ _. Inl enosys),
     std_exists = (\<lambda>p w. m_names w p \<noteq> None),
     utc_now = m_clock, instant_now = (\<lambda>_. 0), system_time_now = m_clock,
     sys_open = m_open, sys_close = m_close, sys_pwrite = m_pwrite,
     sys_ftruncate = m_ftruncate, sys_truncate = m_truncate,
     sys_chmod = (\<lambda>_ _ w. (None, w)), sys_chown = (\<lambda>_ _ _ w. (None, w)),
     sys_utimensat = (\<lambda>_ _ _ w. (None, w)), sys_chflags = (\<lambda>_ _ w. (None, w)),
     sys_mkdir = (\<lambda>_ _ w. (Some enosys, w)), sys_unlink = m_unlink,
     sys_rmdir = (\<lambda>_ w. (Some enosys, w)), sys_rename = m_rename,
     sys_symlink = (\<lambda>_ _ w. (Some enosys, w)), sys_opendir = (\<lambda>_ w. (Inl enosys, w)),
     sys_dirfd = (\<lambda>_ _. 0), sys_dup = (\<lambda>fd w. (fd, w)), sys_closedir = (\<lambda>_ w. w),
     std_fs_write = m_fs_write, std_create_dir_all = (\<lambda>_ w. (None, w)),
     errno_from = (\<lambda>e. case e of OsError n \<Rightarrow> Errno n | InvalidInput _ \<Rightarrow> EINVAL),
     sha_new = [], sha_update = (\<lambda>d s. s @ d), sha_finalize = (\<lambda>s. s),
     xxh3_128 = (\<lambda>_. 0),
     json_status = (\<lambda>n a u sid. ''status''), json_locks = (\<lambda>_. Some ''[]''),
     to_rfc3339 = (\<lambda>_. []), conflict_stamp = (\<lambda>_. ''0'')\<rparr>"

definition mem_cfg :: DibsConfig where
  "mem_cfg = \<lparr>cfg_backing = ''/b'', cfg_mountpoint = ''/m'', cfg_session_id = ''x'',
     cfg_log_file = ''/l'', cfg_eviction_minutes = 60, cfg_save_conflicts = False,
     cfg_readonly_fallback = False, cfg_foreground = True\<rparr>"

text \<open>One file \<open>/b/f\<close> with inode 7 and content \<open>[1, 2, 3]\<close>.\<close>

definition mem0 :: mem where
  "mem0 = \<lparr>m_names = [''/b/f'' \<mapsto> 7], m_data = [7 \<mapsto> [1, 2, 3]], m_fds = Map.empty,
     m_next_ino = 8, m_next_fd = 3, m_clock = 100\<rparr>"

text \<open>The file system right after mounting and the kernel's lookup of \<open>f\<close>.\<close>

definition fs0 :: "DibsFs \<times> mem" where
  "fs0 = snd (fs_lookup mem_env 1 ''f'' (fs_init (fst (DibsFs_new mem_env mem_cfg mem0))) mem0)"

abbreviation mem_run :: "request list \<Rightarrow> DibsFs \<times> mem" where
  "mem_run rs \<equiv> fs_run mem_env (map Request rs) fs0"

lemma mem_streams: "sha_streams mem_env (\<lambda>c. c)"
proof -
  have "fold (\<lambda>d s. s @ d) ps acc = acc @ concat ps" for ps and acc :: bytes
    by (induction ps arbitrary: acc) auto
  then show ?thesis by (simp add: sha_streams_def mem_env_def)
qed

lemma mem_env_sel [simp]:
  "sys_getsid mem_env = (\<lambda>pid _. pid)"
  "sys_getuid mem_env = (\<lambda>_. 0)"
  "sys_getgid mem_env = (\<lambda>_. 0)"
  "sys_lstat mem_env = m_lstat"
  "sys_fstat mem_env = m_fstat"
  "sys_access mem_env = (\<lambda>_ _ _. None)"
  "sys_statfs mem_env = (\<lambda>_ _. Inl enosys)"
  "sys_pread mem_env = m_pread"
  "std_metadata_len mem_env = m_len"
  "std_file_open mem_env = m_file_open"
  "std_read_dir mem_env = (\<lambda>_ _. Inr [])"
  "std_read_link mem_env = (\<lambda>_ _. Inl enosys)"
  "std_exists mem_env = (\<lambda>p w. m_names w p \<noteq> None)"
  "utc_now mem_env = m_clock"
  "instant_now mem_env = (\<lambda>_. 0)"
  "system_time_now mem_env = m_clock"
  "sys_open mem_env = m_open"
  "sys_close mem_env = m_close"
  "sys_pwrite mem_env = m_pwrite"
  "sys_ftruncate mem_env = m_ftruncate"
  "sys_truncate mem_env = m_truncate"
  "sys_chmod mem_env = (\<lambda>_ _ w. (None, w))"
  "sys_chown mem_env = (\<lambda>_ _ _ w. (None, w))"
  "sys_utimensat mem_env = (\<lambda>_ _ _ w. (None, w))"
  "sys_chflags mem_env = (\<lambda>_ _ w. (None, w))"
  "sys_mkdir mem_env = (\<lambda>_ _ w. (Some enosys, w))"
  "sys_unlink mem_env = m_unlink"
  "sys_rmdir mem_env = (\<lambda>_ w. (Some enosys, w))"
  "sys_rename mem_env = m_rename"
  "sys_symlink mem_env = (\<lambda>_ _ w. (Some enosys, w))"
  "sys_opendir mem_env = (\<lambda>_ w. (Inl enosys, w))"
  "sys_dirfd mem_env = (\<lambda>_ _. 0)"
  "sys_dup mem_env = (\<lambda>fd w. (fd, w))"
  "sys_closedir mem_env = (\<lambda>_ w. w)"
  "std_fs_write mem_env = m_fs_write"
  "std_create_dir_all mem_env = (\<lambda>_ w. (None, w))"
  "errno_from mem_env = (\<lambda>e. case e of OsError n \<Rightarrow> Errno n | InvalidInput _ \<Rightarrow> EINVAL)"
  "sha_new mem_env = []"
  "sha_update mem_env = (\<lambda>d s. s @ d)"
  "sha_finalize mem_env = (\<lambda>s. s)"
  "xxh3_128 mem_env = (\<lambda>_. 0)"
  "json_status mem_env = (\<lambda>n a u sid. ''status'')"
  "json_locks mem_env = (\<lambda>_. Some ''[]'')"
  "to_rfc3339 mem_env = (\<lambda>_. [])"
  "conflict_stamp mem_env = (\<lambda>_. ''0'')"
  by (simp_all add: mem_env_def)

lemmas mem_defs = m_content_def m_new_fd_def m_open_def m_close_def m_stat_ino_def m_lstat_def
  m_fstat_def m_file_open_def m_len_def m_pread_def overlay_def m_pwrite_def m_resize_def
  m_ftruncate_def m_truncate_def m_unlink_def m_rename_def m_fs_write_def

lemma fs0_eq: "fs0 = (\<lparr>config = mem_cfg, backing = ''/b'',
    inodes = inode_insert 7 ''f'' (inode_insert 1 [] InodeTable_new),
    file_handles = HandleTable_new, dir_handles = DirHandleTable_new, cas_table = CasTable_new,
    start_time = 0, conflict_dir = None\<rparr>, mem0)"
  by (simp add: fs0_def fs_lookup_def is_dibs_name_def DIBS_DIR_NAME_def DibsFs_new_def fs_init_def
      resolve_path_def join_def is_absolute_def backing_path_def lookup_and_register_def lstat_def
      path_to_cstring_def mem_defs mem0_def mem_cfg_def entry_reply_def synthetic_inos Let_def)

lemmas eval_defs = fs_open_def Let_def synthetic_inos is_dibs_ino_def is_synthetic_def
  backing_path_def join_def is_absolute_def path_to_cstring_def open_flag_defs get_sid_def
  hash_file_def hash_sha256_def HASH_THRESHOLD_def open_read_def open_write_def h_alloc_def
  record_reader_def check_and_acquire_write_def acquire_locked_def cas_check_def ensure_entry_def h_get_def h_remove_def
  inode_lookups HandleTable_new_def CasTable_new_def
  h_modify_def fs_write_def fs_flush_def update_reader_def release_write_def has_active_writer_def

end
