(* ===== verification/Scenarios.thy ===== *)
theory Scenarios
  imports Ownership Namespace Path_Types Bounds Startup Mem_World
begin

text \<open>
  The guarantees of the other theories at work in a concrete world: two processes and one file.
\<close>

section \<open>A reader falls behind\<close>

text \<open>Process 10 reads the file; process 20 opens it for writing, writes, flushes and closes.\<close>

definition other_writes :: "mem event list" where
  "other_writes = map Request [ReqOpen 20 7 1, ReqWrite 7 2 0 [9], ReqFlush 7 2, ReqRelease 2]"

definition after_read :: "DibsFs \<times> mem" where
  "after_read = snd (fs_open mem_env 10 7 0 (fst fs0) (snd fs0))"

definition after_write :: "DibsFs \<times> mem" where
  "after_write = fs_run mem_env other_writes after_read"

lemma after_read_eq: "after_read =
   ((fst fs0)\<lparr>cas_table := record_reader ''f'' [1, 2, 3] 10 100 CasTable_new,
      file_handles := snd (h_alloc 3 ''f'' 0 (Some [1, 2, 3]) 10 HandleTable_new)\<rparr>,
    mem0\<lparr>m_fds := [3 \<mapsto> 7], m_next_fd := 4\<rparr>)"
  by (simp add: after_read_def fs0_eq mem_defs eval_defs mem0_def)

lemma read_opened: "fs_open mem_env 10 7 0 (fst fs0) (snd fs0) = (ReplyOpened 1, after_read)"
  by (simp add: after_read_def fs0_eq mem_defs eval_defs mem0_def)

lemmas evaluate = fs0_eq mem_defs eval_defs mem0_def fs_run_def fs_release_def after_read_eq
  other_writes_def

lemma fs0_inv: "fs_inv (fst fs0)"
  using lookup_inv [OF init_inv [OF new_inv]] by (simp add: fs0_def)

lemma after_read_inv: "fs_inv (fst after_read)"
  using open_inv [OF fs0_inv, of mem_env 10 7 0 "snd fs0"] read_opened
  by (simp add: fs0_eq HandleTable_new_def)

lemma other_writes_issue: "admissible_run (fs_step mem_env) issues_ok after_read other_writes"
  by (simp add: evaluate)

lemma other_writes_keep_view:
  "admissible_run (fs_step mem_env) (\<lambda>sw ev. \<not> touches_view mem_env 10 ''f'' sw ev) after_read other_writes"
  by (simp add: evaluate)

lemma after_write_facts:
  "get_path (inodes (fst after_write)) 7 = Some ''f''"
  "hash_file mem_env (backing_path (fst after_write) ''f'') (snd after_write) = Inr [9, 2, 3]"
  by (simp_all add: after_write_def evaluate)

lemma real_inos: "\<not> is_dibs_ino 7" "\<not> is_dibs_ino 1"
  by (simp add: is_dibs_ino_def is_synthetic_def synthetic_inos) code_simp

lemma after_write_run: "fs_run mem_env other_writes after_read = after_write"
  by (simp add: after_write_def)

theorem stale_writer_rejected_witness:
  "\<exists>e s3 w3. fs_open mem_env 10 7 1 (fst after_write) (snd after_write) = (ReplyError e, s3, w3)
    \<and> seen_by (cas_table s3) = seen_by (cas_table (fst after_write))
    \<and> owner_of (cas_table s3) = owner_of (cas_table (fst after_write))
    \<and> h_get (file_handles s3) = h_get (file_handles (fst after_write))"
proof (rule stale_writer_rejected
    [of "fst fs0" mem_env 10 7 0 "snd fs0" 1 "fst after_read" "snd after_read" "''f''" "[1, 2, 3]"
      other_writes "fst after_write" "snd after_write" 7 10 1 "[9, 2, 3]"])
  show "next_fh (file_handles (fst fs0)) \<noteq> - 1" by (simp add: fs0_eq HandleTable_new_def)
  show "get_path (inodes (fst fs0)) 7 = Some ''f''" by (simp add: fs0_eq inode_lookups)
  show "hash_file mem_env (backing_path (fst fs0) ''f'') (snd after_read) = Inr [1, 2, 3]"
    by (simp add: evaluate)
qed (simp_all add: fs0_inv read_opened other_writes_issue other_writes_keep_view after_write_facts
      real_inos after_write_run open_flag_defs get_sid_def)

section \<open>A writer holds the file\<close>

definition writing :: "DibsFs \<times> mem" where
  "writing = mem_run [ReqOpen 10 7 1]"

lemma writing_eq: "writing =
   ((fst fs0)\<lparr>file_handles := snd (h_alloc 3 ''f'' 1 None 10 HandleTable_new),
      cas_table := snd (check_and_acquire_write ''f'' 1 10
        (snd (h_alloc 3 ''f'' 1 None 10 HandleTable_new)) [1, 2, 3] 100 CasTable_new)\<rparr>,
    mem0\<lparr>m_fds := [3 \<mapsto> 7], m_next_fd := 4\<rparr>)"
  by (simp add: writing_def evaluate)

lemma writing_inv: "fs_inv (fst writing)"
  using open_inv [OF fs0_inv, of mem_env 10 7 1 "snd fs0"]
  by (simp add: writing_def fs_run_def fs0_eq HandleTable_new_def)

lemma writing_owner: "owner_of (cas_table (fst writing)) ''f'' = Some 1"
  by (simp add: writing_eq occ_of_sel evaluate)

theorem write_ownership_exclusive_witness:
  "let s2 = fst (mem_run [ReqOpen 10 7 1, ReqWrite 7 1 0 [9]]);
       w2 = snd (mem_run [ReqOpen 10 7 1, ReqWrite 7 1 0 [9]])
   in owner_of (cas_table s2) ''f'' = Some 1 \<and>
    (\<exists>e s3 w3. fs_open mem_env 20 7 2 s2 w2 = (ReplyError e, s3, w3)
      \<and> seen_by (cas_table s3) = seen_by (cas_table s2)
      \<and> owner_of (cas_table s3) = owner_of (cas_table s2)
      \<and> h_get (file_handles s3) = h_get (file_handles s2))"
  unfolding Let_def
proof (rule write_ownership_exclusive
    [of "fst writing" "''f''" 1 mem_env "snd writing" "[Request (ReqWrite 7 1 0 [9])]" _ _ 7 2 "[9, 2, 3]",
      OF writing_inv writing_owner])
  show "fs_run mem_env [Request (ReqWrite 7 1 0 [9])] (fst writing, snd writing) =
      (fst (mem_run [ReqOpen 10 7 1, ReqWrite 7 1 0 [9]]), snd (mem_run [ReqOpen 10 7 1, ReqWrite 7 1 0 [9]]))"
    by (simp add: writing_def fs_run_def)
qed (simp_all add: real_inos writing_eq evaluate)

theorem current_view_open_granted_witness:
  "\<exists>s' h. fs_open mem_env 10 7 1 (fst after_read) (snd after_read) =
      (ReplyOpened (next_fh (file_handles (fst after_read))), s', (snd after_read)\<lparr>m_fds := [3 \<mapsto> 7, 4 \<mapsto> 7], m_next_fd := 5\<rparr>)
    \<and> owner_of (cas_table s') ''f'' = Some (next_fh (file_handles (fst after_read)))
    \<and> h_get (file_handles s') (next_fh (file_handles (fst after_read))) = Some h
    \<and> h_path h = ''f'' \<and> h_sid h = get_sid mem_env 10 (snd after_read) \<and> h_real_fd h = int 4"
  by (rule current_view_open_granted [where actual = "[1, 2, 3]", OF after_read_inv real_inos(1)])
     (simp_all add: evaluate occ_of_sel)

section \<open>A writer publishes\<close>

definition written :: "DibsFs \<times> mem" where
  "written = mem_run [ReqOpen 10 7 1, ReqWrite 7 1 0 [9]]"

lemma written_facts:
  "h_get (file_handles (fst written)) 1 = Some \<lparr>h_fh = 1, h_real_fd = 3, h_path = ''f'',
     hash_at_open = None, h_flags = 1, has_written = True, h_sid = 10\<rparr>"
  "hash_file mem_env (backing_path (fst written) ''f'') (snd written) = Inr [9, 2, 3]"
  "owner_of (cas_table (fst written)) ''f'' = Some 1"
  by (simp_all add: written_def evaluate occ_of_sel)

theorem flush_publishes_witness:
  "\<exists>s'. fs_flush mem_env 7 1 (fst written) (snd written) = (ReplyOk, s', snd written)
    \<and> seen_by (cas_table s') = (seen_by (cas_table (fst written)))((10, ''f'') \<mapsto> [9, 2, 3])
    \<and> owner_of (cas_table s') ''f'' = None \<and> open_admitted ''f'' O_WRONLY 10 [9, 2, 3] (occ_of (cas_table s'))"
  using flush_publishes [OF real_inos(1) written_facts(1), of mem_env "snd written" "[9, 2, 3]" O_WRONLY]
    written_facts(2,3) by auto

section \<open>A stale session deletes and renames\<close>

lemma after_write_resolve:
  "resolve_path (fst after_write) 1 ''f'' = (''f'', ''/b/f'')"
  "resolve_path (fst after_write) 1 ''g'' = (''g'', ''/b/g'')"
  by (simp_all add: after_write_def evaluate resolve_path_def)

lemma after_write_view:
  "seen_by (cas_table (fst after_write)) (get_sid mem_env 10 (snd after_write), ''f'') = Some [1, 2, 3]"
  "hash_file mem_env ''/b/f'' (snd after_write) = Inr [9, 2, 3]"
  by (simp_all add: after_write_def evaluate occ_of_sel)

theorem stale_session_cannot_remove_witness:
  "fs_unlink mem_env 10 1 ''f'' (fst after_write) (snd after_write) =
      (ReplyError EIO, fst after_write, snd after_write)
    \<and> fs_rename mem_env 10 1 ''f'' 1 ''g'' (fst after_write) (snd after_write) =
      (ReplyError EIO, fst after_write, snd after_write)"
proof -
  have "next_fh (file_handles (fst fs0)) \<noteq> - 1" "get_path (inodes (fst fs0)) 7 = Some ''f''"
    "hash_file mem_env (backing_path (fst fs0) ''f'') (snd after_read) = Inr [1, 2, 3]"
    by (simp_all add: HandleTable_new_def evaluate)
  moreover have "fs_run mem_env other_writes (fst after_read, snd after_read) = (fst after_write, snd after_write)"
    by (simp add: after_write_def)
  ultimately show ?thesis
    using stale_session_cannot_remove [of "fst fs0" mem_env 10 7 0 "snd fs0" 1 "fst after_read"
        "snd after_read" "''f''" "[1, 2, 3]" other_writes "fst after_write" "snd after_write" 1 1 "''f''"
        "''/b/f''" 10 "[9, 2, 3]" "''g''"]
      fs0_inv read_opened other_writes_issue other_writes_keep_view real_inos after_write_resolve
      after_write_view
    by (simp add: open_flag_defs get_sid_def)
qed

section \<open>Ownership\<close>

theorem owners_are_open_handles_witness:
  "let s = fst (fs_run mem_env (map Request
      [ReqLookup 1 ''f'', ReqOpen 10 7 1, ReqWrite 7 1 0 [9], ReqFlush 7 1, ReqRelease 1])
      (mounted mem_env mem_cfg mem0))
   in (\<forall>p. case owner_of (cas_table s) p of None \<Rightarrow> True
      | Some k \<Rightarrow> \<exists>h. h_get (file_handles s) k = Some h \<and> h_path h = p)
    \<and> active_writers (cas_table s) \<le> h_count (file_handles s)"
  unfolding Let_def
proof (rule owners_are_open_handles [OF _ surjective_pairing])
  have "snd (fs_lookup mem_env 1 ''f'' (fst (mounted mem_env mem_cfg mem0))
      (snd (mounted mem_env mem_cfg mem0))) = fs0"
    by (simp add: mounted_def fs0_def DibsFs_new_def mem_cfg_def Let_def)
  then show "admissible_run (fs_step mem_env) (\<lambda>sw ev. issues_ok sw ev \<and> path_stable sw ev)
      (mounted mem_env mem_cfg mem0) (map Request
      [ReqLookup 1 ''f'', ReqOpen 10 7 1, ReqWrite 7 1 0 [9], ReqFlush 7 1, ReqRelease 1])"
    by (cases "mounted mem_env mem_cfg mem0") (simp add: evaluate)
qed

lemma writing_handle: "h_get (file_handles (fst writing)) 1 = Some \<lparr>h_fh = 1, h_real_fd = 3,
    h_path = ''f'', hash_at_open = None, h_flags = 1, has_written = False, h_sid = 10\<rparr>"
  by (simp add: writing_eq handle_lookups HandleTable_new_def)

text \<open>Process 20 opened the file for writing and flushed nothing; the content changed behind its
  handle's back before its first write, and the write is refused.\<close>

definition behind :: "DibsFs \<times> mem" where
  "behind = mem_run [ReqOpen 10 7 2, ReqWrite 7 1 0 [9], ReqFlush 7 1, ReqOpen 20 7 1,
     ReqWrite 7 2 0 [8], ReqFlush 7 2]"

theorem write_gate_witness:
  "(\<exists>s'. fs_write mem_env 7 1 0 [9] (fst writing) (snd writing) =
      (ReplyWritten 1, s', (snd writing)\<lparr>m_data := [7 \<mapsto> [9, 2, 3]]\<rparr>)
    \<and> owner_of (cas_table s') ''f'' = Some 1)
  \<and> (\<exists>s'. fs_write mem_env 7 1 0 [7] (fst behind) (snd behind) = (ReplyError EIO, s', snd behind))"
proof
  have "sys_pwrite mem_env 3 [9] 0 (snd writing) =
      (Inr 1, (snd writing)\<lparr>m_data := [7 \<mapsto> [9, 2, 3]]\<rparr>)"
    by (simp add: writing_eq evaluate)
  with write_gate [OF real_inos(1) writing_handle, of mem_env "[9]" 0 "snd writing"]
  show "\<exists>s'. fs_write mem_env 7 1 0 [9] (fst writing) (snd writing) =
      (ReplyWritten 1, s', (snd writing)\<lparr>m_data := [7 \<mapsto> [9, 2, 3]]\<rparr>)
    \<and> owner_of (cas_table s') ''f'' = Some 1"
    by (auto simp: write_admitted_def writing_owner)
next
  have h: "h_get (file_handles (fst behind)) 1 = Some \<lparr>h_fh = 1, h_real_fd = 3, h_path = ''f'',
      hash_at_open = Some [9, 2, 3], h_flags = 2, has_written = False, h_sid = 10\<rparr>"
    by (simp add: behind_def evaluate)
  have f: "hash_file mem_env (backing_path (fst behind) ''f'') (snd behind) = Inr [8, 2, 3]"
    "owner_of (cas_table (fst behind)) ''f'' = None" "conflict_dir (fst behind) = None"
    by (simp_all add: behind_def evaluate occ_of_sel)
  show "\<exists>s'. fs_write mem_env 7 1 0 [7] (fst behind) (snd behind) = (ReplyError EIO, s', snd behind)"
    using write_gate [OF real_inos(1) h, of mem_env "[7]" 0 "snd behind"] h f
    by (cases "sys_pwrite mem_env 3 [7] 0 (snd behind)") (auto simp: write_admitted_def expected_def save_conflict_def)
qed

section \<open>Hashing\<close>

lemma read_all_single: "read_all (map (\<lambda>b. Inr [b]) c) = Inr c"
  by (induction c) auto

lemma mem_file_reads:
  assumes "0 < n"
  shows "read_all (if length c \<le> n then [Inr c] else map (\<lambda>b. Inr [b]) c) = Inr c"
  by (simp add: read_all_single)

lemma mem_holds_content:
  assumes "m_content p w = Some c" and "length c < 2 ^ 63"
    and "std_metadata_len os = m_len" and "std_file_open os = m_file_open"
  shows "holds_content os p w c"
  using assms by (auto simp: holds_content_def m_len_def m_file_open_def mem_file_reads)

abbreviation big_file :: mem where
  "big_file \<equiv> mem0\<lparr>m_data := [7 \<mapsto> replicate 10485761 0]\<rparr>"

theorem hash_depends_on_content_witness:
  "hash_file mem_env ''/b/f'' mem0 = Inr [1, 2, 3]"
  using hash_depends_on_content [OF mem_streams, of "''/b/f''" mem0 "[1, 2, 3]"]
    mem_holds_content [of "''/b/f''" mem0 "[1, 2, 3]" mem_env]
  by (simp add: mem0_def m_content_def)

section \<open>The name space\<close>

text \<open>The world with a readable root directory.\<close>

definition listed_names :: "(io_error + string) list" where
  "listed_names = [Inr ''f'', Inr ''.dibs-conflicts'']"

definition listed_env :: "(mem, bytes) env" where
  "listed_env = mem_env\<lparr>std_read_dir := \<lambda>_ _. Inr listed_names\<rparr>"

lemma fs0_backing: "backing (fst fs0) = ''/b''" "get_path (inodes (fst fs0)) 7 = Some ''f''"
  "cas_table (fst fs0) = CasTable_new" "snd fs0 = mem0"
  by (simp_all add: fs0_eq inode_lookups)

lemma listed_entries:
  "List.map_filter (dir_entry listed_env (backing (fst fs0)) [] (snd fs0))
     listed_names = [(7, RegularFile, ''f'')]"
  by (simp add: map_filter_simps dir_entry_def listed_env_def listed_names_def to_string_lossy_ascii_Cons fs0_eq lstat_def
      join_def is_absolute_def path_to_cstring_def mem_defs mem0_def mode_to_filetype_def mode_defs)

lemma listed_dir: "std_read_dir listed_env p w = Inr listed_names"
  by (simp add: listed_env_def)

theorem resolve_stays_below_witness:
  "components (snd (resolve_path (fst fs0) 7 ''g'')) = [RootDir, Normal ''b'', Normal ''f'', Normal ''g'']"
  using resolve_stays_below [of 7 "[''f'']" "fst fs0" "''g''"] fs0_backing
  by (simp add: valid_name_def components_def is_absolute_def to_component_def)

theorem lookup_then_getattr_witness:
  "\<exists>attr. fs_getattr mem_env 7 (fst fs0) (snd fs0) = (ReplyAttr attr, fst fs0, snd fs0)"
proof -
  let ?s = "fs_init (fst (DibsFs_new mem_env mem_cfg mem0))"
  obtain attr where lk: "fs_lookup mem_env 1 ''f'' ?s mem0 = (ReplyEntry attr, fst fs0, snd fs0)"
      and ino: "fa_ino attr = 7"
    by (simp add: fs0_def fs_lookup_def is_dibs_name_def DIBS_DIR_NAME_def DibsFs_new_def fs_init_def
        resolve_path_def join_def is_absolute_def backing_path_def lookup_and_register_def lstat_def
        path_to_cstring_def mem_defs mem0_def mem_cfg_def entry_reply_def synthetic_inos Let_def)
  have "fst (resolve_path ?s 1 ''f'') \<noteq> []"
    by (simp add: resolve_path_def join_def is_absolute_def Let_def)
  from lookup_then_getattr [OF lk real_inos(2) _ this] ino real_inos show ?thesis
    by (auto simp: is_dibs_name_def DIBS_DIR_NAME_def)
qed

text \<open>A directory \<open>f\<close> with one entry \<open>x\<close>.\<close>

definition nested :: mem where
  "nested = mem0\<lparr>m_names := [''/b/f'' \<mapsto> 7, ''/b/f/x'' \<mapsto> 9], m_data := [7 \<mapsto> [], 9 \<mapsto> []]\<rparr>"

definition nested_env :: "(mem, bytes) env" where
  "nested_env = mem_env\<lparr>std_read_dir := \<lambda>_ _. Inr [Inr ''x'']\<rparr>"

lemma inodes_new: "get_path InodeTable_new i = None" "get_ino InodeTable_new p = None"
  by (simp_all add: InodeTable_new_def get_path_def get_ino_def)

lemma nested_entries:
  "List.map_filter (dir_entry nested_env (backing (fst fs0)) ''f'' nested) [Inr ''x''] = [(9, RegularFile, ''x'')]"
  by (simp add: map_filter_simps dir_entry_def nested_env_def nested_def to_string_lossy_ascii_Cons fs0_eq lstat_def
      join_def is_absolute_def path_to_cstring_def mem_defs mem0_def mode_to_filetype_def mode_defs)

lemma fs0_typed: "well_typed (fst fs0)"
proof -
  have "well_typed (fst (mounted mem_env mem_cfg mem0))"
    by (rule mounted_typed) (simp add: mem_cfg_def)
  then show ?thesis
    using lookup_typed [of "fst (mounted mem_env mem_cfg mem0)" "''f''" mem_env 1 mem0]
    by (simp add: fs0_def mounted_def split_beta valid_name_def)
qed

theorem readdir_pages_complete_witness:
  "map de_name (read_pages nested_env (\<lambda>acc e. acc \<noteq> []) 7 4 0 (fst fs0, nested)) = [''.'', ''..'', ''x'']"
proof -
  let ?l = "[(7 :: u64, Directory, ''.''), (1, Directory, ''..''), (9, RegularFile, ''x'')]"
  have parent: "parent_ino_of (fst fs0) 7 ''f'' = 1"
    by (simp add: parent_ino_of_def parent_def components_def is_absolute_def to_component_def
        from_components_def Let_def)
  have "read_pages nested_env (\<lambda>acc e. acc \<noteq> []) 7 (Suc (length ?l)) 0 (fst fs0, nested) = numbered ?l"
  proof (rule readdir_pages_complete [OF fs0_inv fs0_typed _ _ real_inos(1), where rel = "''f''"
        and es = "[Inr ''x'']" and found = "[(9, RegularFile, ''x'')]"])
    show "listings_typed nested_env"
      by (simp add: listings_typed_def nested_env_def valid_name_def)
    show "dir_undisturbed 7 ''f'' [(9, RegularFile, ''x'')] (fst fs0)"
      by (simp add: dir_undisturbed_def fs0_eq inode_lookups inodes_new)
    show "[(9, RegularFile, ''x'')] =
        List.map_filter (dir_entry nested_env (backing (fst fs0)) ''f'' nested) [Inr ''x'']"
      by (simp only: nested_entries)
  qed (simp_all add: parent nested_env_def)
  then show ?thesis by (simp add: numbered_def upt_rec numeral_eq_Suc del: read_pages.simps)
qed

text \<open>The text of the virtual files made visible.\<close>

definition shown_env :: "(mem, bytes) env" where
  "shown_env = mem_env\<lparr>json_status := \<lambda>n a u sid. show_nat n @ '' '' @ show_nat a,
     json_locks := \<lambda>infos. Some (concat (map fi_path infos))\<rparr>"

lemma writing_tracked: "tracked_in (cas_table (fst writing)) = {''f''}"
  by (simp add: writing_eq acquire_occ occ_acquire_def occ_track_def occ_new fs0_eq)

lemma writing_single:
  assumes "distinct ps" and "set ps = tracked_in (cas_table (fst writing))"
  shows "ps = [''f'']"
  using assms unfolding writing_tracked by (cases ps; cases "tl ps") auto

lemma writing_owners: "dom (owner_of (cas_table (fst writing))) = {''f''}"
  by (auto simp: writing_eq acquire_occ occ_acquire_def occ_track_def occ_new fs0_eq admits_def expected_def
      handle_lookups HandleTable_new_def split: if_splits)

theorem status_files_exact_witness:
  "fs_read shown_env DIBS_STATUS_INO 1 0 100 (fst writing) (snd writing) =
      (ReplyData (bytes_of ''1 1''), fst writing, snd writing)
    \<and> fs_read shown_env DIBS_LOCKS_INO 1 0 100 (fst writing) (snd writing) =
      (ReplyData (bytes_of ''f''), fst writing, snd writing)"
proof -
  let ?s = "fst writing" and ?w = "snd writing"
  have one: "show_nat (Suc 0) = ''1''" by (simp add: show_nat.simps) code_simp
  have "cas_len (cas_table ?s) = 1" "active_writers (cas_table ?s) = 1"
    by (simp_all add: cas_len_tracked writing_tracked active_writers_owned writing_owners)
  then have status: "length (status_json shown_env ?s ?w) \<le> unat (100 :: u32)"
    by (simp add: status_json_def shown_env_def one)
  obtain ps where "distinct ps" "set ps = tracked_in (cas_table ?s)"
    and infos: "map (\<lambda>e. (fi_path e, fi_write_owner e)) (all_entries (to_rfc3339 shown_env) (cas_table ?s)) =
      map (\<lambda>p. (to_string_lossy p, owner_of (cas_table ?s) p)) ps"
    by (rule all_entries_listing)
  then have "ps = [''f'']" by (intro writing_single)
  with infos have locks: "length (locks_json shown_env ?s) \<le> unat (100 :: u32)"
    by (auto simp: locks_json_def shown_env_def to_string_lossy_ascii_Cons)
  show ?thesis
    using status_files_exact [OF status locks, of 1] writing_owner
    by (auto simp: shown_env_def one to_string_lossy_ascii_Cons dest!: writing_single)
qed

theorem virtual_read_whole_witness:
  "concat (map (\<lambda>i. reply_bytes (fst (fs_read mem_env DIBS_LOCKS_INO 1 (of_nat (i * 1)) (of_nat 1)
     (fst fs0) (snd fs0)))) [0 ..< 2]) = bytes_of (locks_json mem_env (fst fs0))"
  by (rule virtual_read_whole) (simp_all add: locks_json_def)

theorem reachable_invariant_witness:
  "inodes_consistent (inodes (fst (fs_run mem_env [Request (ReqLookup 1 ''f'')] (mounted mem_env mem_cfg mem0))))"
  using reachable_invariant [of mem_env mem_cfg mem0 "[Request (ReqLookup 1 ''f'')]", OF _ surjective_pairing]
  by (cases "mounted mem_env mem_cfg mem0") simp

section \<open>Bounds and types\<close>

theorem byte_counts_bounded_witness:
  "\<exists>b s' w'. fs_read mem_env 7 1 1 1 (fst writing) (snd writing) = (ReplyData b, s', w') \<and> length b \<le> 1"
proof -
  have bounded: "io_calls_bounded mem_env"
    unfolding io_calls_bounded_def mem_env_sel
    by (auto simp: m_pread_def m_pwrite_def split: option.splits)
  have "\<exists>b. fs_read mem_env 7 1 1 1 (fst writing) (snd writing) = (ReplyData b, fst writing, snd writing)"
    using not_dibs_ino [OF real_inos(1)] writing_handle
    by (simp add: fs_read_def) (simp add: writing_eq evaluate)
  then show ?thesis
    using byte_counts_bounded [OF bounded, of "[]" 7 1 1 1 "fst writing" "snd writing"] by auto
qed

lemma listed_lookup:
  "get_path (inodes (fst (fs_run listed_env [Request (ReqLookup 1 ''f'')] (mounted listed_env mem_cfg mem0)))) 7
     = Some ''f''"
  by (simp add: fs_run_def mounted_def listed_env_def fs_lookup_def is_dibs_name_def DIBS_DIR_NAME_def
      DibsFs_new_def fs_init_def resolve_path_def join_def is_absolute_def backing_path_def
      lookup_and_register_def lstat_def path_to_cstring_def mem_defs mem0_def mem_cfg_def
      entry_reply_def synthetic_inos inode_lookups Let_def)

lemma listed_errors: "errors_documented listed_env"
proof -
  have "errno_documented listed_env" by (simp add: errno_documented_def listed_env_def)
  moreover have "observing_calls_documented listed_env"
    by (auto simp: observing_calls_documented_def listed_env_def m_lstat_def m_stat_ino_def m_fstat_def
        m_pread_def split: option.splits)
  moreover have "changing_calls_documented listed_env"
    by (auto simp: changing_calls_documented_def listed_env_def m_open_def m_new_fd_def m_pwrite_def m_ftruncate_def
        m_truncate_def m_resize_def m_unlink_def m_rename_def split: option.splits if_splits)
  ultimately show ?thesis by (simp add: errors_documented_def)
qed

theorem paths_type_sound_witness:
  "let (s, w) = fs_run listed_env [Request (ReqLookup 1 ''f'')] (mounted listed_env mem_cfg mem0)
   in ''f'' \<in> held_paths s \<and> plain ''f'' \<and> path_to_cstring (backing_path s ''f'') = Inr (backing_path s ''f'')
     \<and> fst (handle listed_env (ReqUnlink 10 1 ''g'') s w) \<noteq> ReplyError EINVAL"
proof -
  obtain s w where run: "fs_run listed_env [Request (ReqLookup 1 ''f'')] (mounted listed_env mem_cfg mem0) = (s, w)"
    by force
  have "listings_typed listed_env"
    by (simp add: listings_typed_def listed_env_def listed_names_def valid_name_def)
  moreover have "CHR 0x00 \<notin> set (cfg_backing mem_cfg)" by (simp add: mem_cfg_def)
  moreover have "list_all event_typed [Request (ReqLookup 1 ''f'') :: mem event]"
    by (simp add: valid_name_def)
  moreover have "request_typed (ReqUnlink 10 1 ''g'')" by (simp add: valid_name_def)
  moreover have "''f'' \<in> held_paths s"
    using listed_lookup run by (auto simp: held_paths_def ran_def)
  ultimately show ?thesis
    using paths_type_sound [OF _ _ _ run, of "ReqUnlink 10 1 ''g''"] listed_errors run by auto
qed

section \<open>The program\<close>

text \<open>A start whose first mount fails for lack of permission and whose retry succeeds.\<close>

definition no_options :: MountOptions where
  "no_options = \<lparr>opt_session_id = None, opt_log_file = None, opt_eviction_minutes = None,
     opt_save_conflicts = False, opt_readonly_fallback = False, opt_foreground = True\<rparr>"

definition retry_startup :: "mem startup" where
  "retry_startup = \<lparr>su_backing = Inr ''/b'', su_is_dir = True, su_exists = True, su_create = None,
     su_mountpoint = Inr ''/m'', su_mount_list = Inl (), su_readable = True, su_pid = 42,
     su_spawn = (\<lambda>acl w. (if acl = AclAll then Inl (Some 1, ''no'') else Inr (), w))\<rparr>"

abbreviation retry_start :: "start_error + mem started" where
  "retry_start \<equiv> main_mount mem_env (mount_args ''b'' ''m'' no_options) retry_startup mem0"

lemma retry_starts: "\<exists>st. retry_start = Inr st \<and> sd_acl st = AclOwner \<and> sd_world st = mem0
    \<and> sd_cas_arc st \<noteq> sd_session st \<and> cfg_backing (sd_config st) = ''/b'' \<and> \<not> cfg_save_conflicts (sd_config st)"
  by (simp add: main_mount_def retry_startup_def is_stale_fuse_mount_def spawn_session_def new_dibsfs_def
      spawn_mount2_def may_retry_def EPERM_def DibsFs_new_def mount_config_def mount_args_def no_options_def Let_def)

text \<open>Process 10 looks the file up and reads it; an hour and a half later the eviction thread has made
  a pass.\<close>

definition idle_events :: "mem prog_event list" where
  "idle_events = [Serve (ReqLookup 1 ''f''), Serve (ReqOpen 10 7 0), Outside (mem0\<lparr>m_clock := 6000\<rparr>)]
     @ replicate 62 ThreadLoad"

lemma idle_served: "concat (map served_event idle_events) =
    [Request (ReqLookup 1 ''f''), Request (ReqOpen 10 7 0), External (mem0\<lparr>m_clock := 6000\<rparr>)]"
  by (simp add: idle_events_def map_replicate_const)

lemma reader_state:
  assumes "cfg_backing cfg = ''/b''" and "\<not> cfg_save_conflicts cfg"
  shows "file_handles (fst (fs_run mem_env [External mem0, Request (ReqLookup 1 ''f''), Request (ReqOpen 10 7 0),
      External w] (mounted mem_env cfg w1))) = snd (h_alloc 3 ''f'' 0 (Some [1, 2, 3]) 10 HandleTable_new)"
    and "cas_table (fst (fs_run mem_env [External mem0, Request (ReqLookup 1 ''f''), Request (ReqOpen 10 7 0),
      External w] (mounted mem_env cfg w1))) = record_reader ''f'' [1, 2, 3] 10 100 CasTable_new"
  using assms
  by (simp_all add: fs_run_def mounted_def DibsFs_new_def fs_init_def fs_lookup_def is_dibs_name_def
      DIBS_DIR_NAME_def resolve_path_def lookup_and_register_def lstat_def entry_reply_def mem_defs eval_defs
      mem0_def)

theorem start_checked_witness:
  "\<exists>st. retry_start = Inr st \<and> cfg_session_id (sd_config st) = ''dibs-42'' \<and> cfg_foreground (sd_config st)
    \<and> h_count (watched_handles (prog_run mem_env (\<lambda>d. Some (int d)) (\<lambda>now d. Some (now - d)) idle_events st)) = 1"
proof -
  obtain st where st: "retry_start = Inr st" "sd_world st = mem0" "sd_cas_arc st \<noteq> sd_session st"
    and cfg: "cfg_backing (sd_config st) = ''/b''" "\<not> cfg_save_conflicts (sd_config st)"
    using retry_starts by blast
  let ?st = "prog_run mem_env (\<lambda>d. Some (int d)) (\<lambda>now d. Some (now - d)) idle_events st"
  note start = start_checked [OF st(1) refl, of "\<lambda>d. Some (int d)" "\<lambda>now d. Some (now - d)" idle_events]
  have "session_events mem_env (\<lambda>d. Some (int d)) (\<lambda>now d. Some (now - d)) st idle_events =
      [Request (ReqLookup 1 ''f''), Request (ReqOpen 10 7 0), External (mem0\<lparr>m_clock := 6000\<rparr>)]"
    by (simp add: session_events_unevicted [OF st(3)] idle_served)
  then obtain w1 where "(session_fs ?st, sd_world ?st) = fs_run mem_env [External mem0, Request (ReqLookup 1 ''f''),
      Request (ReqOpen 10 7 0), External (mem0\<lparr>m_clock := 6000\<rparr>)] (mounted mem_env (sd_config st) w1)"
    and "watched_handles ?st = file_handles (session_fs ?st)"
    using start st(2) by auto
  then have "watched_handles ?st = snd (h_alloc 3 ''f'' 0 (Some [1, 2, 3]) 10 HandleTable_new)"
    using reader_state(1) [OF cfg] by (metis fst_conv)
  then have "h_count (watched_handles ?st) = 1"
    by (simp add: h_count_def dm_len_card h_alloc_def HandleTable_new_def dm_get_insert dom_def)
  moreover have "cfg_session_id (sd_config st) = default_session_id 42" "cfg_foreground (sd_config st)"
    using start by (auto simp: retry_startup_def no_options_def)
  moreover have "default_session_id 42 = ''dibs-42''"
    by (simp add: default_session_id_def show_nat.simps) code_simp
  ultimately show ?thesis using st(1) by auto
qed

theorem retry_leaves_eviction_behind_witness:
  "\<exists>st. retry_start = Inr st
    \<and> seen_by (cas_table (session_fs (prog_run mem_env (\<lambda>d. Some (int d)) (\<lambda>now d. Some (now - d)) idle_events st)))
        (10, ''f'') = Some [1, 2, 3]"
proof -
  obtain st where st: "retry_start = Inr st" "sd_acl st = AclOwner" "sd_world st = mem0"
    and cfg: "cfg_backing (sd_config st) = ''/b''" "\<not> cfg_save_conflicts (sd_config st)"
    using retry_starts by blast
  obtain w1 where "(session_fs (prog_run mem_env (\<lambda>d. Some (int d)) (\<lambda>now d. Some (now - d)) idle_events st),
      sd_world (prog_run mem_env (\<lambda>d. Some (int d)) (\<lambda>now d. Some (now - d)) idle_events st)) =
      fs_run mem_env (External mem0 # concat (map served_event idle_events)) (mounted mem_env (sd_config st) w1)"
    using retry_leaves_eviction_behind [OF st(1) refl, of "\<lambda>d. Some (int d)" "\<lambda>now d. Some (now - d)" idle_events]
      st(2,3) by auto
  then have "cas_table (session_fs (prog_run mem_env (\<lambda>d. Some (int d)) (\<lambda>now d. Some (now - d)) idle_events st)) =
      record_reader ''f'' [1, 2, 3] 10 100 CasTable_new"
    using reader_state(2) [OF cfg] by (simp add: idle_served) (metis fst_conv)
  then show ?thesis using st(1) by (auto simp: cas_occ)
qed

abbreviation rd :: "nat \<Rightarrow> bool \<Rightarrow> round" where
  "rd n intr \<equiv> \<lparr>rd_arrivals = n, rd_interrupted = intr, rd_finished = False, rd_umount = False,
     rd_handles = HandleTable_new\<rparr>"

theorem two_signals_end_program_witness:
  "\<exists>st. main_program mem_env (\<lambda>d. Some (int d)) (\<lambda>now d. Some (now - d))
     (Mount (mount_args ''b'' ''m'' no_options)) retry_startup mem0 4
     ([(idle_events, rd 2 True)] @ [([], rd 0 False), ([], rd 0 False)] @ []) True
     (Inl (), Inl (), Inl (), Inl ()) = Ended st [StopEviction, UmountAndJoin]"
proof -
  obtain st where st: "retry_start = Inr st" using retry_starts by blast
  then show ?thesis
    using two_signals_end_program [OF st, of 4 "[(idle_events, rd 2 True)]" "[([], rd 0 False), ([], rd 0 False)]"
        "\<lambda>d. Some (int d)" "\<lambda>now d. Some (now - d)" "[]" True] by simp
qed

end
