(* ===== verification/Limits.thy ===== *)
theory Limits
  imports Scenarios
begin

text \<open>
  Where the protection ends: requests that reach the backing files without a comparison, or whose
  refusal comes too late. Each is proved in general and then run in the concrete world.
\<close>

section \<open>A refused open has already been carried out\<close>

text \<open>
  C32: An open for writing that is refused has called \<open>open(2)\<close> with the caller's flags before the
  check, and only closes the descriptor again. With \<open>O_TRUNC\<close> the content is gone although the
  caller is told \<open>EIO\<close>.
\<close>

theorem refused_open_already_opened:
  assumes "fs_inv s" and "\<not> is_dibs_ino i" and "get_path (inodes s) i = Some p"
    and "CHR 0x00 \<notin> set (backing_path s p)" and "fl AND O_ACCMODE \<noteq> O_RDONLY"
    and "sys_open os (backing_path s p) fl None w = (Inr fd, w1)"
    and "hash_file os (backing_path s p) w = Inr actual"
    and "\<not> open_admitted p (fl AND O_ACCMODE) (get_sid os pid w) actual (occ_of (cas_table s))"
  shows "\<exists>s'. fs_open os pid i fl s w = (ReplyError EIO, s', sys_close os (int fd) w1)"
  using fs_open_write_eq [OF assms(2-6), of pid] open_write_rejected [OF assms(1,8), of os "int fd" fl w1]
    assms(7) by auto

lemma after_write_inv: "fs_inv (fst after_write)"
  using fs_machine.run_invar [OF after_read_inv other_writes_issue]
  by (simp add: after_write_def fs_run_def)

theorem refused_open_already_opened_witness:
  "m_content ''/b/f'' (snd after_write) = Some [9, 2, 3] \<and>
   (\<exists>s' w'. fs_open mem_env 10 7 (O_WRONLY OR O_TRUNC) (fst after_write) (snd after_write) =
      (ReplyError EIO, s', w') \<and> m_content ''/b/f'' w' = Some [])"
proof
  show "m_content ''/b/f'' (snd after_write) = Some [9, 2, 3]"
    by (simp add: after_write_def evaluate)
  have path: "backing_path (fst after_write) ''f'' = ''/b/f''"
    by (simp add: after_write_def evaluate)
  have opened: "sys_open mem_env ''/b/f'' (O_WRONLY OR O_TRUNC) None (snd after_write) =
      (Inr 5, snd (m_open ''/b/f'' (O_WRONLY OR O_TRUNC) None (snd after_write)))"
    by (simp add: after_write_def evaluate)
  have "\<not> open_admitted ''f'' ((O_WRONLY OR O_TRUNC) AND O_ACCMODE) (get_sid mem_env 10 (snd after_write))
      [9, 2, 3] (occ_of (cas_table (fst after_write)))"
    using after_write_view by (simp add: open_admitted_def open_flag_defs)
  with refused_open_already_opened [OF after_write_inv real_inos(1) after_write_facts(1),
      of "O_WRONLY OR O_TRUNC" mem_env "snd after_write" 5 _ "[9, 2, 3]" 10] opened
  have "\<exists>s'. fs_open mem_env 10 7 (O_WRONLY OR O_TRUNC) (fst after_write) (snd after_write) =
      (ReplyError EIO, s', m_close 5 (snd (m_open ''/b/f'' (O_WRONLY OR O_TRUNC) None (snd after_write))))"
    using after_write_facts by (simp add: path open_flag_defs)
  moreover have "m_content ''/b/f''
      (m_close 5 (snd (m_open ''/b/f'' (O_WRONLY OR O_TRUNC) None (snd after_write)))) = Some []"
    by (simp add: after_write_def evaluate)
  ultimately show "\<exists>s' w'. fs_open mem_env 10 7 (O_WRONLY OR O_TRUNC) (fst after_write) (snd after_write) =
      (ReplyError EIO, s', w') \<and> m_content ''/b/f'' w' = Some []" by blast
qed

section \<open>Writes beside the owner\<close>

text \<open>
  C33: A write is compared only while nobody owns the path. If another handle owns it, a write through
  any open handle goes to the file without a check, whatever that handle or its session has seen.
\<close>

theorem non_owner_write_unchecked:
  assumes "\<not> is_dibs_ino i" and "h_get (file_handles s) k = Some h"
    and "owner_of (cas_table s) (h_path h) = Some k'" and "k' \<noteq> k"
    and "sys_pwrite os (h_real_fd h) d off w = (Inr n, w1)"
  shows "\<exists>s'. fs_write os i k off d s w = (ReplyWritten (of_nat n), s', w1)
    \<and> owner_of (cas_table s') (h_path h) = Some k'"
  using assms by (simp add: fs_write_def has_active_writer_occ Let_def)

text \<open>Process 10 has written and flushed through its handle 1; process 20 is now the owner with
  handle 2 and has changed the file. Handle 1, whose hash is outdated, writes all the same.\<close>

definition beside :: "DibsFs \<times> mem" where
  "beside = mem_run [ReqOpen 10 7 2, ReqWrite 7 1 0 [9], ReqFlush 7 1, ReqOpen 20 7 1, ReqWrite 7 2 0 [8]]"

lemma beside_handle: "h_get (file_handles (fst beside)) 1 = Some \<lparr>h_fh = 1, h_real_fd = 3,
    h_path = ''f'', hash_at_open = Some [9, 2, 3], h_flags = 2, has_written = False, h_sid = 10\<rparr>"
  by (simp add: beside_def evaluate)

lemma beside_facts:
  "owner_of (cas_table (fst beside)) ''f'' = Some 2"
  "hash_file mem_env (backing_path (fst beside) ''f'') (snd beside) = Inr [8, 2, 3]"
  "sys_pwrite mem_env 3 [7] 0 (snd beside) = (Inr 1, (snd beside)\<lparr>m_data := [7 \<mapsto> [7, 2, 3]]\<rparr>)"
  by (simp_all add: beside_def evaluate occ_of_sel)

theorem non_owner_write_unchecked_witness:
  "hash_file mem_env (backing_path (fst beside) ''f'') (snd beside) = Inr [8, 2, 3] \<and>
   (\<exists>s' w'. fs_write mem_env 7 1 0 [7] (fst beside) (snd beside) = (ReplyWritten 1, s', w')
     \<and> m_data w' = [7 \<mapsto> [7, 2, 3]])"
  using non_owner_write_unchecked [OF real_inos(1) beside_handle, of 2 mem_env "[7]" 0] beside_facts
  by fastforce

section \<open>Truncation without a handle\<close>

text \<open>
  \<open>setattr\<close> with a new size but no file handle, which is what \<open>truncate(2)\<close> becomes, cuts the file
  without any comparison, whoever owns its write and whatever the caller has seen.
\<close>

lemma truncate_without_handle_unchecked:
  assumes "\<not> is_dibs_ino i" and "get_path (inodes s) i = Some p"
    and "CHR 0x00 \<notin> set (backing_path s p)"
    and "sys_truncate os (backing_path s p) n w = (None, w1)"
  shows "snd (fs_setattr os i None None None (Some n) None None None None s w) = (s, w1)"
  using assms
  by (simp add: fs_setattr_def setattr_truncate_def setattr_meta_def Let_def path_to_cstring_def)

section \<open>Renaming a file that is being written\<close>

lemma rename_ok_state:
  assumes "fs_rename os pid pa n pa' n' s w = (ReplyOk, s1, w1)"
    and "fst (resolve_path s pa n) = p" and "fst (resolve_path s pa' n') = q"
  shows "cas_table s1 = cas_rename p q (cas_table s)" and "file_handles s1 = file_handles s"
    and "inodes s1 = inode_rename p q (inodes s)"
  using assms
  by (auto simp: fs_rename_def Let_def split_beta split: if_splits sum.splits prod.splits option.splits)

text \<open>
  C34: A rename moves the write ownership to the new path but not the path in the handle that owns it.
  When that handle is released, its ownership is looked for under the old path and not found: the
  new path stays owned by a handle that does not exist any more.
\<close>

theorem rename_strands_owner:
  assumes "fs_rename os pid pa n pa' n' s w = (ReplyOk, s1, w1)"
    and "fst (resolve_path s pa n) = p" and "fst (resolve_path s pa' n') = q" and "p \<noteq> q"
    and "owner_of (cas_table s) p = Some k"
    and "h_get (file_handles s) k = Some h" and "h_path h = p"
    and "fs_release os k s1 w1 = (r, s2, w2)"
  shows "owner_of (cas_table s2) q = Some k \<and> h_get (file_handles s2) k = None"
proof -
  note s1 = rename_ok_state [OF assms(1-3)]
  have "p \<in> tracked_in (cas_table s)"
    using assms(5) occ_of_ok [of "cas_table s"] by (auto simp: occ_ok_def)
  then have "owner_of (cas_table s1) q = Some k" "owner_of (cas_table s1) p = None"
    using assms(4,5) by (simp_all add: s1 cas_occ owner_move)
  then show ?thesis
    using assms(6-8) by (auto simp: fs_release_def Let_def split_beta s1 cas_occ handle_lookups)
qed

theorem rename_strands_owner_witness:
  "owner_of (cas_table (fst (mem_run [ReqOpen 10 7 1, ReqRename 10 1 ''f'' 1 ''g'', ReqRelease 1]))) ''g'' = Some 1"
proof -
  let ?rn = "fs_rename mem_env 10 1 ''f'' 1 ''g'' (fst writing) (snd writing)"
  let ?rl = "fs_release mem_env 1 (fst (snd ?rn)) (snd (snd ?rn))"
  have r: "resolve_path (fst writing) 1 ''f'' = (''f'', ''/b/f'')"
    "resolve_path (fst writing) 1 ''g'' = (''g'', ''/b/g'')"
    by (simp_all add: resolve_path_def writing_eq fs0_eq backing_path_def join_def is_absolute_def Let_def)
  have "fst ?rn = ReplyOk"
    using real_inos(2)
    by (simp add: fs_rename_def r view_conflict_def get_reader_hash_def)
       (simp add: writing_eq evaluate)
  then have rn: "?rn = (ReplyOk, fst (snd ?rn), snd (snd ?rn))" by (metis prod.collapse)
  have rl: "?rl = (fst ?rl, fst (snd ?rl), snd (snd ?rl))" by simp
  have "owner_of (cas_table (fst (snd ?rl))) ''g'' = Some 1 \<and>
      h_get (file_handles (fst (snd ?rl))) 1 = None"
    by (rule rename_strands_owner [OF rn _ _ _ _ writing_handle _ rl, where p = "''f''"])
       (simp_all add: r writing_owner writing_handle)
  moreover have "mem_run [ReqOpen 10 7 1, ReqRename 10 1 ''f'' 1 ''g'', ReqRelease 1] = snd ?rl"
    using fs_step.simps(1) [of mem_env "ReqRename 10 1 ''f'' 1 ''g''" "fst writing" "snd writing"]
      fs_step.simps(1) [of mem_env "ReqRelease 1" "fst (snd ?rn)" "snd (snd ?rn)"]
    by (simp add: writing_def fs_run_def del: fs_step.simps)
  ultimately show ?thesis by simp
qed

section \<open>Renaming a directory\<close>

text \<open>
  C35: The rename of a directory does not reach what is below it. The inode of a file in the directory
  keeps resolving to the old path, and the views and the owner recorded for the file stay under the
  old path. Under the new path the file counts as never seen: a session that read it before the
  rename, and whose view is stale, is admitted to open it for writing whatever it contains.
\<close>

theorem dir_rename_strands_children:
  assumes "fs_inv s" and "fs_rename os pid pa n pa' n' s w = (ReplyOk, s1, w1)"
    and "fst (resolve_path s pa n) = p" and "fst (resolve_path s pa' n') = q"
    and "join p f \<notin> {p, q}" and "join q f \<notin> {p, q}"
    and "get_path (inodes s) i = Some (join p f)"
    and "seen_by (cas_table s) (sid, join q f) = None" and "owner_of (cas_table s) (join q f) = None"
  shows "get_path (inodes s1) i = Some (join p f)
    \<and> seen_by (cas_table s1) (sid, join p f) = seen_by (cas_table s) (sid, join p f)
    \<and> owner_of (cas_table s1) (join p f) = owner_of (cas_table s) (join p f)
    \<and> open_admitted (join q f) O_WRONLY sid actual (occ_of (cas_table s1))"
proof -
  note s1 = rename_ok_state [OF assms(2-4)]
  have "get_ino (inodes s) p \<noteq> Some i"
    using assms(1,5,7) consistentD [of "inodes s" p i] by (auto simp: fs_inv_def)
  then have "get_path (inodes s1) i = Some (join p f)"
    using assms(7) by (simp add: s1 inode_lookups)
  then show ?thesis
    using assms(5,6,8,9) seen_move_other [of p "join p f" q] seen_move_other [of p "join q f" q]
    by (auto simp: s1 cas_occ owner_move open_admitted_def)
qed

definition in_dir :: DibsFs where
  "in_dir = (fst fs0)\<lparr>inodes := inode_insert 9 ''f/x'' (inodes (fst fs0)),
     cas_table := record_reader ''f/x'' [5] 10 100 CasTable_new\<rparr>"

theorem dir_rename_strands_children_witness:
  "\<exists>s1 w1. fs_rename mem_env 20 1 ''f'' 1 ''g'' in_dir mem0 = (ReplyOk, s1, w1)
    \<and> seen_by (cas_table in_dir) (10, ''f/x'') = Some [5]
    \<and> get_path (inodes s1) 9 = Some ''f/x''
    \<and> open_admitted ''g/x'' O_WRONLY 10 [6] (occ_of (cas_table s1))"
proof -
  let ?rn = "fs_rename mem_env 20 1 ''f'' 1 ''g'' in_dir mem0"
  have r: "resolve_path in_dir 1 ''f'' = (''f'', ''/b/f'')" "resolve_path in_dir 1 ''g'' = (''g'', ''/b/g'')"
    by (simp_all add: resolve_path_def in_dir_def fs0_eq backing_path_def join_def is_absolute_def Let_def)
  have "fst ?rn = ReplyOk"
    using real_inos(2)
    by (simp add: fs_rename_def r view_conflict_def get_reader_hash_def) (simp add: in_dir_def evaluate)
  then have rn: "?rn = (ReplyOk, fst (snd ?rn), snd (snd ?rn))" by (metis prod.collapse)
  have j: "join ''f'' ''x'' = ''f/x''" "join ''g'' ''x'' = ''g/x''"
    by (simp_all add: join_def is_absolute_def)
  have inv: "fs_inv in_dir"
    using fs0_inv by (simp add: in_dir_def fs_inv_def dibs_inv owners_issued_def cas_occ occ_new)
  have view: "seen_by (cas_table in_dir) (10, ''f/x'') = Some [5]"
    by (simp add: in_dir_def cas_occ occ_new)
  have "get_path (inodes in_dir) 9 = Some ''f/x''" "seen_by (cas_table in_dir) (10, ''g/x'') = None"
    "owner_of (cas_table in_dir) ''g/x'' = None"
    by (simp_all add: in_dir_def inode_lookups cas_occ occ_new)
  then have "get_path (inodes (fst (snd ?rn))) 9 = Some (join ''f'' ''x'')
      \<and> open_admitted (join ''g'' ''x'') O_WRONLY 10 [6] (occ_of (cas_table (fst (snd ?rn))))"
    using dir_rename_strands_children [OF inv rn, of "''f''" "''g''" "''x''" 9 10 "[6]"]
    by (simp add: r j)
  then show ?thesis unfolding j using rn view by blast
qed

section \<open>Opening for reading and writing\<close>

text \<open>
  C36: An open for reading and writing is never refused for a stale view: whatever the session has seen
  before, if nobody owns the path's write it is granted, and the session's view is replaced by
  the current hash. Only an open for writing alone is compared with the session's earlier reads.
\<close>

theorem rdwr_open_ignores_view:
  assumes "fs_inv s" and "\<not> is_dibs_ino i" and "get_path (inodes s) i = Some p"
    and "CHR 0x00 \<notin> set (backing_path s p)" and "fl AND O_ACCMODE = O_RDWR"
    and "sys_open os (backing_path s p) fl None w = (Inr fd, w1)"
    and "hash_file os (backing_path s p) w = Inr actual" and "owner_of (cas_table s) p = None"
  shows "\<exists>s'. fs_open os pid i fl s w = (ReplyOpened (next_fh (file_handles s)), s', w1)
    \<and> owner_of (cas_table s') p = Some (next_fh (file_handles s))
    \<and> seen_by (cas_table s') (get_sid os pid w, p) = Some actual"
proof -
  have adm: "open_admitted p (fl AND O_ACCMODE) (get_sid os pid w) actual (occ_of (cas_table s))"
    using assms(5,8) by (simp add: open_admitted_def)
  have "fl AND O_ACCMODE \<noteq> O_RDONLY" using assms(5) by (simp add: open_flag_defs)
  from fs_open_write_eq [OF assms(2-4) this assms(6)] open_write_granted [OF assms(1) adm, of os "int fd" fl w1]
  obtain s' where s': "open_write os (int fd) p fl (fl AND O_ACCMODE) (get_sid os pid w) (Some actual) s w1 =
      (ReplyOpened (next_fh (file_handles s)), s', w1)"
    "fs_open os pid i fl s w = (ReplyOpened (next_fh (file_handles s)), s', w1)"
    "owner_of (cas_table s') p = Some (next_fh (file_handles s))"
    using assms(7) by auto
  then have "seen_by (cas_table s') (get_sid os pid w, p) = Some actual"
    using assms(5) by (auto simp: open_write_eq Let_def split_beta cas_occ split: sum.splits)
  with s' show ?thesis by auto
qed

theorem rdwr_open_ignores_view_witness:
  "seen_by (cas_table (fst after_write)) (10, ''f'') = Some [1, 2, 3] \<and>
   (\<exists>s' w'. fs_open mem_env 10 7 O_RDWR (fst after_write) (snd after_write) =
      (ReplyOpened (next_fh (file_handles (fst after_write))), s', w')
     \<and> seen_by (cas_table s') (10, ''f'') = Some [9, 2, 3])"
proof -
  have "sys_open mem_env (backing_path (fst after_write) ''f'') O_RDWR None (snd after_write) =
      (Inr 5, snd (m_open ''/b/f'' O_RDWR None (snd after_write)))"
    and "owner_of (cas_table (fst after_write)) ''f'' = None"
    and "CHR 0x00 \<notin> set (backing_path (fst after_write) ''f'')"
    by (simp_all add: after_write_def evaluate occ_of_sel)
  with rdwr_open_ignores_view [OF after_write_inv real_inos(1) after_write_facts(1),
      of O_RDWR mem_env "snd after_write" 5 _ "[9, 2, 3]" 10] after_write_facts(2) after_write_view(1)
  show ?thesis by (auto simp: get_sid_def open_flag_defs)
qed

section \<open>Unknown parents\<close>

text \<open>
  A parent inode the table does not know is taken for the root directory, so a request with a
  forgotten directory inode acts on the file of that name in the root.
\<close>

lemma unknown_parent_is_root:
  assumes "get_path (inodes s) pa = None" and "\<not> is_dibs_ino pa"
  shows "resolve_path s pa n = resolve_path s 1 n
    \<and> fs_unlink os pid pa n s w = fs_unlink os pid 1 n s w"
proof -
  have "resolve_path s pa n = resolve_path s 1 n"
    using assms(1) by (simp add: resolve_path_def)
  moreover have "\<not> is_dibs_ino 1" by (rule real_inos)
  ultimately show ?thesis using assms(2) by (simp add: fs_unlink_def)
qed

section \<open>Creating over an existing file\<close>

text \<open>\<open>create\<close> opens or replaces whatever is at the path without a comparison and makes the
  result the session's view.\<close>

lemma create_ignores_views:
  assumes "\<not> is_dibs_ino pa" and "resolve_path s pa n = (p, full)" and "CHR 0x00 \<notin> set full"
    and "sys_open os full (fl OR O_CREAT) (Some m) w = (Inr fd, w1)"
    and "fstat os (int fd) w1 = Inr st" and "hash_file os full w1 = Inr x"
  shows "\<exists>s'. fs_create os pid pa n m fl s w =
      (ReplyCreated (stat_to_file_attr st) (next_fh (file_handles s)), s', w1)
    \<and> seen_by (cas_table s') (get_sid os pid w1, p) = Some x
    \<and> owner_of (cas_table s') = owner_of (cas_table s)"
  using assms by (simp add: fs_create_def path_to_cstring_def Let_def split_beta cas_occ)

section \<open>Eviction with an oversized duration\<close>

text \<open>A duration chrono cannot represent is taken as 0, so the pass evicts everything that is
  not owned and older than now instead of nothing.\<close>

lemma oversized_duration_evicts_all:
  assumes "from_std duration = None" and "dt_sub now 0 = Some now"
  shows "evict_older_than from_std dt_sub duration now t = Some (evict_before now t)"
  using assms by (simp add: evict_older_than_def evict_cutoff_def)

section \<open>Two files with one inode number\<close>

text \<open>
  C39: Inode numbers are taken from \<open>stat\<close> without the device. When two paths have the same number, hard
  links or files on a nested mount, looking up the second redirects the inode the kernel holds for the
  first: it resolves to the second path, the first path is no longer registered, and a file opened
  through the first lookup's inode is the second one.
\<close>

theorem same_inode_redirects:
  assumes "fs_lookup os pa n s w = (ReplyEntry a, s1, w1)" and "fs_lookup os pb m s1 w1 = (ReplyEntry b, s2, w2)"
    and "\<not> is_dibs_ino pa" and "\<not> (pa = 1 \<and> is_dibs_name n)"
    and "\<not> is_dibs_ino pb" and "\<not> (pb = 1 \<and> is_dibs_name m)"
    and "fst (resolve_path s pa n) = p" and "fst (resolve_path s1 pb m) = q"
    and "p \<noteq> []" and "q \<noteq> []" and "p \<noteq> q" and "fa_ino b = fa_ino a" and "\<not> is_dibs_ino (fa_ino a)"
    and "fs_open os pid (fa_ino a) fl s2 w2 = (ReplyOpened k, s3, w3)"
  shows "get_path (inodes s1) (fa_ino a) = Some p \<and> get_path (inodes s2) (fa_ino a) = Some q
    \<and> get_ino (inodes s2) p = None \<and> map_option h_path (h_get (file_handles s3) k) = Some q"
proof -
  have s1: "s1 = s\<lparr>inodes := inode_insert (fa_ino a) p (inodes s)\<rparr>"
    by (rule lookup_registers [OF assms(1,3,4,7,9)])
  moreover have s2: "s2 = s1\<lparr>inodes := inode_insert (fa_ino b) q (inodes s1)\<rparr>"
    by (rule lookup_registers [OF assms(2,5,6,8,10)])
  ultimately have ino: "get_path (inodes s1) (fa_ino a) = Some p" "get_path (inodes s2) (fa_ino a) = Some q"
    "get_ino (inodes s2) p = None"
    using assms(11,12) by (simp_all add: inode_lookups)
  then have "map_option h_path (h_get (file_handles s3) k) = Some q"
    using assms(13,14)
    by (auto simp: fs_open_def open_read_def open_write_def Let_def split_beta handle_lookups
        is_dibs_ino_def is_synthetic_def synthetic_inos split: option.splits sum.splits prod.splits if_splits)
  with ino show ?thesis by blast
qed

text \<open>Two names of one file.\<close>

definition linked :: mem where
  "linked = mem0\<lparr>m_names := [''/b/f'' \<mapsto> 7, ''/b/g'' \<mapsto> 7]\<rparr>"

abbreviation linked_start :: DibsFs where
  "linked_start \<equiv> fst (mounted mem_env mem_cfg mem0)"

lemmas linked_eval = mounted_def DibsFs_new_def fs_init_def mem_cfg_def fs_lookup_def is_dibs_name_def
  DIBS_DIR_NAME_def resolve_path_def lookup_and_register_def lstat_def entry_reply_def linked_def mem0_def
  mem_defs eval_defs

theorem same_inode_redirects_witness:
  "\<exists>a s1 b s2 k s3 w3. fs_lookup mem_env 1 ''f'' linked_start linked = (ReplyEntry a, s1, linked)
    \<and> fs_lookup mem_env 1 ''g'' s1 linked = (ReplyEntry b, s2, linked)
    \<and> fs_open mem_env 10 (fa_ino a) 1 s2 linked = (ReplyOpened k, s3, w3)
    \<and> get_path (inodes s1) (fa_ino a) = Some ''f'' \<and> map_option h_path (h_get (file_handles s3) k) = Some ''g''"
proof -
  let ?l1 = "fs_lookup mem_env 1 ''f'' linked_start linked"
  let ?l2 = "fs_lookup mem_env 1 ''g'' (fst (snd ?l1)) linked"
  let ?o = "fs_open mem_env 10 7 1 (fst (snd ?l2)) linked"
  obtain a s1 where l1: "?l1 = (ReplyEntry a, s1, linked)" "fa_ino a = 7" "fst (resolve_path s1 1 ''g'') = ''g''"
    by (simp add: linked_eval)
  moreover obtain b s2 where l2: "?l2 = (ReplyEntry b, s2, linked)" "fa_ino b = 7"
    by (simp add: linked_eval)
  moreover obtain k s3 w3 where "?o = (ReplyOpened k, s3, w3)" by (simp add: linked_eval)
  moreover have "fst (resolve_path linked_start 1 ''f'') = ''f''" by (simp add: linked_eval)
  ultimately show ?thesis
    using same_inode_redirects [of mem_env 1 "''f''" linked_start linked a s1 linked 1 "''g''" b s2 linked
        "''f''" "''g''" 10 1 k s3 w3] real_inos
    by (simp add: is_dibs_name_def DIBS_DIR_NAME_def)
qed

text \<open>
  C38: \<open>setattr\<close> acquires the write of the path its inode resolves to, in the name of the handle it is
  given, whatever path that handle was opened on. If they differ, as after the lookup of another hard
  link of the file, the release of the handle gives up the path it was opened on, and the other path
  stays owned by a handle that does not exist any more.
\<close>

theorem setattr_strands_owner:
  assumes "\<not> is_dibs_ino i" and "get_path (inodes s) i = Some q" and "CHR 0x00 \<notin> set (backing_path s q)"
    and "h_get (file_handles s) k = Some h" and "h_path h \<noteq> q" and "owner_of (cas_table s) q = None"
    and "expected (file_handles s) k (h_sid h) q (occ_of (cas_table s)) \<in>
      {None, Some (unwrap_or [] (hash_file os (backing_path s q) w))}"
    and "fs_setattr os i mo u g (Some n) at mt (Some k) fl s w = (r, s1, w1)"
    and "fs_release os k s1 w1 = (r', s2, w2)"
  shows "owner_of (cas_table s2) q = Some k \<and> h_get (file_handles s2) k = None"
proof -
  let ?acq = "check_and_acquire_write q k (h_sid h) (file_handles s)
    (unwrap_or [] (hash_file os (backing_path s q) w)) (utc_now os w) (cas_table s)"
  have adm: "admits q k (h_sid h) (file_handles s) (unwrap_or [] (hash_file os (backing_path s q) w))
      (occ_of (cas_table s))"
    using assms(6,7) by (auto simp: admits_def)
  then have "fst ?acq = Inr ()" by (simp add: acquire_result_occ)
  then obtain ct where ct: "?acq = (Inr (), ct)" by (cases ?acq) simp
  have "owner_of (snd ?acq) q = Some k" using adm by (simp add: acquire_occ occ_acquire_def)
  then have own: "owner_of ct q = Some k" by (simp add: ct)
  have "s1 = s\<lparr>cas_table := ct\<rparr>"
    using assms(1-4,8) ct
    by (auto simp: fs_setattr_def setattr_truncate_def path_to_cstring_def Let_def split_beta attr_reply_def
        split: option.splits prod.splits sum.splits)
  with assms(4,5,9) own show ?thesis
    by (auto simp: fs_release_def Let_def split_beta cas_occ handle_lookups)
qed

text \<open>Process 10 opens \<open>f\<close> for writing, another name of the file is looked up, the file is truncated through
  the handle and the handle is released.\<close>

theorem setattr_strands_owner_witness:
  "owner_of (cas_table (fst (fs_run mem_env (map Request [ReqLookup 1 ''f'', ReqOpen 10 7 1, ReqLookup 1 ''g'',
     ReqSetattr 7 None None None (Some 1) None None (Some 1) None, ReqRelease 1]) (linked_start, linked)))) ''g'' = Some 1"
proof -
  obtain s w where pre: "fs_run mem_env (map Request [ReqLookup 1 ''f'', ReqOpen 10 7 1, ReqLookup 1 ''g''])
      (linked_start, linked) = (s, w)"
    by (metis surj_pair)
  have s: "get_path (inodes s) 7 = Some ''g''" "owner_of (cas_table s) ''g'' = None" "seen_by (cas_table s) (10, ''g'') = None"
    "h_get (file_handles s) 1 = Some \<lparr>h_fh = 1, h_real_fd = 3, h_path = ''f'', hash_at_open = None, h_flags = 1,
       has_written = False, h_sid = 10\<rparr>" "CHR 0x00 \<notin> set (backing_path s ''g'')"
    using pre by (auto simp: fs_run_def linked_eval occ_of_sel)
  obtain r s1 w1 where sa: "fs_setattr mem_env 7 None None None (Some 1) None None (Some 1) None s w = (r, s1, w1)"
    by (metis surj_pair)
  obtain r' s2 w2 where rl: "fs_release mem_env 1 s1 w1 = (r', s2, w2)" by (metis surj_pair)
  have "owner_of (cas_table s2) ''g'' = Some 1"
    using setattr_strands_owner [OF real_inos(1) s(1,5,4) _ s(2) _ sa rl] s(3,4) by (simp add: expected_def)
  then show ?thesis using pre sa rl by (simp add: fs_run_def)
qed

section \<open>The name of the virtual directory\<close>

lemma add_entries_roomy: "add_entries (\<lambda>_ _. False) acc es = acc @ es"
  by (induction es arbitrary: acc) auto

lemma numbered_entry: "(i, kind, name) \<in> set es \<Longrightarrow> \<exists>e \<in> set (numbered es). de_ino e = i \<and> de_name e = name"
proof -
  assume "(i, kind, name) \<in> set es"
  then obtain n where n: "n < length es" "es ! n = (i, kind, name)" by (auto simp: in_set_conv_nth)
  then have "numbered es ! n \<in> set (numbered es)" by simp
  with n show ?thesis by (intro bexI [of _ "numbered es ! n"]) (simp_all add: numbered_def)
qed

text \<open>
  C40: The name \<open>.dibs\<close> is not reserved. When the backing directory has a directory of that name, it is
  hidden: the name leads to the virtual directory, and a listing of the root shows \<open>.dibs\<close> twice, with
  two inode numbers. Yet \<open>rmdir\<close> of the name, under which the mount shows the virtual directory, is
  carried out on the hidden one and succeeds, and the virtual directory is still there afterwards.
\<close>

theorem dibs_name_not_reserved:
  assumes "CHR 0x00 \<notin> set (backing_path s DIBS_DIR_NAME)"
    and "lstat os (backing_path s DIBS_DIR_NAME) w = Inr st"
    and "std_read_dir os (backing_path s []) w = Inr es" and "Inr DIBS_DIR_NAME \<in> set es"
    and "sys_rmdir os (backing_path s DIBS_DIR_NAME) w = (None, w1)"
  shows "\<exists>ds e e' s1. fs_lookup os 1 DIBS_DIR_NAME s w = (ReplyEntry (dibs_dir_attr os DIBS_DIR_INO w), s, w)
    \<and> fst (fs_readdir os (\<lambda>_ _. False) 1 0 s w) = ReplyDirectory ds
    \<and> {e, e'} \<subseteq> set ds \<and> de_name e = DIBS_DIR_NAME \<and> de_name e' = DIBS_DIR_NAME
    \<and> de_ino e = DIBS_DIR_INO \<and> de_ino e' = st_ino st
    \<and> fs_rmdir os 1 DIBS_DIR_NAME s w = (ReplyOk, s1, w1)
    \<and> fs_lookup os 1 DIBS_DIR_NAME s1 w1 = (ReplyEntry (dibs_dir_attr os DIBS_DIR_INO w1), s1, w1)"
proof -
  let ?s1 = "s\<lparr>inodes := remove_by_path DIBS_DIR_NAME (inodes s)\<rparr>"
  let ?found = "List.map_filter (dir_entry os (backing s) [] w) es"
  let ?listing = "[(1, Directory, ''.''), (parent_ino_of s 1 [], Directory, ''..''),
    (DIBS_DIR_INO, Directory, DIBS_DIR_NAME)] @ ?found"
  have name: "to_string_lossy DIBS_DIR_NAME = DIBS_DIR_NAME" "join [] DIBS_DIR_NAME = DIBS_DIR_NAME"
    by (simp_all add: DIBS_DIR_NAME_def to_string_lossy_ascii_Cons join_def is_absolute_def)
  have rm: "fs_rmdir os 1 DIBS_DIR_NAME s w = (ReplyOk, ?s1, w1)"
    using assms(1,5) real_inos(2) name(2)
    by (simp add: fs_rmdir_def resolve_path_def path_to_cstring_def Let_def)
  have rd: "fst (fs_readdir os (\<lambda>_ _. False) 1 0 s w) = ReplyDirectory (numbered ?listing)"
    using assms(3)
    by (simp add: fs_readdir_def dir_reply_def add_entries_roomy scan_dir_found synthetic_inos Let_def split_beta)
  have "dir_entry os (backing s) [] w (Inr DIBS_DIR_NAME) =
      Some (st_ino st, mode_to_filetype (ucast (st_mode st)), DIBS_DIR_NAME)"
    using assms(2) name by (simp add: dir_entry_def backing_path_def DIBS_DIR_NAME_def)
  then have "(st_ino st, mode_to_filetype (ucast (st_mode st)), DIBS_DIR_NAME) \<in> set ?found"
    using assms(4) by (force simp: List.map_filter_def)
  then obtain e' where "e' \<in> set (numbered ?listing)" "de_ino e' = st_ino st" "de_name e' = DIBS_DIR_NAME"
    using numbered_entry [of "st_ino st" _ DIBS_DIR_NAME ?listing] by auto
  moreover obtain e where "e \<in> set (numbered ?listing)" "de_ino e = DIBS_DIR_INO" "de_name e = DIBS_DIR_NAME"
    using numbered_entry [of DIBS_DIR_INO Directory DIBS_DIR_NAME ?listing] by auto
  moreover have "fs_lookup os 1 DIBS_DIR_NAME s' w' = (ReplyEntry (dibs_dir_attr os DIBS_DIR_INO w'), s', w')" for s' w'
    by (simp add: fs_lookup_def is_dibs_name_def)
  ultimately show ?thesis
    using rm rd
    by (intro exI [of _ "numbered ?listing"] exI [of _ e] exI [of _ e'] exI [of _ ?s1]) simp
qed

text \<open>A backing directory with an entry \<open>.dibs\<close>, which \<open>rmdir\<close> removes.\<close>

definition hidden :: mem where
  "hidden = mem0\<lparr>m_names := [''/b/f'' \<mapsto> 7, ''/b/.dibs'' \<mapsto> 8], m_data := [7 \<mapsto> [1, 2, 3], 8 \<mapsto> []]\<rparr>"

definition hidden_env :: "(mem, bytes) env" where
  "hidden_env = mem_env\<lparr>sys_rmdir := m_unlink, std_read_dir := \<lambda>_ _. Inr [Inr ''.dibs'']\<rparr>"

theorem dibs_name_not_reserved_witness:
  "\<exists>s1 w1. m_names hidden ''/b/.dibs'' = Some 8
    \<and> fs_lookup hidden_env 1 ''.dibs'' (fst fs0) hidden =
        (ReplyEntry (dibs_dir_attr hidden_env DIBS_DIR_INO hidden), fst fs0, hidden)
    \<and> fs_rmdir hidden_env 1 ''.dibs'' (fst fs0) hidden = (ReplyOk, s1, w1) \<and> m_names w1 ''/b/.dibs'' = None"
proof -
  let ?w = "hidden\<lparr>m_names := (m_names hidden)(''/b/.dibs'' := None)\<rparr>"
  have path: "backing_path (fst fs0) DIBS_DIR_NAME = ''/b/.dibs''"
    by (simp add: backing_path_def fs0_eq join_def is_absolute_def DIBS_DIR_NAME_def)
  have rm: "sys_rmdir hidden_env (backing_path (fst fs0) DIBS_DIR_NAME) hidden = (None, ?w)"
    unfolding path by (simp add: hidden_env_def hidden_def m_unlink_def)
  obtain st where st: "lstat hidden_env (backing_path (fst fs0) DIBS_DIR_NAME) hidden = Inr st"
    by (simp add: path lstat_def path_to_cstring_def hidden_env_def hidden_def mem_defs)
  have "std_read_dir hidden_env (backing_path (fst fs0) []) hidden = Inr [Inr DIBS_DIR_NAME]"
    by (simp add: hidden_env_def DIBS_DIR_NAME_def)
  from dibs_name_not_reserved [OF _ st this _ rm] path show ?thesis
    by (auto simp: DIBS_DIR_NAME_def hidden_def)
qed

end
