(* ===== verification/Races.thy ===== *)
theory Races
  imports Hash_Table
begin

text \<open>
  The conflict table is shared between the thread that handles requests and the eviction thread. An
  operation locks one map entry at a time, so \<open>check_and_acquire_write\<close> and an eviction pass are not
  atomic against each other. This theory interleaves the two threads at the granularity of the
  locks, shows what survives every interleaving and exhibits the two races.
\<close>

section \<open>The two threads\<close>

text \<open>The request thread is between operations, has made sure that an entry exists and is about to
  lock it, or has panicked at the \<open>unwrap\<close>.\<close>

datatype requester =
    Between
  | Ensured path fh sid HandleTable hash
  | Panicked

text \<open>The eviction thread is sleeping, is collecting idle paths, or is removing the collected ones.\<close>

datatype evictor = Sleeping | Collecting DateTime "path list" | Removing DateTime "path list"

record shared =
  sh_table :: CasTable
  sh_requester :: requester
  sh_evictor :: evictor

definition shared_new :: shared where
  "shared_new = \<lparr>sh_table = CasTable_new, sh_requester = Between, sh_evictor = Sleeping\<rparr>"

text \<open>
  The moves: an operation of the request thread that works on a single entry, the two halves of an
  acquisition, and the stages of an eviction pass. The iterator over the map visits one entry at a
  time; which one comes next is left open.
\<close>

datatype move =
    Operation cas_op
  | BeginAcquire path fh sid HandleTable hash DateTime
  | LockEntry DateTime
  | StartPass DateTime
  | Visit path
  | Collected
  | RemoveNext
  | DropReaders

fun atomic_op :: "cas_op \<Rightarrow> bool" where
  "atomic_op (Acquire p k s hs h now) = False"
| "atomic_op (EvictBefore cutoff) = False"
| "atomic_op _ = True"

definition visit_entry :: "DateTime \<Rightarrow> CasTable \<Rightarrow> path \<Rightarrow> path list" where
  "visit_entry cutoff t p = (case dm_get (entries t) p of
     Some s \<Rightarrow> if idle_since cutoff s then [p] else []
   | None \<Rightarrow> [])"

text \<open>One move, or \<open>None\<close> when the thread concerned is not at that point.\<close>

fun shared_step :: "move \<Rightarrow> shared \<Rightarrow> shared option" where
  "shared_step (Operation x) g =
     (if sh_requester g = Between \<and> atomic_op x then Some (g\<lparr>sh_table := cas_step x (sh_table g)\<rparr>) else None)"
| "shared_step (BeginAcquire p k s hs h now) g =
     (if sh_requester g = Between
      then Some (g\<lparr>sh_table := ensure_entry p now (sh_table g), sh_requester := Ensured p k s hs h\<rparr>)
      else None)"
| "shared_step (LockEntry now) g = (case sh_requester g of
       Ensured p k s hs h \<Rightarrow> (case acquire_locked p k s hs h now (sh_table g) of
           (Inl UnwrapPanic, t) \<Rightarrow> Some (g\<lparr>sh_table := t, sh_requester := Panicked\<rparr>)
         | (_, t) \<Rightarrow> Some (g\<lparr>sh_table := t, sh_requester := Between\<rparr>))
     | _ \<Rightarrow> None)"
| "shared_step (StartPass cutoff) g =
     (if sh_evictor g = Sleeping then Some (g\<lparr>sh_evictor := Collecting cutoff []\<rparr>) else None)"
| "shared_step (Visit p) g = (case sh_evictor g of
       Collecting cutoff acc \<Rightarrow>
         Some (g\<lparr>sh_evictor := Collecting cutoff (acc @ visit_entry cutoff (sh_table g) p)\<rparr>)
     | _ \<Rightarrow> None)"
| "shared_step Collected g = (case sh_evictor g of
       Collecting cutoff acc \<Rightarrow> Some (g\<lparr>sh_evictor := Removing cutoff acc\<rparr>)
     | _ \<Rightarrow> None)"
| "shared_step RemoveNext g = (case sh_evictor g of
       Removing cutoff (p # ps) \<Rightarrow>
         Some (g\<lparr>sh_table := evict_entry p (sh_table g), sh_evictor := Removing cutoff ps\<rparr>)
     | _ \<Rightarrow> None)"
| "shared_step DropReaders g = (case sh_evictor g of
       Removing cutoff [] \<Rightarrow> Some (g\<lparr>sh_table := drop_readers cutoff (sh_table g), sh_evictor := Sleeping\<rparr>)
     | _ \<Rightarrow> None)"

fun shared_run :: "move list \<Rightarrow> shared \<Rightarrow> shared option" where
  "shared_run [] g = Some g"
| "shared_run (m # ms) g = Option.bind (shared_step m g) (shared_run ms)"

lemma shared_run_append:
  "shared_run (ms @ ns) g = Option.bind (shared_run ms g) (shared_run ns)"
  by (induction ms arbitrary: g) (auto split: bind_splits)

text \<open>A run as a sequence of total steps.\<close>

definition advance :: "move \<Rightarrow> shared \<Rightarrow> shared" where
  "advance m g = option_or g (shared_step m g)"

lemma shared_run_fold: "shared_run ms g = Some g' \<Longrightarrow> fold advance ms g = g'"
  by (induction ms arbitrary: g) (auto simp: advance_def bind_eq_Some_conv)

text \<open>The paths an eviction pass under way is going to remove.\<close>

fun doomed :: "evictor \<Rightarrow> path set" where
  "doomed Sleeping = {}"
| "doomed (Collecting cutoff acc) = set acc"
| "doomed (Removing cutoff ps) = set ps"

section \<open>Undisturbed, the moves are the operations\<close>

lemma lock_entry_step:
  assumes "sh_requester g = Ensured p k s hs h"
  shows "shared_step (LockEntry now) g = (let r = acquire_locked p k s hs h now (sh_table g) in
    Some (g\<lparr>sh_table := snd r,
      sh_requester := if fst r = Inl UnwrapPanic then Panicked else Between\<rparr>))"
  using assms by (auto simp: Let_def split: prod.splits sum.splits cas_error.splits)

lemma acquire_undisturbed:
  assumes "sh_requester g = Between"
  shows "shared_run [BeginAcquire p k s hs h now, LockEntry now] g =
    Some (g\<lparr>sh_table := snd (check_and_acquire_write p k s hs h now (sh_table g))\<rparr>)"
proof -
  let ?r = "check_and_acquire_write p k s hs h now (sh_table g)"
  have "fst ?r \<noteq> Inl UnwrapPanic"
    by (simp add: check_decides split: option.splits)
  then show ?thesis
    using assms lock_entry_step [of "g\<lparr>sh_table := ensure_entry p now (sh_table g),
      sh_requester := Ensured p k s hs h\<rparr>" p k s hs h now]
    by (cases g) (simp add: check_and_acquire_write_def Let_def)
qed

lemma visit_all:
  "sh_evictor g = Collecting cutoff acc \<Longrightarrow>
   shared_run (map Visit ps) g = Some (g\<lparr>sh_evictor :=
     Collecting cutoff (acc @ concat (map (visit_entry cutoff (sh_table g)) ps))\<rparr>)"
proof (induction ps arbitrary: g acc)
  case Nil
  then show ?case by (cases g) simp
next
  case (Cons p ps)
  then show ?case by (cases g) simp
qed

lemma remove_all:
  "sh_evictor g = Removing cutoff ps \<Longrightarrow>
   shared_run (replicate (length ps) RemoveNext) g =
     Some (g\<lparr>sh_table := fold evict_entry ps (sh_table g), sh_evictor := Removing cutoff []\<rparr>)"
proof (induction ps arbitrary: g)
  case Nil
  then show ?case by (cases g) simp
next
  case (Cons p ps)
  then show ?case by (cases g) simp
qed

lemma visits_collect:
  "concat (map (visit_entry cutoff t) (map fst (dm_iter (entries t)))) = evict_collect cutoff t"
proof -
  have "visit_entry cutoff t p = (if idle_since cutoff s then [p] else [])"
    if "(p, s) \<in> set (dm_iter (entries t))" for p s
    using that by (simp add: dm_iter_iff visit_entry_def)
  then have "concat (map (visit_entry cutoff t \<circ> fst) xs) =
      map fst (filter (\<lambda>(_, s). idle_since cutoff s) xs)"
    if "set xs \<subseteq> set (dm_iter (entries t))" for xs
    using that by (induction xs) auto
  then show ?thesis by (simp add: evict_collect_def)
qed

definition whole_pass :: "DateTime \<Rightarrow> CasTable \<Rightarrow> move list" where
  "whole_pass cutoff t = StartPass cutoff # map Visit (map fst (dm_iter (entries t))) @ Collected
     # replicate (length (evict_collect cutoff t)) RemoveNext @ [DropReaders]"

lemma whole_pass_run:
  assumes "sh_evictor g = Sleeping"
  shows "shared_run (whole_pass cutoff (sh_table g)) g =
    Some (g\<lparr>sh_table := evict_before cutoff (sh_table g)\<rparr>)"
proof -
  let ?t = "sh_table g"
  let ?ps = "evict_collect cutoff ?t"
  have 1: "shared_run (map Visit (map fst (dm_iter (entries ?t)))) (g\<lparr>sh_evictor := Collecting cutoff []\<rparr>) =
      Some (g\<lparr>sh_evictor := Collecting cutoff ?ps\<rparr>)"
    by (subst visit_all [where acc = "[]" and cutoff = cutoff])
      (simp_all add: visits_collect [simplified])
  have 2: "shared_run (replicate (length ?ps) RemoveNext) (g\<lparr>sh_evictor := Removing cutoff ?ps\<rparr>) =
      Some (g\<lparr>sh_table := fold evict_entry ?ps ?t, sh_evictor := Removing cutoff []\<rparr>)"
    by (subst remove_all [where cutoff = cutoff and ps = ?ps]) simp_all
  show ?thesis
    unfolding whole_pass_def
    using assms 1 2 by (cases g) (simp add: shared_run_append evict_before_def del: map_map)
qed

text \<open>
  The stages of an eviction pass and the two halves of an acquisition, run without interruption,
  are exactly the operations \<open>evict_older_than\<close> and \<open>check_and_acquire_write\<close> of the table; the
  interleaved model adds interruptions and nothing else.
\<close>

lemma undisturbed_is_atomic:
  assumes "sh_requester g = Between" and "sh_evictor g = Sleeping"
  shows "shared_run (whole_pass cutoff (sh_table g)) g =
      Some (g\<lparr>sh_table := evict_before cutoff (sh_table g)\<rparr>)
    \<and> shared_run [BeginAcquire p k s hs h now, LockEntry now] g =
      Some (g\<lparr>sh_table := snd (check_and_acquire_write p k s hs h now (sh_table g))\<rparr>)"
  using whole_pass_run [OF assms(2)] acquire_undisturbed [OF assms(1)] by blast

section \<open>What every interleaving keeps\<close>

text \<open>The moves that end a write of a path on behalf of a client.\<close>

fun ends_write :: "path \<Rightarrow> fh \<Rightarrow> move \<Rightarrow> bool" where
  "ends_write p k (Operation (Release q j)) \<longleftrightarrow> q = p \<and> j = k"
| "ends_write p k (Operation (Remove q)) \<longleftrightarrow> q = p"
| "ends_write p k (Operation (Move q r)) \<longleftrightarrow> q = p \<or> r = p"
| "ends_write p k _ \<longleftrightarrow> False"

lemma acquire_locked_owner:
  "owner_of t p = Some k \<Longrightarrow> owner_of (snd (acquire_locked q j s hs h now t)) p = Some k"
  by (auto simp: acquire_locked_def occ_of_sel dm_get_insert bind_eq_Some_conv split: option.splits)

lemma lock_entry_cases:
  assumes "shared_step (LockEntry now) g = Some g'"
  obtains p k s hs h where "sh_requester g = Ensured p k s hs h"
    and "g' = g\<lparr>sh_table := snd (acquire_locked p k s hs h now (sh_table g)),
      sh_requester := if fst (acquire_locked p k s hs h now (sh_table g)) = Inl UnwrapPanic
        then Panicked else Between\<rparr>"
proof (cases "sh_requester g")
  case (Ensured p k s hs h)
  then show ?thesis using that assms lock_entry_step [OF Ensured, of now] by (simp add: Let_def)
qed (use assms in simp_all)

text \<open>An owned path that no pass under way has collected stays owned and is not collected.\<close>

definition secure :: "path \<Rightarrow> fh \<Rightarrow> shared \<Rightarrow> bool" where
  "secure p k g \<longleftrightarrow> owner_of (sh_table g) p = Some k \<and> p \<notin> doomed (sh_evictor g)"

lemma secure_step:
  assumes "secure p k g" and "shared_step m g = Some g'" and "\<not> ends_write p k m"
  shows "secure p k g'"
proof (cases m)
  case (Operation x)
  have "owner_of (cas_step x (sh_table g)) p = Some k"
    using assms Operation
    by (intro occ_step_owner [OF cas_step_simulates [of x "sh_table g"]]) (auto simp: secure_def)
  then show ?thesis using assms Operation by (auto simp: secure_def split: if_splits)
next
  case (LockEntry now)
  with assms(2) have "shared_step (LockEntry now) g = Some g'" by (simp only:)
  then show ?thesis
    using assms(1) acquire_locked_owner by (cases rule: lock_entry_cases) (auto simp: secure_def)
next
  case (Visit q)
  then show ?thesis
    using assms
    by (auto simp: secure_def visit_entry_def occ_of_sel idle_since_def bind_eq_Some_conv
        split: evictor.splits option.splits if_splits)
qed (use assms in \<open>auto simp: secure_def ensure_entry_occ evict_entry_occ
      split: evictor.splits list.splits if_splits\<close>)

interpretation secured: invariant_component advance "\<lambda>_ m. \<not> ends_write p k m" "secure p k" for p k
proof
  fix g m assume "secure p k g" and "\<not> ends_write p k m"
  then show "secure p k (advance m g)"
    using secure_step by (cases "shared_step m g") (auto simp: advance_def)
qed

text \<open>
  C6: Every interleaving. A handle that owns the write of a path which no eviction pass under way has
  collected keeps it, however the request thread and the eviction thread interleave, until that
  handle releases the path or the path is removed or renamed; passes that start later never collect
  the path, so nothing they do afterwards can take it away.
\<close>

theorem owned_write_survives_eviction:
  assumes "owner_of (sh_table g) p = Some k" and "p \<notin> doomed (sh_evictor g)"
    and "\<forall>m \<in> set ms. \<not> ends_write p k m" and "shared_run ms g = Some g'"
  shows "owner_of (sh_table g') p = Some k \<and> p \<notin> doomed (sh_evictor g')"
  using secured.run_invar [of p k g ms] shared_run_fold [OF assms(4)] assms(1-3)
  by (simp add: secure_def admissible_run_const)

section \<open>The two races\<close>

text \<open>
  Between the two halves of an acquisition only the eviction thread moves. The entry survives if it
  is owned or was touched at or after the cutoffs of the passes in question.
\<close>

fun pass_within :: "DateTime \<Rightarrow> evictor \<Rightarrow> bool" where
  "pass_within c (Collecting cutoff acc) \<longleftrightarrow> cutoff \<le> c"
| "pass_within c _ \<longleftrightarrow> True"

fun starts_within :: "DateTime \<Rightarrow> move \<Rightarrow> bool" where
  "starts_within c (StartPass cutoff) \<longleftrightarrow> cutoff \<le> c"
| "starts_within c (LockEntry now) \<longleftrightarrow> False"
| "starts_within c _ \<longleftrightarrow> True"

definition recent :: "DateTime \<Rightarrow> CasTable \<Rightarrow> path \<Rightarrow> bool" where
  "recent c t p \<longleftrightarrow> (case dm_get (entries t) p of
     None \<Rightarrow> True
   | Some s \<Rightarrow> write_owner s \<noteq> None \<or> c \<le> last_access s)"

definition waiting :: "DateTime \<Rightarrow> path \<Rightarrow> shared \<Rightarrow> bool" where
  "waiting c p g \<longleftrightarrow> (\<exists>k s hs h. sh_requester g = Ensured p k s hs h)
    \<and> dm_get (entries (sh_table g)) p \<noteq> None \<and> recent c (sh_table g) p
    \<and> p \<notin> doomed (sh_evictor g) \<and> pass_within c (sh_evictor g)"

lemma drop_readers_entries [simp]: "entries (drop_readers cutoff t) = entries t"
  by (simp add: drop_readers_def)

lemma waiting_step:
  assumes "waiting c p g" and "shared_step m g = Some g'" and "starts_within c m"
  shows "waiting c p g'"
  using assms
  by (cases m) (auto simp: waiting_def recent_def visit_entry_def idle_since_def evict_entry_def
      split: evictor.splits list.splits if_splits option.splits)

interpretation pending: invariant_component advance "\<lambda>_. starts_within c" "waiting c p" for c p
proof
  fix g m assume "waiting c p g" and "starts_within c m"
  then show "waiting c p (advance m g)"
    using waiting_step by (cases "shared_step m g") (auto simp: advance_def)
qed

lemma waiting_locks:
  assumes "waiting c p g"
  shows "\<exists>g'. shared_step (LockEntry now) g = Some g' \<and> sh_requester g' = Between"
proof -
  obtain k s hs h where e: "sh_requester g = Ensured p k s hs h"
    using assms by (auto simp: waiting_def)
  have "fst (acquire_locked p k s hs h now (sh_table g)) \<noteq> Inl UnwrapPanic"
    using assms by (auto simp: waiting_def acquire_locked_def cas_check_def split: option.splits)
  then show ?thesis using lock_entry_step [OF e, of now] by (simp add: Let_def)
qed

text \<open>
  C15: An acquisition does not panic, however the eviction thread runs between its two halves, if the
  path was not already collected and its entry is new, owned, or was touched at or after the cutoff
  of every pass that may collect it: the entry is still there when it is locked.
\<close>

theorem recent_entry_never_panics:
  assumes "p \<notin> doomed (sh_evictor g)" and "recent c (sh_table g) p" and "c \<le> now"
    and "pass_within c (sh_evictor g)" and "\<forall>m \<in> set ms. starts_within c m"
    and "shared_run (BeginAcquire p k s hs h now # ms) g = Some g'"
  shows "\<exists>g''. shared_step (LockEntry now') g' = Some g'' \<and> sh_requester g'' = Between"
proof -
  let ?g = "g\<lparr>sh_table := ensure_entry p now (sh_table g), sh_requester := Ensured p k s hs h\<rparr>"
  have "waiting c p ?g"
    using assms(1-4) by (auto simp: waiting_def recent_def ensure_entry_def split: option.splits)
  moreover have "shared_run ms ?g = Some g'"
    using assms(6) by (simp split: if_splits)
  ultimately have "waiting c p g'"
    using pending.run_invar [of c p ?g ms] shared_run_fold assms(5) by (simp add: admissible_run_const)
  then show ?thesis by (rule waiting_locks)
qed

text \<open>
  C30: The first race. Once a pass has collected an idle path, a handle that acquires the write of the
  path loses it when the pass goes on to remove the entry, although nobody released it: a second
  handle without a stale expectation is then admitted too, while the first still believes to own the
  write.
\<close>

theorem eviction_takes_ownership:
  assumes "sh_requester g = Between" and "sh_evictor g = Removing cutoff (p # ps)"
    and "admits p k s hs h (occ_of (sh_table g))"
    and "h_get hs' k' = None \<or> (\<exists>x. h_get hs' k' = Some x \<and> hash_at_open x = Some h')"
  shows "\<exists>g1 g2 g3. shared_run [BeginAcquire p k s hs h now, LockEntry now] g = Some g1
    \<and> owner_of (sh_table g1) p = Some k
    \<and> shared_run [RemoveNext] g1 = Some g2 \<and> owner_of (sh_table g2) p = None
    \<and> shared_run [BeginAcquire p k' s' hs' h' now', LockEntry now'] g2 = Some g3
    \<and> owner_of (sh_table g3) p = Some k'"
proof -
  let ?g1 = "g\<lparr>sh_table := snd (check_and_acquire_write p k s hs h now (sh_table g))\<rparr>"
  let ?g2 = "?g1\<lparr>sh_table := evict_entry p (sh_table ?g1), sh_evictor := Removing cutoff ps\<rparr>"
  let ?g3 = "?g2\<lparr>sh_table := snd (check_and_acquire_write p k' s' hs' h' now' (sh_table ?g2))\<rparr>"
  have "shared_run [BeginAcquire p k s hs h now, LockEntry now] g = Some ?g1"
    using acquire_undisturbed [OF assms(1)] by blast
  moreover have "owner_of (sh_table ?g1) p = Some k" using assms(3) by (simp add: acquire_occ)
  moreover have "shared_run [RemoveNext] ?g1 = Some ?g2" using assms(2) by simp
  moreover have gone: "owner_of (sh_table ?g2) p = None" by (simp add: evict_entry_occ)
  moreover have "shared_run [BeginAcquire p k' s' hs' h' now', LockEntry now'] ?g2 = Some ?g3"
    using acquire_undisturbed [of ?g2] assms(1) by simp
  moreover have "admits p k' s' hs' h' (occ_of (sh_table ?g2))"
    using gone assms(4) by (auto simp: admits_def expected_def)
  then have "owner_of (sh_table ?g3) p = Some k'" by (simp add: acquire_occ)
  ultimately show ?thesis by blast
qed

text \<open>
  C31: The second race. If the removal falls between the two halves of an acquisition, the entry that
  \<open>ensure_entry\<close> guaranteed is gone, the \<open>unwrap\<close> panics and the request thread makes no further
  move.
\<close>

theorem eviction_panics_writer:
  assumes "sh_requester g = Between" and "sh_evictor g = Removing cutoff (p # ps)"
  shows "\<exists>g'. shared_run [BeginAcquire p k s hs h now, RemoveNext, LockEntry now] g = Some g'
    \<and> sh_requester g' = Panicked
    \<and> (\<forall>m g''. shared_step m g' = Some g'' \<longrightarrow> sh_requester g'' = Panicked)"
proof -
  let ?g' = "g\<lparr>sh_table := evict_entry p (ensure_entry p now (sh_table g)), sh_requester := Panicked,
      sh_evictor := Removing cutoff ps\<rparr>"
  have "shared_run [BeginAcquire p k s hs h now, RemoveNext, LockEntry now] g = Some ?g'"
    using assms by (simp add: acquire_locked_def evict_entry_def)
  moreover have "\<forall>m g''. shared_step m ?g' = Some g'' \<longrightarrow> sh_requester g'' = Panicked"
  proof (intro allI impI)
    fix m g'' assume "shared_step m ?g' = Some g''"
    then show "sh_requester g'' = Panicked"
      by (cases m) (auto split: evictor.splits list.splits)
  qed
  ultimately show ?thesis by force
qed

section \<open>Witnesses\<close>

text \<open>A file idle since time 0, collected by a pass with cutoff 100.\<close>

definition collected :: shared where
  "collected = \<lparr>sh_table = ensure_entry ''f'' 0 CasTable_new, sh_requester = Between,
     sh_evictor = Removing 100 [''f'']\<rparr>"

lemma collected_reached:
  "shared_run [Operation (EnsureEntry ''f'' 0), StartPass 100, Visit ''f'', Collected] shared_new =
   Some collected"
  by (simp add: collected_def shared_new_def visit_entry_def ensure_entry_def CasTable_new_def
      idle_since_def)

lemma collected_sel [simp]:
  "sh_requester collected = Between" "sh_evictor collected = Removing 100 [''f'']"
  "sh_table collected = ensure_entry ''f'' 0 CasTable_new"
  by (simp_all add: collected_def)

theorem owned_write_survives_eviction_witness:
  "\<exists>g'. shared_run [Visit ''f'', Collected, DropReaders, StartPass 100, Visit ''f'', Collected]
      \<lparr>sh_table = snd (check_and_acquire_write ''f'' 1 7 HandleTable_new [] 0 CasTable_new),
       sh_requester = Between, sh_evictor = Collecting 50 []\<rparr> = Some g'
    \<and> owner_of (sh_table g') ''f'' = Some 1"
proof -
  let ?t = "snd (check_and_acquire_write ''f'' 1 7 HandleTable_new [] 0 CasTable_new)"
  let ?g = "\<lparr>sh_table = ?t, sh_requester = Between, sh_evictor = Collecting 50 []\<rparr>"
  let ?ms = "[Visit ''f'', Collected, DropReaders, StartPass 100, Visit ''f'', Collected]"
  have own: "owner_of ?t ''f'' = Some 1"
    by (simp add: acquire_occ admits_def expected_def occ_new h_get_def HandleTable_new_def)
  then have idle: "visit_entry c ?t ''f'' = []" "visit_entry c (drop_readers d ?t) ''f'' = []" for c d
    by (auto simp: visit_entry_def idle_since_def occ_of_sel bind_eq_Some_conv)
  have "\<exists>g'. shared_run ?ms ?g = Some g'" by (simp add: idle)
  then show ?thesis
    using owned_write_survives_eviction [of ?g "''f''" 1 ?ms] own by auto
qed

theorem recent_entry_never_panics_witness:
  "\<exists>g' g''. shared_run [BeginAcquire ''f'' 1 7 HandleTable_new [] 0, StartPass 0, Visit ''f'', Collected,
      DropReaders] shared_new = Some g' \<and> shared_step (LockEntry 5) g' = Some g''
    \<and> sh_requester g'' = Between"
proof -
  let ?ms = "[StartPass 0, Visit ''f'', Collected, DropReaders]"
  let ?b = "BeginAcquire ''f'' 1 7 HandleTable_new [] 0"
  obtain g' where run: "shared_run (?b # ?ms) shared_new = Some g'"
    by (simp add: shared_new_def visit_entry_def ensure_entry_def CasTable_new_def idle_since_def)
  have "recent 0 (sh_table shared_new) ''f''"
    by (simp add: recent_def shared_new_def CasTable_new_def)
  then have "\<exists>g''. shared_step (LockEntry 5) g' = Some g'' \<and> sh_requester g'' = Between"
    using recent_entry_never_panics [OF _ _ _ _ _ run, of 0 5] by (simp add: shared_new_def)
  then show ?thesis using run by blast
qed

theorem eviction_takes_ownership_witness:
  "shared_run [Operation (EnsureEntry ''f'' 0), StartPass 100, Visit ''f'', Collected] shared_new =
      Some collected
    \<and> (\<exists>g1 g2 g3. shared_run [BeginAcquire ''f'' 1 7 HandleTable_new [] 200, LockEntry 200] collected = Some g1
    \<and> owner_of (sh_table g1) ''f'' = Some 1 \<and> shared_run [RemoveNext] g1 = Some g2
    \<and> shared_run [BeginAcquire ''f'' 2 8 HandleTable_new [] 200, LockEntry 200] g2 = Some g3
    \<and> owner_of (sh_table g3) ''f'' = Some 2)"
proof -
  have "h_get HandleTable_new k = None" for k by (simp add: h_get_def HandleTable_new_def)
  then have "admits ''f'' 1 7 HandleTable_new [] (occ_of (sh_table collected))"
    and "h_get HandleTable_new 2 = None"
    by (simp_all add: admits_def expected_def ensure_entry_occ occ_new)
  then show ?thesis
    using eviction_takes_ownership [OF collected_sel(1,2),
        of 1 7 HandleTable_new "[]" HandleTable_new 2 "[]" 200 8 200]
      collected_reached by blast
qed

theorem eviction_panics_writer_witness:
  "shared_run [Operation (EnsureEntry ''f'' 0), StartPass 100, Visit ''f'', Collected] shared_new =
      Some collected
    \<and> (\<exists>g'. shared_run [BeginAcquire ''f'' 1 7 HandleTable_new [] 200, RemoveNext, LockEntry 200] collected =
      Some g' \<and> sh_requester g' = Panicked)"
  using collected_reached eviction_panics_writer [OF collected_sel(1,2), of 1 7 HandleTable_new "[]" 200] by blast

end
