(* ===== verification/Unit_Tests.thy ===== *)
theory Unit_Tests
  imports Hash_Table Os_Interface
begin

text \<open>
  The unit tests of \<open>src/state/hash_table.rs\<close>. Each test function is a definition that runs the
  model of the table the way the test runs the table, and is true when every assertion holds. The
  table reads \<open>Utc::now\<close> once per call; the n-th such reading of a test is \<open>now n\<close>.
\<close>

section \<open>The tests\<close>

definition make_hash :: "8 word \<Rightarrow> hash" where
  "make_hash byte = replicate 32 byte"

definition test_two_sids_conflict :: "(nat \<Rightarrow> DateTime) \<Rightarrow> bool" where
  "test_two_sids_conflict now =
     (let path = ''test.txt'';
          h0 = make_hash 0xAA;
          c1 = record_reader path h0 100 (now 0) CasTable_new;
          c2 = record_reader path h0 200 (now 1) c1;
          (fh1, hs1) = h_alloc (- 1) path O_WRONLY None 100 HandleTable_new;
          c3 = ensure_entry path (now 2) c2;
          (result1, c4) = check_and_acquire_write path fh1 100 hs1 h0 (now 3) c3;
          h_a = make_hash 0xBB;
          c5 = update_reader 100 path h_a (now 4) c4;
          c6 = release_write path fh1 c5;
          (fh2, hs2) = h_alloc (- 1) path O_WRONLY None 200 hs1;
          (result2, c7) = check_and_acquire_write path fh2 200 hs2 h_a (now 5) c6
      in \<not> isl result1 \<and> isl result2)"

definition test_blind_write_allowed :: "(nat \<Rightarrow> DateTime) \<Rightarrow> bool" where
  "test_blind_write_allowed now =
     (let path = ''test.txt'';
          c1 = record_reader path (make_hash 0xAA) 100 (now 0) CasTable_new;
          (fh, hs) = h_alloc (- 1) path O_WRONLY None 300 HandleTable_new;
          actual = make_hash 0xBB;
          (result, c2) = check_and_acquire_write path fh 300 hs actual (now 1) c1
      in \<not> isl result)"

definition test_same_sid_sequential :: "(nat \<Rightarrow> DateTime) \<Rightarrow> bool" where
  "test_same_sid_sequential now =
     (let path = ''test.txt'';
          h0 = make_hash 0xAA;
          c1 = record_reader path h0 100 (now 0) CasTable_new;
          (fh1, hs1) = h_alloc (- 1) path O_WRONLY None 100 HandleTable_new;
          (result1, c2) = check_and_acquire_write path fh1 100 hs1 h0 (now 1) c1;
          h1 = make_hash 0xBB;
          c3 = update_reader 100 path h1 (now 2) c2;
          c4 = release_write path fh1 c3;
          c5 = record_reader path h1 100 (now 3) c4;
          (fh2, hs2) = h_alloc (- 1) path O_WRONLY None 100 hs1;
          (result2, c6) = check_and_acquire_write path fh2 100 hs2 h1 (now 4) c5
      in \<not> isl result1 \<and> \<not> isl result2)"

text \<open>The conversion and subtraction of durations belong to chrono; a failed subtraction panics and
  fails the test.\<close>

definition test_eviction_cleans_reader_hashes ::
  "(nat \<Rightarrow> int option) \<Rightarrow> (DateTime \<Rightarrow> int \<Rightarrow> DateTime option) \<Rightarrow> (nat \<Rightarrow> DateTime) \<Rightarrow> bool" where
  "test_eviction_cleans_reader_hashes from_std dt_sub now =
     (let path = ''test.txt'';
          h0 = make_hash 0xAA;
          c1 = record_reader path h0 100 (now 0) CasTable_new;
          c2 = record_reader path h0 200 (now 1) c1;
          c3 = ensure_entry path (now 2) c2
      in dm_get (reader_hashes c3) (100, path) \<noteq> None \<and> dm_get (reader_hashes c3) (200, path) \<noteq> None
         \<and> (case evict_older_than from_std dt_sub 0 (now 3) c3 of
              None \<Rightarrow> False
            | Some c4 \<Rightarrow> dm_len (reader_hashes c4) = 0 \<and> dm_len (entries c4) = 0))"

definition test_remove_cleans_reader_hashes :: "(nat \<Rightarrow> DateTime) \<Rightarrow> bool" where
  "test_remove_cleans_reader_hashes now =
     (let path = ''test.txt'';
          c1 = record_reader path (make_hash 0xAA) 100 (now 0) CasTable_new;
          c2 = record_reader path (make_hash 0xAA) 200 (now 1) c1;
          c3 = cas_remove path c2
      in dm_len (reader_hashes c2) = 2 \<and> dm_len (reader_hashes c3) = 0)"

definition test_rename_moves_reader_hashes :: "(nat \<Rightarrow> DateTime) \<Rightarrow> bool" where
  "test_rename_moves_reader_hashes now =
     (let old = ''old.txt'';
          new = ''new.txt'';
          c1 = record_reader old (make_hash 0xAA) 100 (now 0) CasTable_new;
          c2 = record_reader old (make_hash 0xAA) 200 (now 1) c1;
          c3 = ensure_entry old (now 2) c2;
          c4 = cas_rename old new c3
      in dm_get (reader_hashes c4) (100, old) = None \<and> dm_get (reader_hashes c4) (200, old) = None
         \<and> dm_get (reader_hashes c4) (100, new) \<noteq> None \<and> dm_get (reader_hashes c4) (200, new) \<noteq> None
         \<and> dm_get (entries c4) new \<noteq> None \<and> dm_get (entries c4) old = None)"

definition test_rdwr_uses_hash_at_open :: "(nat \<Rightarrow> DateTime) \<Rightarrow> bool" where
  "test_rdwr_uses_hash_at_open now =
     (let path = ''test.txt'';
          h0 = make_hash 0xAA;
          c1 = record_reader path h0 100 (now 0) CasTable_new;
          (fh, hs) = h_alloc (- 1) path O_RDWR (Some h0) 100 HandleTable_new;
          h1 = make_hash 0xBB;
          (result, c2) = check_and_acquire_write path fh 100 hs h1 (now 1) c1
      in isl result)"

section \<open>They pass\<close>

lemma make_hash_inj [simp]: "make_hash a = make_hash b \<longleftrightarrow> a = b"
  by (simp add: make_hash_def)

lemma isl_check:
  "isl (fst (check_and_acquire_write p k s hs h now t)) \<longleftrightarrow> \<not> admits p k s hs h (occ_of t)"
  using acquire_result_occ [of p k s hs h now t]
  by (cases "fst (check_and_acquire_write p k s hs h now t)") auto

lemma test_simps:
  "h_get (snd (h_alloc fd p fl h s t)) k = (if k = next_fh t
     then Some \<lparr>h_fh = k, h_real_fd = fd, h_path = p, hash_at_open = h, h_flags = fl,
                has_written = False, h_sid = s\<rparr> else h_get t k)"
  "fst (h_alloc fd p fl h s t) = next_fh t" "next_fh (snd (h_alloc fd p fl h s t)) = next_fh t + 1"
  "next_fh HandleTable_new = 1"
  by (simp_all add: h_alloc_def h_get_def HandleTable_new_def Let_def dm_get_insert)

lemmas test_eval = Let_def split_beta isl_check cas_occ occ_new admits_def expected_def test_simps

lemma conflict_test: "test_two_sids_conflict now"
  by (simp add: test_two_sids_conflict_def test_eval)

lemma blind_test: "test_blind_write_allowed now"
  by (simp add: test_blind_write_allowed_def test_eval)

lemma sequential_test: "test_same_sid_sequential now"
  by (simp add: test_same_sid_sequential_def test_eval)

lemma rdwr_test: "test_rdwr_uses_hash_at_open now"
  by (simp add: test_rdwr_uses_hash_at_open_def test_eval)

lemma dm_iter_empty: "dm_iter m = [] \<longleftrightarrow> (\<forall>k. dm_get m k = None)"
proof -
  have "dm_iter m = [] \<longleftrightarrow> dom (dm_get m) = {}"
    by (simp add: dm_len_card card_eq_0_iff flip: length_0_conv)
  then show ?thesis by (auto simp: dom_def)
qed

lemma remove_test: "test_remove_cleans_reader_hashes now"
proof -
  let ?c = "record_reader ''test.txt'' (make_hash 0xAA) 200 (now 1)
      (record_reader ''test.txt'' (make_hash 0xAA) 100 (now 0) CasTable_new)"
  have get: "dm_get (reader_hashes ?c) = [(100, ''test.txt'') \<mapsto> \<lparr>re_hash = make_hash 0xAA, re_last_access = now 0\<rparr>,
      (200, ''test.txt'') \<mapsto> \<lparr>re_hash = make_hash 0xAA, re_last_access = now 1\<rparr>]"
    by (simp add: record_reader_def CasTable_new_def dm_get_insert fun_eq_iff)
  have "dm_len (reader_hashes ?c) = 2"
    using get by (simp add: dm_len_card)
  moreover have "dm_iter (reader_hashes (cas_remove ''test.txt'' ?c)) = []"
    using get by (auto simp: dm_iter_empty cas_remove_def dm_get_retain)
  ultimately show ?thesis by (simp add: test_remove_cleans_reader_hashes_def Let_def)
qed

lemma rename_test: "test_rename_moves_reader_hashes now"
  by (simp add: test_rename_moves_reader_hashes_def Let_def cas_rename_readers cas_rename_entries
      record_reader_def ensure_entry_def CasTable_new_def dm_get_insert)

lemma eviction_test:
  assumes "evict_cutoff from_std dt_sub 0 (now 3) = Some cutoff"
  shows "test_eviction_cleans_reader_hashes from_std dt_sub now \<longleftrightarrow>
    now 0 < cutoff \<and> now 1 < cutoff \<and> now 2 < cutoff"
  using assms
  by (auto simp: test_eviction_cleans_reader_hashes_def Let_def evict_older_than_def dm_iter_empty
      evict_entries evict_readers record_reader_def ensure_entry_def CasTable_new_def dm_get_insert
      all_conj_distrib split: option.splits if_splits)

text \<open>
  The unit tests of the table pass on the model, for every clock, except that the eviction test
  depends on it: with a conversion that maps the zero duration to zero and an exact subtraction it
  passes if and only if the clock has moved on between the last insertion and the eviction. Two equal
  readings, which \<open>Utc::now\<close> does not exclude, make it fail although the table is right.
\<close>

lemma unit_tests_pass:
  assumes "from_std 0 = Some 0" and "dt_sub (now 3) 0 = Some (now 3)"
  shows "test_two_sids_conflict now \<and> test_blind_write_allowed now \<and> test_same_sid_sequential now
    \<and> test_remove_cleans_reader_hashes now \<and> test_rename_moves_reader_hashes now
    \<and> test_rdwr_uses_hash_at_open now
    \<and> (test_eviction_cleans_reader_hashes from_std dt_sub now \<longleftrightarrow>
        now 0 < now 3 \<and> now 1 < now 3 \<and> now 2 < now 3)"
  using assms eviction_test [of from_std dt_sub now "now 3"]
  by (simp add: conflict_test blind_test sequential_test rdwr_test remove_test rename_test
      evict_cutoff_def)

end
