(* ===== verification/Spec2Isabelle.thy ===== *)
theory Spec2Isabelle
  imports Limits Races Unit_Tests Eviction Startup
begin

text \<open>
  \<^bold>\<open>dibs\<close> is a FUSE file system that puts optimistic concurrency control over a backing directory: each
  session's reads are remembered as content hashes, and a session whose view of a file is out of
  date does not get to write it. This development models the program in \<open>src/src\<close> as HOL functions
  and proves what the protection amounts to, how the parts it rests on behave, and where it ends.

  \<^bold>\<open>The program and its model.\<close> The kernel sends requests to \<open>DibsFs\<close> (\<open>fs/mod.rs\<close>), which keeps an inode
  table, two handle tables and the conflict table and passes the rest on to the backing directory.
  A background thread evicts idle conflict entries; \<open>main.rs\<close> mounts, waits for a signal and unmounts.

  \<^item> \<open>Dibs_Prelude\<close>: machine integers, results, the concurrent map \<open>DashMap\<close> as a finite association
    list, runs of admissible operations and the two interfaces shared by several components: a
    component that keeps an invariant, and a table that hands out numbered handles.
  \<^item> \<open>Paths\<close>: the parts of \<open>std::path\<close> and of lossy UTF-8 decoding that the sources use.
  \<^item> \<open>Os_Interface\<close>: everything outside the sources (libc, \<open>std::fs\<close>, clocks, hash crates) as one
    record of functions over an arbitrary world, a parameter of all that follows. A failing call is
    a value; short reads and errors in the middle of a file are possible outcomes.
  \<^item> \<open>Passthrough\<close> (\<open>fs/passthrough.rs\<close>): \<open>stat\<close> conversions.
  \<^item> \<open>Cas\<close> (\<open>fs/cas.rs\<close>): content hashes, with both read loops.
  \<^item> \<open>Inodes\<close> (\<open>fs/inodes.rs\<close>, \<open>fs/virtual_dir.rs\<close>), \<open>Handles\<close> (\<open>fs/handles.rs\<close>).
  \<^item> \<open>Hash_Table\<close> (\<open>state/hash_table.rs\<close>): the conflict table, its abstract view \<open>occ\<close> (what each session
    has seen of each path, which paths are tracked, which handle owns the write of a path) and the
    refinement between them.
  \<^item> \<open>Config\<close> (\<open>config.rs\<close>, \<open>error.rs\<close>): the data of the command line with its defaults, errors and their
    messages.
  \<^item> \<open>Dibs_Fs\<close> (\<open>fs/mod.rs\<close>): the state and every handler. A handler maps request, state and world to
    its reply, the new state and the new world; each early return is a branch.
  \<^item> \<open>Fs_Steps\<close>: requests, eviction passes and outside changes of the world as events, runs of them
    from mounting on, and the invariant. An eviction pass is one event, or the removal of single paths
    it had collected earlier and the dropping of reader entries as events of their own.
  \<^item> \<open>Races\<close> (\<open>state/hash_table.rs\<close>): the request thread and the eviction thread interleaved at the locks
    of the conflict table: the two halves of \<open>check_and_acquire_write\<close>, before and after the entry is
    locked, and the visits, removals and the final sweep of \<open>evict_older_than\<close>.
  \<^item> \<open>Unit_Tests\<close> (\<open>state/hash_table.rs\<close>): the test functions as predicates over the clock.
  \<^item> \<open>Eviction\<close> (\<open>state/eviction.rs\<close>): the eviction thread between loads of its shutdown flag, on the
    table it shares with the other threads; a pass whose cutoff is not representable kills it.
  \<^item> \<open>Shutdown\<close>, \<open>Signals\<close> and \<open>Startup\<close> (\<open>main.rs\<close>): the two-phase wait for a signal, the unmount
    command and the stale mount test; the signal handler and its pipe; and \<open>main\<close> from the parsed
    command line to the final calls. The \<open>DibsFs\<close> values \<open>main\<close> makes are kept in a store, the clones of
    their \<open>Arc\<close>s are positions in it, and the session, the eviction thread and the wait run as steps on
    that store.

  \<^bold>\<open>What is shown.\<close>

  \<^item> \<open>Conflict\<close>: over every interleaving of events, a stale session's open for writing only is refused
    as long as its view was neither replaced nor dropped (in this theory once more in terms of file
    contents), a write owner keeps its ownership and
    excludes all other writers, a session with a current or no view is let in, a flush publishes
    the write and lets its session write again, and stale sessions cannot delete or rename.
  \<^item> \<open>Races\<close>: undisturbed, the stages are the atomic operations; in every interleaving an owned path
    that was not collected before stays owned, and an acquisition of a recently used path does not
    panic; otherwise a pass can take a fresh ownership away or make the \<open>unwrap\<close> panic.
  \<^item> \<open>Path_Types\<close>: every path any table holds is a sequence of plain names, an invariant of typed
    requests, so that with errors as the system documents them no conversion of a path fails.
  \<^item> \<open>Ownership\<close>: owners are open handles on the path they own as long as nothing is renamed and
    \<open>setattr\<close> gets handles on the path its inode resolves to, and the exact gate of \<open>write\<close>: what passes
    reaches the file, what does not never does.
  \<^item> \<open>Hash_Table\<close>: the refinement of the abstract register by every sequence of operations, and the
    exact effect of eviction and renaming.
  \<^item> \<open>Inodes\<close>, \<open>Handles\<close>, \<open>Cas\<close>, \<open>Passthrough\<close>: inverse maps, unique handle numbers up to the wrap of the
    64-bit counter, hashes as functions of the content, lossless modes.
  \<^item> \<open>Namespace\<close>: paths stay below the backing directory, inodes handed out resolve, listings are
    complete in pages of any size, each read from the state the one before has left, and the virtual
    files show exactly the conflict table and read back whole.
  \<^item> \<open>Bounds\<close>: byte counts of reads and writes and the times of \<open>setattr\<close> stay in range and are exact.
  \<^item> \<open>Unit_Tests\<close>: the tests pass on the model, one of them only if the clock has moved on.
  \<^item> \<open>Eviction\<close>, \<open>Shutdown\<close>, \<open>Signals\<close>: one pass a minute, prompt end, no signal is lost, released mounts
    are noticed, a busy mount is never forced by the unmount command.
  \<^item> \<open>Startup\<close>: after a successful start the mounted file system is in every run of the program in a
    state the handlers reach, with the options asked for, and its open files are the ones reported; two
    signals end the program; and after a retried mount nothing is ever evicted from the table in use.
  \<^item> \<open>Limits\<close>: where the protection ends, proved of the same definitions: a refused open has already
    truncated, writes beside the owner and truncations by path are unchecked, a rename strands the
    ownership of an open file, the rename of a directory loses the views of what is below it, opening
    for reading and writing ignores the session's earlier view; two paths with one inode number share
    an inode, a truncation through it can leave a path owned for ever, and the name \<open>.dibs\<close> of the
    backing directory is hidden but not protected.

  \<open>Mem_World\<close> is a small in-memory world and \<open>Scenarios\<close> runs the guarantees in it with two processes
  and one file.

  \<^bold>\<open>Bounds and assumptions.\<close> Handle numbers are 64-bit words. \<open>issues_ok\<close> asks of an event that a counter
  it advances has not reached its last value, that is, fewer than \<open>2 ^ 64\<close> opens since mounting,
  and that \<open>setattr\<close> names an issued handle, as the kernel does. A client that reads a directory has as
  many rounds as there are entries and one more, which is shown to be enough; it is asked that no entry
  of the directory carries an inode number by which the table knows the directory or its parent. A read loop follows
  the list of outcomes of its reads and ends with it; the shutdown loop and the eviction thread
  follow the list of what they observe, and \<open>None\<close> or a state other than stopped means they are
  still running. Of SHA-256 only the streaming law is used, and its length of 32 bytes where the
  statement says so; of \<open>pread\<close> and \<open>pwrite\<close> that they return at most what was asked for; of the kernel
  and of directory listings, in \<open>Path_Types\<close>, that names are single components, and of system calls that
  they fail with OS errors, whose codes fuser passes on. Path keys are compared
  as byte strings; on the paths the tables hold this is Rust's comparison by components, which
  \<open>Path_Types\<close> shows. Requests are handled one at a time (fuser runs them on one thread by default); the
  eviction thread runs beside them. The signal pipe is taken not to fill up.

  \<^bold>\<open>Not modelled.\<close> What is logged and how the log is set up beyond its location, argument parsing
  (clap), JSON and time formatting (parameters), the attribute timeout and generation constants of
  replies, \<open>destroy\<close> (which only logs), and the module lists. A removal, a rename and the sweep over the
  reader entries are single steps of the tables; the eviction thread is not interleaved within them.
\<close>

section \<open>From contents to conflicts\<close>

text \<open>
  C3: Stale sessions in terms of contents. A session opens a file for reading while it holds \<open>c\<close>; any
  events follow that neither renew nor drop that session's view of the path; then the file holds \<open>c'\<close>.
  If the hash functions tell \<open>c\<close> and \<open>c'\<close> apart, or the file has crossed the 10 MiB threshold between
  them, the session's attempt to open the file for writing only (\<open>O_WRONLY\<close>) is refused, and neither a
  handle nor an owner changes.
\<close>

theorem stale_content_rejected:
  assumes "sha_streams os digest" and "fs_inv s" and "next_fh (file_handles s) \<noteq> - 1"
    and "fs_open os pid i rfl s w = (ReplyOpened k, s1, w1)" and "rfl AND O_ACCMODE = O_RDONLY"
    and "get_path (inodes s) i = Some p" and "\<not> is_dibs_ino i"
    and "holds_content os (backing_path s p) w1 c"
    and "admissible_run (fs_step os) issues_ok (s1, w1) evs"
    and "admissible_run (fs_step os) (\<lambda>sw ev. \<not> touches_view os (get_sid os pid w) p sw ev) (s1, w1) evs"
    and "fs_run os evs (s1, w1) = (s2, w2)"
    and "get_path (inodes s2) i' = Some p" and "\<not> is_dibs_ino i'"
    and "get_sid os pid' w2 = get_sid os pid w" and "fl AND O_ACCMODE = O_WRONLY"
    and "holds_content os (backing_path s2 p) w2 c'"
    and "length c \<le> 10 * 1024 * 1024 \<and> length c' \<le> 10 * 1024 * 1024 \<and> digest c' \<noteq> digest c \<or>
         10 * 1024 * 1024 < length c \<and> 10 * 1024 * 1024 < length c' \<and> xxh3_128 os c' \<noteq> xxh3_128 os c \<or>
         (length c \<le> 10 * 1024 * 1024) \<noteq> (length c' \<le> 10 * 1024 * 1024) \<and> (\<forall>b. length (digest b) = 32)"
  shows "\<exists>e s3 w3. fs_open os pid' i' fl s2 w2 = (ReplyError e, s3, w3)
    \<and> owner_of (cas_table s3) = owner_of (cas_table s2)
    \<and> h_get (file_handles s3) = h_get (file_handles s2)"
proof -
  have h: "hash_file os (backing_path s p) w1 = Inr (content_hash os digest c)"
    and h2: "hash_file os (backing_path s2 p) w2 = Inr (content_hash os digest c')"
    by (rule hash_file_content [OF assms(1)] assms(8,16))+
  have ne: "content_hash os digest c' \<noteq> content_hash os digest c"
    using assms(17) content_hash_neq by blast
  have "fs_inv s2" and "seen_by (cas_table s2) (get_sid os pid w, p) = Some (content_hash os digest c)"
    by (rule view_after_run [OF assms(2-7) h assms(9-11)])+
  then show ?thesis
    using fs_open_refused [OF _ assms(13,12) _ h2, of fl pid'] ne assms(14,15)
    by (auto simp: open_admitted_def open_flag_defs)
qed

theorem stale_content_rejected_witness:
  "\<exists>e s3 w3. fs_open mem_env 10 7 1 (fst after_write) (snd after_write) = (ReplyError e, s3, w3)
    \<and> owner_of (cas_table s3) = owner_of (cas_table (fst after_write))
    \<and> h_get (file_handles s3) = h_get (file_handles (fst after_write))"
proof (rule stale_content_rejected
    [of mem_env "\<lambda>c. c" "fst fs0" 10 7 0 "snd fs0" 1 "fst after_read" "snd after_read" "''f''" "[1, 2, 3]"
      other_writes "fst after_write" "snd after_write" 7 10 1 "[9, 2, 3]"])
  show "next_fh (file_handles (fst fs0)) \<noteq> - 1" by (simp add: fs0_eq HandleTable_new_def)
  show "get_path (inodes (fst fs0)) 7 = Some ''f''" by (simp add: fs0_eq inode_lookups)
  show "holds_content mem_env (backing_path (fst fs0) ''f'') (snd after_read) [1, 2, 3]"
    by (rule mem_holds_content) (simp_all add: evaluate)
  show "holds_content mem_env (backing_path (fst after_write) ''f'') (snd after_write) [9, 2, 3]"
    by (rule mem_holds_content) (simp_all add: after_write_def evaluate)
qed (simp_all add: mem_streams fs0_inv read_opened other_writes_issue other_writes_keep_view
      after_write_facts real_inos after_write_run open_flag_defs get_sid_def)

end
